(* ===== verification/Prelude.thy ===== *)
theory Prelude
  imports "HOL-Library.Word" "HOL-Library.Product_Lexorder"
begin

text \<open>
  What every component theory shares: the machine integers of the code, faults (the
  undefined behaviour and the exceptions the C++ code can run into) as values of a sum,
  checked reads of a byte buffer, big-endian and little-endian byte order, and the ordered
  map \<open>std::map\<close> with the interface its clients rely on.
\<close>

unbundle bit_operations_syntax

section \<open>Machine integers and buffers\<close>

type_synonym u8 = "8 word"
type_synonym u16 = "16 word"
type_synonym u32 = "32 word"
type_synonym u64 = "64 word"

type_synonym bytes = "u8 list"

text \<open>\<open>named_theorems\<close> of the development: \<open>rd_simps\<close> evaluates checked reads,
  \<open>wire\<close> holds the byte-order facts, \<open>inv_intros\<close> the preservation lemmas,
  \<open>lk_code\<close> the lock skeletons of the library's functions.\<close>

named_theorems rd_simps
named_theorems wire
named_theorems inv_intros
named_theorems lk_code

text \<open>\<open>size_t\<close> has 64 bits: additions of the code on it wrap around.\<close>

definition size_max :: nat where
  "size_max = 2 ^ 64"

definition size_add :: "nat \<Rightarrow> nat \<Rightarrow> nat" where
  "size_add a b = (a + b) mod size_max"

lemma size_add_small: "a + b < size_max \<Longrightarrow> size_add a b = a + b"
  by (simp add: size_add_def)

definition size_sub :: "nat \<Rightarrow> nat \<Rightarrow> nat" where
  "size_sub a b = (a + (size_max - b mod size_max)) mod size_max"

lemma size_sub_small: "b \<le> a \<Longrightarrow> a < size_max \<Longrightarrow> size_sub a b = a - b"
proof -
  assume a: "b \<le> a" "a < size_max"
  then have "a + (size_max - b mod size_max) = (a - b) + size_max" by simp
  moreover have "a - b < size_max" using a by simp
  ultimately show "size_sub a b = a - b"
    unfolding size_sub_def by (simp only: mod_add_self2 mod_less)
qed

lemma unat_of_nat_u32 [simp]: "n < 2 ^ 32 \<Longrightarrow> unat (of_nat n :: u32) = n"
  by (simp add: unsigned_of_nat take_bit_nat_eq_self)

lemma unat_u32_less: "unat (w :: u32) < 2 ^ 32"
  using unsigned_less [where 'a = nat and w = w] by simp

section \<open>Faults\<close>

text \<open>
  A fault is behaviour the C++ standard leaves undefined (a read past the end of a buffer, a
  division by zero, a signed overflow, a null dereference, an access of freed memory) or an exception the code does not catch
  (\<open>std::future_error\<close> when a promise is satisfied twice or was abandoned).
\<close>

datatype fault =
    Out_of_bounds
  | Division_by_zero
  | Null_dereference
  | Signed_overflow
  | Use_after_free
  | Promise_already_satisfied
  | Broken_promise

fun rbind :: "fault + 'a \<Rightarrow> ('a \<Rightarrow> fault + 'b) \<Rightarrow> fault + 'b" where
  "rbind (Inl e) f = Inl e"
| "rbind (Inr x) f = f x"

lemma rbind_Inr_iff: "rbind r f = Inr y \<longleftrightarrow> (\<exists>x. r = Inr x \<and> f x = Inr y)"
  by (cases r) auto

lemma rbind_Inl_iff: "rbind r f = Inl e \<longleftrightarrow> r = Inl e \<or> (\<exists>x. r = Inr x \<and> f x = Inl e)"
  by (cases r) auto

section \<open>Checked reads\<close>

definition rd :: "bytes \<Rightarrow> nat \<Rightarrow> fault + u8" where
  "rd buf i = (if i < length buf then Inr (buf ! i) else Inl Out_of_bounds)"

lemma rd_ok [rd_simps]: "i < length buf \<Longrightarrow> rd buf i = Inr (buf ! i)"
  by (simp add: rd_def)

lemma rd_oob: "length buf \<le> i \<Longrightarrow> rd buf i = Inl Out_of_bounds"
  by (simp add: rd_def)

lemma rd_append [rd_simps]:
  "rd (pre @ xs) (length pre) = rd xs 0"
  "rd (pre @ xs) (length pre + i) = rd xs i"
  by (auto simp: rd_def nth_append)

lemma rd_Cons [rd_simps]:
  "rd (x # xs) 0 = Inr x"
  "rd (x # xs) (numeral k) = rd xs (numeral k - 1)"
  "rd (x # xs) (Suc i) = rd xs i"
  "rd (x # xs) 1 = rd xs 0"
  by (simp_all add: rd_def nth_Cons')

lemma nth_append_offset [rd_simps]:
  "(pre @ xs) ! Suc (length pre) = xs ! 1"
  "(pre @ xs) ! Suc (Suc (length pre)) = xs ! 2"
  "(pre @ xs) ! Suc (Suc (Suc (length pre))) = xs ! 3"
  by (simp_all add: nth_append numeral_eq_Suc)

definition rd_slice :: "bytes \<Rightarrow> nat \<Rightarrow> nat \<Rightarrow> fault + bytes" where
  "rd_slice buf i n =
     (if i + n \<le> length buf then Inr (take n (drop i buf)) else Inl Out_of_bounds)"

lemma rd_slice_ok [rd_simps]:
  "i + n \<le> length buf \<Longrightarrow> rd_slice buf i n = Inr (take n (drop i buf))"
  by (simp add: rd_slice_def)

lemma rd_slice_length: "rd_slice buf i n = Inr bs \<Longrightarrow> length bs = n"
  by (auto simp: rd_slice_def split: if_splits)

section \<open>Byte order\<close>

text \<open>The shift-and-or forms the code writes out in every codec.\<close>

definition be16 :: "u8 \<Rightarrow> u8 \<Rightarrow> u16" where
  "be16 a b = push_bit 8 (ucast a) OR ucast b"

definition be24 :: "u8 \<Rightarrow> u8 \<Rightarrow> u8 \<Rightarrow> u32" where
  "be24 a b c = push_bit 16 (ucast a) OR push_bit 8 (ucast b) OR ucast c"

definition be32 :: "u8 \<Rightarrow> u8 \<Rightarrow> u8 \<Rightarrow> u8 \<Rightarrow> u32" where
  "be32 a b c d =
     push_bit 24 (ucast a) OR push_bit 16 (ucast b) OR push_bit 8 (ucast c) OR ucast d"

definition bytes16 :: "u16 \<Rightarrow> bytes" where
  "bytes16 w = [ucast (drop_bit 8 w), ucast (w AND 0xFF)]"

definition bytes24 :: "u32 \<Rightarrow> bytes" where
  "bytes24 w = [ucast (drop_bit 16 w), ucast (drop_bit 8 w), ucast (w AND 0xFF)]"

definition bytes32 :: "u32 \<Rightarrow> bytes" where
  "bytes32 w = [ucast (drop_bit 24 w), ucast (drop_bit 16 w), ucast (drop_bit 8 w),
                ucast (w AND 0xFF)]"

lemma mask_byte: "(0xFF :: 'a::len word) = mask 8"
  by (simp add: mask_eq_exp_minus_1)

lemma u8_no_high_bit: "8 \<le> n \<Longrightarrow> \<not> bit (b :: u8) n"
  using bit_imp_le_length [of b n] by auto

lemma u16_no_high_bit: "16 \<le> n \<Longrightarrow> \<not> bit (w :: u16) n"
  using bit_imp_le_length [of w n] by auto

lemma length_bytes16 [simp]: "length (bytes16 w) = 2"
  by (simp add: bytes16_def)

lemma length_bytes24 [simp]: "length (bytes24 w) = 3"
  by (simp add: bytes24_def)

lemma length_bytes32 [simp]: "length (bytes32 w) = 4"
  by (simp add: bytes32_def)

lemma be16_split [wire]: "be16 (ucast (drop_bit 8 w)) (ucast (w AND 0xFF)) = w"
  unfolding be16_def mask_byte
  apply (rule bit_word_eqI)
  subgoal for n
    by (cases "n < 8"; cases "n < 16"; cases "n < 24") (auto simp: bit_simps)
  done

lemma be24_split [wire]:
  "be24 (ucast (drop_bit 16 w)) (ucast (drop_bit 8 w)) (ucast (w AND 0xFF)) = take_bit 24 w"
  unfolding be24_def mask_byte
  apply (rule bit_word_eqI)
  subgoal for n
    by (cases "n < 8"; cases "n < 16"; cases "n < 24") (auto simp: bit_simps)
  done

lemma be32_split [wire]:
  "be32 (ucast (drop_bit 24 w)) (ucast (drop_bit 16 w)) (ucast (drop_bit 8 w))
     (ucast (w AND 0xFF)) = w"
  unfolding be32_def mask_byte
  apply (rule bit_word_eqI)
  subgoal for n
    by (cases "n < 8"; cases "n < 16"; cases "n < 24") (auto simp: bit_simps)
  done

lemma bytes16_be16 [wire]: "bytes16 (be16 a b) = [a, b]"
  unfolding be16_def bytes16_def mask_byte
  by (auto intro!: bit_word_eqI simp: bit_simps u8_no_high_bit)

lemma bytes32_be32 [wire]: "bytes32 (be32 a b c d) = [a, b, c, d]"
  unfolding be32_def bytes32_def mask_byte
  by (auto intro!: bit_word_eqI simp: bit_simps u8_no_high_bit)

definition rd16 :: "bytes \<Rightarrow> nat \<Rightarrow> fault + u16" where
  "rd16 buf i = rbind (rd buf i) (\<lambda>a. rbind (rd buf (i + 1)) (\<lambda>b. Inr (be16 a b)))"

definition rd32 :: "bytes \<Rightarrow> nat \<Rightarrow> fault + u32" where
  "rd32 buf i =
     rbind (rd buf i) (\<lambda>a. rbind (rd buf (i + 1)) (\<lambda>b.
     rbind (rd buf (i + 2)) (\<lambda>c. rbind (rd buf (i + 3)) (\<lambda>d. Inr (be32 a b c d)))))"

lemma rd16_ok [rd_simps]:
  "i + 1 < length buf \<Longrightarrow> rd16 buf i = Inr (be16 (buf ! i) (buf ! (i + 1)))"
  by (simp add: rd16_def rd_ok)

lemma rd32_ok [rd_simps]:
  "i + 3 < length buf \<Longrightarrow>
     rd32 buf i = Inr (be32 (buf ! i) (buf ! (i + 1)) (buf ! (i + 2)) (buf ! (i + 3)))"
  by (simp add: rd32_def rd_ok)

text \<open>A field written in the middle of a buffer is read back whatever surrounds it.\<close>

lemma rd16_bytes16: "rd16 (pre @ bytes16 w @ post) (length pre) = Inr w"
  by (simp add: rd16_def rd_def bytes16_def nth_append be16_split)

lemma rd32_bytes32: "rd32 (pre @ bytes32 w @ post) (length pre) = Inr w"
  by (simp add: rd32_def rd_def bytes32_def nth_append be32_split)

text \<open>
  \<open>htonl\<close> and \<open>ntohl\<close>: the code stores the converted integer and then copies its object
  representation. Whatever the byte order of the host, these bytes are the big-endian
  ones, so the component theories write \<open>bytes32\<close> and \<open>rd32\<close> for such copies.
\<close>

definition byte_swap32 :: "u32 \<Rightarrow> u32" where
  "byte_swap32 w = be32 (ucast w) (ucast (drop_bit 8 w)) (ucast (drop_bit 16 w))
                        (ucast (drop_bit 24 w))"

definition htonl :: "bool \<Rightarrow> u32 \<Rightarrow> u32" where
  "htonl little_endian w = (if little_endian then byte_swap32 w else w)"

definition object_bytes32 :: "bool \<Rightarrow> u32 \<Rightarrow> bytes" where
  "object_bytes32 little_endian w = (if little_endian then rev (bytes32 w) else bytes32 w)"

lemma object_bytes_htonl: "object_bytes32 le (htonl le w) = bytes32 w"
proof (cases le)
  case True
  have "ucast w = (ucast (w AND 0xFF) :: u8)"
    unfolding mask_byte by (rule bit_word_eqI) (simp add: bit_simps)
  then have "bytes32 (byte_swap32 w) = rev (bytes32 w)"
    by (simp add: byte_swap32_def bytes32_be32) (simp add: bytes32_def)
  then show ?thesis by (simp add: object_bytes32_def htonl_def True)
qed (simp add: object_bytes32_def htonl_def)

section \<open>\<open>std::map\<close>\<close>

text \<open>
  An ordered map is the list of its entries in ascending key order, the order in which the
  code's range-based loops visit it.
\<close>

type_synonym ('k, 'v) omap = "('k \<times> 'v) list"

definition om_empty :: "('k, 'v) omap" where
  "om_empty = []"

definition om_get :: "('k, 'v) omap \<Rightarrow> 'k \<rightharpoonup> 'v" where
  "om_get m = map_of m"

fun om_put :: "'k::linorder \<Rightarrow> 'v \<Rightarrow> ('k, 'v) omap \<Rightarrow> ('k, 'v) omap" where
  "om_put k v [] = [(k, v)]"
| "om_put k v ((a, b) # m) =
     (if k < a then (k, v) # (a, b) # m
      else if k = a then (k, v) # m
      else (a, b) # om_put k v m)"

definition om_del :: "'k \<Rightarrow> ('k, 'v) omap \<Rightarrow> ('k, 'v) omap" where
  "om_del k m = filter (\<lambda>e. fst e \<noteq> k) m"

definition om_ok :: "('k::linorder, 'v) omap \<Rightarrow> bool" where
  "om_ok m \<longleftrightarrow> sorted_wrt (<) (map fst m)"

lemma set_keys_om_put: "fst ` set (om_put k v m) = insert k (fst ` set m)"
  by (induction k v m rule: om_put.induct) auto

lemma om_put_not_Nil [simp]: "om_put k v m \<noteq> []"
  by (induction k v m rule: om_put.induct) auto

lemma om_ok_Nil [simp]: "om_ok []"
  by (simp add: om_ok_def)

lemma om_ok_Cons: "om_ok ((a, b) # m) \<longleftrightarrow> (\<forall>k \<in> fst ` set m. a < k) \<and> om_ok m"
  by (auto simp: om_ok_def)

lemma om_ok_put: "om_ok m \<Longrightarrow> om_ok (om_put k v m)"
  by (induction k v m rule: om_put.induct) (auto simp: om_ok_Cons set_keys_om_put)

lemma om_ok_filter: "om_ok m \<Longrightarrow> om_ok (filter P m)"
  by (induction m) (auto simp: om_ok_Cons)

lemma om_ok_del: "om_ok m \<Longrightarrow> om_ok (om_del k m)"
  by (simp add: om_del_def om_ok_filter)

lemma om_get_put: "om_ok m \<Longrightarrow> om_get (om_put k v m) = (om_get m)(k \<mapsto> v)"
  by (induction k v m rule: om_put.induct) (auto simp: om_get_def om_ok_Cons fun_eq_iff)

lemma om_get_del: "om_get (om_del k m) = (om_get m)(k := None)"
  by (induction m) (auto simp: om_get_def om_del_def fun_eq_iff)

lemma om_get_set: "om_ok m \<Longrightarrow> om_get m k = Some v \<longleftrightarrow> (k, v) \<in> set m"
  by (induction m) (force simp: om_get_def om_ok_Cons)+

end
