(* ===== verification/Interfaces.thy ===== *)
theory Interfaces
  imports Prelude
begin

text \<open>
  The interfaces the components rely on, as locales: keyed tables (\<open>table\<close>, and
  \<open>extensional_table\<close> for \<open>std::map\<close>), wire codecs (\<open>prefix_codec\<close>, and
  \<open>fixed_codec\<close> for records of one width) and bounded queues (\<open>bounded_queue\<close>).
  The lemmas clients use are proved here, once, from the laws of the provider; every
  provider is interpreted in the theory of the component that defines it.
\<close>

section \<open>Keyed tables\<close>

locale table =
  fixes get :: "'m \<Rightarrow> 'k \<Rightarrow> 'v option"
    and put :: "'k \<Rightarrow> 'v \<Rightarrow> 'm \<Rightarrow> 'm"
    and del :: "'k \<Rightarrow> 'm \<Rightarrow> 'm"
    and ok :: "'m \<Rightarrow> bool"
  assumes get_put: "ok m \<Longrightarrow> get (put k v m) = (get m)(k \<mapsto> v)"
    and get_del: "ok m \<Longrightarrow> get (del k m) = (get m)(k := None)"
    and ok_put: "ok m \<Longrightarrow> ok (put k v m)"
    and ok_del: "ok m \<Longrightarrow> ok (del k m)"
begin

lemma get_put_same: "ok m \<Longrightarrow> get (put k v m) k = Some v"
  by (simp add: get_put)

lemma get_put_other: "ok m \<Longrightarrow> k' \<noteq> k \<Longrightarrow> get (put k v m) k' = get m k'"
  by (simp add: get_put)

lemma get_del_same: "ok m \<Longrightarrow> get (del k m) k = None"
  by (simp add: get_del)

lemma get_del_other: "ok m \<Longrightarrow> k' \<noteq> k \<Longrightarrow> get (del k m) k' = get m k'"
  by (simp add: get_del)

lemma get_put_put: "ok m \<Longrightarrow> get (put k w (put k v m)) = get (put k w m)"
  by (simp add: get_put ok_put)

lemma get_del_put_fresh:
  "ok m \<Longrightarrow> get m k = None \<Longrightarrow> get (del k (put k v m)) = get m"
  by (simp add: get_del get_put ok_put fun_upd_idem)

text \<open>A predicate on all stored entries survives a put of a good entry, and a delete.\<close>

lemma all_put:
  assumes "ok m" and "\<And>k' v'. get m k' = Some v' \<Longrightarrow> P k' v'" and "P k v"
  shows "get (put k v m) k' = Some v' \<Longrightarrow> P k' v'"
  using assms by (auto simp: get_put split: if_splits)

lemma all_del:
  assumes "ok m" and "\<And>k' v'. get m k' = Some v' \<Longrightarrow> P k' v'"
  shows "get (del k m) k' = Some v' \<Longrightarrow> P k' v'"
  using assms by (auto simp: get_del split: if_splits)

end

locale extensional_table = table +
  assumes ext: "ok m \<Longrightarrow> ok m' \<Longrightarrow> get m = get m' \<Longrightarrow> m = m'"
begin

lemma put_put: "ok m \<Longrightarrow> put k w (put k v m) = put k w m"
  by (rule ext) (simp_all add: ok_put get_put_put)

lemma del_put_fresh: "ok m \<Longrightarrow> get m k = None \<Longrightarrow> del k (put k v m) = m"
  by (rule ext) (simp_all add: ok_put ok_del get_del_put_fresh)

lemma del_absent: "ok m \<Longrightarrow> get m k = None \<Longrightarrow> del k m = m"
  by (rule ext) (simp_all add: ok_del get_del fun_upd_idem)

lemma put_same: "ok m \<Longrightarrow> get m k = Some v \<Longrightarrow> put k v m = m"
  by (rule ext) (simp_all add: ok_put get_put fun_upd_idem)

end

lemma om_ext:
  assumes "om_ok m" and "om_ok m'" and "om_get m = om_get m'"
  shows "m = m'"
proof -
  have eq: "set m = set m'"
    using assms om_get_set [OF assms(1)] om_get_set [OF assms(2)] by auto
  have "sorted (map fst m)" and "distinct (map fst m)"
    and "sorted (map fst m')" and "distinct (map fst m')"
    using assms(1,2) by (auto simp: om_ok_def strict_sorted_iff)
  with eq show ?thesis
    by (intro map_sorted_distinct_set_unique [of fst m m']) (auto simp: distinct_map)
qed

interpretation std_map: extensional_table om_get om_put om_del om_ok
  by unfold_locales (auto simp: om_get_put om_get_del om_ok_put om_ok_del intro: om_ext)

text \<open>Hash tables of the code, whose iteration order no result depends on, are functions.\<close>

definition hm_put :: "'k \<Rightarrow> 'v \<Rightarrow> ('k \<rightharpoonup> 'v) \<Rightarrow> ('k \<rightharpoonup> 'v)" where
  "hm_put k v m = m(k \<mapsto> v)"

definition hm_del :: "'k \<Rightarrow> ('k \<rightharpoonup> 'v) \<Rightarrow> ('k \<rightharpoonup> 'v)" where
  "hm_del k m = m(k := None)"

interpretation hash_map: extensional_table "\<lambda>m. m" hm_put hm_del "\<lambda>_. True"
  by unfold_locales (auto simp: hm_put_def hm_del_def)

section \<open>Wire codecs\<close>

text \<open>
  \<open>dec buf len\<close> decodes a value from the first \<open>len\<close> bytes of a buffer. \<open>norm\<close> is what
  of a value travels on the wire, \<open>valid\<close> which values the encoding can carry.
\<close>

locale prefix_codec =
  fixes enc :: "'a \<Rightarrow> bytes"
    and dec :: "bytes \<Rightarrow> nat \<Rightarrow> fault + 'a option"
    and norm :: "'a \<Rightarrow> 'a"
    and valid :: "'a \<Rightarrow> bool"
  assumes dec_enc: "valid x \<Longrightarrow> length (enc x) \<le> len \<Longrightarrow>
    dec (enc x @ rest) len = Inr (Some (norm x))"
begin

lemma dec_enc_exact: "valid x \<Longrightarrow> dec (enc x) (length (enc x)) = Inr (Some (norm x))"
  using dec_enc [of x "length (enc x)" "[]"] by simp

text \<open>Decoding is unambiguous: two streams that start the same start with the same value.\<close>

lemma unique_prefix:
  assumes "valid x" and "valid y" and "enc x @ r = enc y @ s"
  shows "norm x = norm y"
proof -
  let ?n = "max (length (enc x)) (length (enc y))"
  have "dec (enc x @ r) ?n = Inr (Some (norm x))" and "dec (enc y @ s) ?n = Inr (Some (norm y))"
    using assms(1,2) by (simp_all add: dec_enc)
  with assms(3) show ?thesis by simp
qed

lemma enc_inj: "valid x \<Longrightarrow> valid y \<Longrightarrow> enc x = enc y \<Longrightarrow> norm x = norm y"
  using unique_prefix [of x y "[]" "[]"] by simp

end

text \<open>Records of one width, laid out one after the other: the decode loop over them.\<close>

function chunk_loop ::
    "(bytes \<Rightarrow> nat \<Rightarrow> fault + 'a option) \<Rightarrow> nat \<Rightarrow> bytes \<Rightarrow> nat \<Rightarrow> nat \<Rightarrow> fault + 'a list" where
  "chunk_loop dec width data offset limit =
     (if 0 < width \<and> offset + width \<le> limit \<and> offset + width \<le> length data then
        rbind (dec (drop offset data) (limit - offset)) (\<lambda>entry.
        rbind (chunk_loop dec width data (offset + width) limit) (\<lambda>entries.
          Inr (case entry of None \<Rightarrow> entries | Some e \<Rightarrow> e # entries)))
      else Inr [])"
  by pat_completeness auto
termination
  by (relation "measure (\<lambda>(dec, width, data, offset, limit). limit - offset)") auto

declare chunk_loop.simps [simp del]

lemma chunk_loop_stop:
  "\<not> (offset + width \<le> limit \<and> offset + width \<le> length data) \<Longrightarrow>
     chunk_loop dec width data offset limit = Inr []"
  by (auto simp: chunk_loop.simps [of dec width data offset limit])

lemma chunk_loop_step:
  "0 < width \<Longrightarrow> offset + width \<le> limit \<Longrightarrow> offset + width \<le> length data \<Longrightarrow>
     chunk_loop dec width data offset limit =
       rbind (dec (drop offset data) (limit - offset)) (\<lambda>entry.
       rbind (chunk_loop dec width data (offset + width) limit) (\<lambda>entries.
         Inr (case entry of None \<Rightarrow> entries | Some e \<Rightarrow> e # entries)))"
  by (simp add: chunk_loop.simps [of dec width data offset limit])

text \<open>The loop never faults when the element decoder does not on the bytes it is given.\<close>

lemma chunk_loop_total:
  assumes "\<And>buf len. width \<le> len \<Longrightarrow> width \<le> length buf \<Longrightarrow> \<exists>r. dec buf len = Inr r"
  shows "\<exists>es. chunk_loop dec width data offset limit = Inr es"
  using assms
proof (induction dec width data offset limit rule: chunk_loop.induct)
  case (1 dec width data offset limit)
  show ?case
  proof (cases "0 < width \<and> offset + width \<le> limit \<and> offset + width \<le> length data")
    case True
    then have "width \<le> limit - offset" and "width \<le> length (drop offset data)"
      by auto
    then obtain r where r: "dec (drop offset data) (limit - offset) = Inr r"
      using "1.prems" by blast
    moreover obtain es where "chunk_loop dec width data (offset + width) limit = Inr es"
      using "1.IH" [OF True "1.prems"] by blast
    ultimately show ?thesis
      using True by (simp add: chunk_loop.simps [of dec width data offset limit])
  next
    case False
    then show ?thesis
      by (auto simp: chunk_loop.simps [of dec width data offset limit])
  qed
qed

locale fixed_codec = prefix_codec +
  fixes width :: nat
  assumes enc_length: "valid x \<Longrightarrow> length (enc x) = width"
    and width_pos: "0 < width"
begin

lemma length_concat_enc:
  "(\<And>x. x \<in> set xs \<Longrightarrow> valid x) \<Longrightarrow> length (concat (map enc xs)) = width * length xs"
  by (induction xs) (auto simp: enc_length)

text \<open>An array of encoded records is decoded to the records, wherever it stands in the data.\<close>

lemma chunk_loop_concat:
  assumes "\<And>x. x \<in> set xs \<Longrightarrow> valid x"
  shows "chunk_loop dec width (pre @ concat (map enc xs) @ post) (length pre)
           (length pre + width * length xs) = Inr (map norm xs)"
  using assms
proof (induction xs arbitrary: pre)
  case Nil
  show ?case using width_pos by (simp add: chunk_loop_stop)
next
  case (Cons x xs)
  let ?data = "pre @ concat (map enc (x # xs)) @ post"
  let ?lim = "length pre + width * length (x # xs)"
  have x: "valid x" and len: "length (enc x) = width"
    using Cons.prems enc_length by auto
  have step: "dec (drop (length pre) ?data) (?lim - length pre) = Inr (Some (norm x))"
    using dec_enc [OF x, of "width * length (x # xs)" "concat (map enc xs) @ post"] len
    by simp
  have IH: "chunk_loop dec width ((pre @ enc x) @ concat (map enc xs) @ post)
      (length (pre @ enc x)) (length (pre @ enc x) + width * length xs) = Inr (map norm xs)"
    by (rule Cons.IH) (use Cons.prems in auto)
  then have rest: "chunk_loop dec width ?data (length pre + width) ?lim = Inr (map norm xs)"
    using len by (simp add: algebra_simps)
  have "chunk_loop dec width ?data (length pre) ?lim =
      rbind (dec (drop (length pre) ?data) (?lim - length pre)) (\<lambda>entry.
      rbind (chunk_loop dec width ?data (length pre + width) ?lim) (\<lambda>entries.
        Inr (case entry of None \<Rightarrow> entries | Some e \<Rightarrow> e # entries)))"
    by (rule chunk_loop_step) (use len width_pos in auto)
  also have "\<dots> = Inr (map norm (x # xs))"
    unfolding step rest by simp
  finally show ?case .
qed

end

section \<open>Bounded queues\<close>

text \<open>
  A queue of slots of which a writer uses \<open>push\<close> and a reader \<open>pop\<close>. The writer's values may be
  shorter than a slot: \<open>stores x c\<close> says that slot content \<open>c\<close> starts with value \<open>x\<close>.
\<close>

locale bounded_queue =
  fixes contents :: "'q \<Rightarrow> 'a list"
    and capacity :: "'q \<Rightarrow> nat"
    and ok :: "'q \<Rightarrow> bool"
    and push :: "'b \<Rightarrow> 'q \<Rightarrow> 'q"
    and pop :: "'q \<Rightarrow> 'q"
    and accepts :: "'b \<Rightarrow> bool"
    and stores :: "'b \<Rightarrow> 'a \<Rightarrow> bool"
  assumes push_ok: "ok q \<Longrightarrow> accepts x \<Longrightarrow> length (contents q) < capacity q \<Longrightarrow>
      ok (push x q) \<and> capacity (push x q) = capacity q"
    and push_contents: "ok q \<Longrightarrow> accepts x \<Longrightarrow> length (contents q) < capacity q \<Longrightarrow>
      \<exists>c. contents (push x q) = contents q @ [c] \<and> stores x c"
    and pop_ok: "ok q \<Longrightarrow> contents q \<noteq> [] \<Longrightarrow> ok (pop q) \<and> capacity (pop q) = capacity q"
    and pop_contents: "ok q \<Longrightarrow> contents q \<noteq> [] \<Longrightarrow> contents (pop q) = tl (contents q)"
begin

lemma push_many:
  assumes "ok q" and "\<forall>x \<in> set xs. accepts x" and "length (contents q) + length xs \<le> capacity q"
  shows "\<exists>cs. contents (fold push xs q) = contents q @ cs \<and> list_all2 stores xs cs \<and>
    ok (fold push xs q) \<and> capacity (fold push xs q) = capacity q"
  using assms
proof (induction xs arbitrary: q)
  case Nil
  then show ?case by simp
next
  case (Cons x xs)
  have room: "accepts x" "length (contents q) < capacity q" using Cons.prems by simp_all
  obtain c where c: "contents (push x q) = contents q @ [c]" "stores x c"
    using push_contents [OF Cons.prems(1) room] by blast
  have ok': "ok (push x q)" "capacity (push x q) = capacity q"
    using push_ok [OF Cons.prems(1) room] by simp_all
  have "length (contents (push x q)) + length xs \<le> capacity (push x q)"
    using Cons.prems(3) c(1) ok'(2) by simp
  then obtain cs where "contents (fold push xs (push x q)) = contents (push x q) @ cs"
    "list_all2 stores xs cs" "ok (fold push xs (push x q))"
    "capacity (fold push xs (push x q)) = capacity (push x q)"
    using Cons.IH [OF ok'(1)] Cons.prems(2) by auto
  then show ?case using c ok'(2) by (intro exI [of _ "c # cs"]) simp
qed

lemma pop_many:
  "ok q \<Longrightarrow> n \<le> length (contents q) \<Longrightarrow>
     ok ((pop ^^ n) q) \<and> contents ((pop ^^ n) q) = drop n (contents q)"
proof (induction n)
  case (Suc n)
  then have IH: "ok ((pop ^^ n) q)" "contents ((pop ^^ n) q) = drop n (contents q)" by simp_all
  then have "contents ((pop ^^ n) q) \<noteq> []" using Suc.prems(2) by simp
  then show ?case using pop_ok [OF IH(1)] pop_contents [OF IH(1)] IH(2) by (simp add: drop_Suc tl_drop)
qed simp

end

end
