(* ===== verification/Types.thy ===== *)
theory Types
  imports Prelude
begin

text \<open>
  The vocabulary of \<open>include/msomeip/types.h\<close>: protocol constants, the enumerations with
  their bytes, service identifiers with their order and hash, and the configuration structs.
  An enumeration with a fixed underlying type can hold any byte, because \<open>static_cast\<close>
  does not check: a byte without an enumerator is kept in a constructor of its own.
\<close>

type_synonym service_id = u16
type_synonym instance_id = u16
type_synonym method_id = u16
type_synonym event_id = u16
type_synonym session_id = u16
type_synonym client_id = u16
type_synonym request_id = u32
type_synonym eventgroup_id = u16

text \<open>A \<open>std::function\<close> is a token; an empty one is \<open>None\<close>.\<close>

type_synonym handler = nat

section \<open>Protocol constants\<close>

definition SOMEIP_PROTOCOL_VERSION :: u16 where
  "SOMEIP_PROTOCOL_VERSION = 0x01"

definition SOMEIP_INTERFACE_VERSION :: u16 where
  "SOMEIP_INTERFACE_VERSION = 0x01"

definition SOMEIP_SD_PORT :: u16 where
  "SOMEIP_SD_PORT = 30490"

definition SOMEIP_SD_METHOD_ID :: u16 where
  "SOMEIP_SD_METHOD_ID = 0x8100"

definition SOMEIP_SD_SERVICE_ID :: u16 where
  "SOMEIP_SD_SERVICE_ID = 0xFFFF"

definition SOMEIP_SD_INSTANCE_ID :: u16 where
  "SOMEIP_SD_INSTANCE_ID = 0x0000"

definition SOMEIP_SD_METHOD_FIND_SERVICE :: u16 where
  "SOMEIP_SD_METHOD_FIND_SERVICE = 0x0001"

definition SOMEIP_SD_METHOD_OFFER_SERVICE :: u16 where
  "SOMEIP_SD_METHOD_OFFER_SERVICE = 0x0002"

definition SOMEIP_SD_METHOD_SUBSCRIBE_EVENTGROUP :: u16 where
  "SOMEIP_SD_METHOD_SUBSCRIBE_EVENTGROUP = 0x0006"

definition SOMEIP_SD_METHOD_SUBSCRIBE_EVENTGROUP_ACK :: u16 where
  "SOMEIP_SD_METHOD_SUBSCRIBE_EVENTGROUP_ACK = 0x0007"

definition SOMEIP_SD_METHOD_SUBSCRIBE_EVENTGROUP_NACK :: u16 where
  "SOMEIP_SD_METHOD_SUBSCRIBE_EVENTGROUP_NACK = 0x0008"

definition SOMEIP_MAGIC_COOKIE_CLIENT :: u32 where
  "SOMEIP_MAGIC_COOKIE_CLIENT = 0xDBEEFDBE"

definition SOMEIP_MAGIC_COOKIE_SERVER :: u32 where
  "SOMEIP_MAGIC_COOKIE_SERVER = 0xDBEEFD42"

section \<open>Enumerations\<close>

datatype message_type =
    REQUEST | REQUEST_NO_RETURN | NOTIFICATION | RESPONSE | ERROR
  | TP_REQUEST | TP_REQUEST_NO_RETURN | TP_NOTIFICATION | TP_RESPONSE | TP_ERROR
  | MT_other u8

fun mt_byte :: "message_type \<Rightarrow> u8" where
  "mt_byte REQUEST = 0x00"
| "mt_byte REQUEST_NO_RETURN = 0x01"
| "mt_byte NOTIFICATION = 0x02"
| "mt_byte RESPONSE = 0x80"
| "mt_byte ERROR = 0x81"
| "mt_byte TP_REQUEST = 0x20"
| "mt_byte TP_REQUEST_NO_RETURN = 0x21"
| "mt_byte TP_NOTIFICATION = 0x22"
| "mt_byte TP_RESPONSE = 0xA0"
| "mt_byte TP_ERROR = 0xA1"
| "mt_byte (MT_other b) = b"

definition mt_of_byte :: "u8 \<Rightarrow> message_type" where
  "mt_of_byte b =
     (if b = 0x00 then REQUEST else if b = 0x01 then REQUEST_NO_RETURN
      else if b = 0x02 then NOTIFICATION else if b = 0x80 then RESPONSE
      else if b = 0x81 then ERROR else if b = 0x20 then TP_REQUEST
      else if b = 0x21 then TP_REQUEST_NO_RETURN else if b = 0x22 then TP_NOTIFICATION
      else if b = 0xA0 then TP_RESPONSE else if b = 0xA1 then TP_ERROR else MT_other b)"

definition mt_ok :: "message_type \<Rightarrow> bool" where
  "mt_ok t \<longleftrightarrow> mt_of_byte (mt_byte t) = t"

datatype return_code =
    E_OK | E_NOT_OK | E_UNKNOWN_SERVICE | E_UNKNOWN_METHOD | E_NOT_READY | E_NOT_REACHABLE
  | E_TIMEOUT | E_WRONG_PROTOCOL_VERSION | E_WRONG_INTERFACE_VERSION | E_MALFORMED_MESSAGE
  | E_WRONG_MESSAGE_TYPE | RC_other u8

fun rc_byte :: "return_code \<Rightarrow> u8" where
  "rc_byte E_OK = 0x00"
| "rc_byte E_NOT_OK = 0x01"
| "rc_byte E_UNKNOWN_SERVICE = 0x02"
| "rc_byte E_UNKNOWN_METHOD = 0x03"
| "rc_byte E_NOT_READY = 0x04"
| "rc_byte E_NOT_REACHABLE = 0x05"
| "rc_byte E_TIMEOUT = 0x06"
| "rc_byte E_WRONG_PROTOCOL_VERSION = 0x07"
| "rc_byte E_WRONG_INTERFACE_VERSION = 0x08"
| "rc_byte E_MALFORMED_MESSAGE = 0x09"
| "rc_byte E_WRONG_MESSAGE_TYPE = 0x0A"
| "rc_byte (RC_other b) = b"

definition rc_of_byte :: "u8 \<Rightarrow> return_code" where
  "rc_of_byte b =
     (if b = 0x00 then E_OK else if b = 0x01 then E_NOT_OK
      else if b = 0x02 then E_UNKNOWN_SERVICE else if b = 0x03 then E_UNKNOWN_METHOD
      else if b = 0x04 then E_NOT_READY else if b = 0x05 then E_NOT_REACHABLE
      else if b = 0x06 then E_TIMEOUT else if b = 0x07 then E_WRONG_PROTOCOL_VERSION
      else if b = 0x08 then E_WRONG_INTERFACE_VERSION
      else if b = 0x09 then E_MALFORMED_MESSAGE
      else if b = 0x0A then E_WRONG_MESSAGE_TYPE else RC_other b)"

definition rc_ok :: "return_code \<Rightarrow> bool" where
  "rc_ok c \<longleftrightarrow> rc_of_byte (rc_byte c) = c"

text \<open>
  \<open>SdMessageType\<close>, which no function uses; its enumerators share names with \<open>SdEntryType\<close> and get
  a prefix.
\<close>

datatype sd_message_type =
    SDM_FIND_SERVICE | SDM_OFFER_SERVICE | SDM_STOP_OFFER | SDM_SUBSCRIBE_EVENTGROUP
  | SDM_STOP_SUBSCRIBE_EVENTGROUP | SDM_SUBSCRIBE_EVENTGROUP_ACK | SDM_SUBSCRIBE_EVENTGROUP_NACK

fun sd_message_byte :: "sd_message_type \<Rightarrow> u8" where
  "sd_message_byte SDM_FIND_SERVICE = 0x00"
| "sd_message_byte SDM_OFFER_SERVICE = 0x01"
| "sd_message_byte SDM_STOP_OFFER = 0x02"
| "sd_message_byte SDM_SUBSCRIBE_EVENTGROUP = 0x06"
| "sd_message_byte SDM_STOP_SUBSCRIBE_EVENTGROUP = 0x07"
| "sd_message_byte SDM_SUBSCRIBE_EVENTGROUP_ACK = 0x08"
| "sd_message_byte SDM_SUBSCRIBE_EVENTGROUP_NACK = 0x09"

datatype ip_protocol = UDP | TCP | IP_other u8

fun ip_byte :: "ip_protocol \<Rightarrow> u8" where
  "ip_byte UDP = 0x06"
| "ip_byte TCP = 0x11"
| "ip_byte (IP_other b) = b"

definition ip_of_byte :: "u8 \<Rightarrow> ip_protocol" where
  "ip_of_byte b = (if b = 0x06 then UDP else if b = 0x11 then TCP else IP_other b)"

definition ip_ok :: "ip_protocol \<Rightarrow> bool" where
  "ip_ok p \<longleftrightarrow> ip_of_byte (ip_byte p) = p"

text \<open>A byte read as an enumerator is written back as the same byte.\<close>

lemma mt_byte_of_byte [simp]: "mt_byte (mt_of_byte b) = b"
  by (simp add: mt_of_byte_def)

lemma rc_byte_of_byte [simp]: "rc_byte (rc_of_byte b) = b"
  by (simp add: rc_of_byte_def)

lemma ip_byte_of_byte [simp]: "ip_byte (ip_of_byte b) = b"
  by (simp add: ip_of_byte_def)

lemma mt_ok_of_byte [simp]: "mt_ok (mt_of_byte b)"
  by (simp add: mt_ok_def)

lemma rc_ok_of_byte [simp]: "rc_ok (rc_of_byte b)"
  by (simp add: rc_ok_def)

lemma ip_ok_of_byte [simp]: "ip_ok (ip_of_byte b)"
  by (simp add: ip_ok_def)

lemma mt_ok_named [simp]:
  "mt_ok REQUEST" "mt_ok REQUEST_NO_RETURN" "mt_ok NOTIFICATION" "mt_ok RESPONSE" "mt_ok ERROR"
  "mt_ok TP_REQUEST" "mt_ok TP_REQUEST_NO_RETURN" "mt_ok TP_NOTIFICATION" "mt_ok TP_RESPONSE"
  "mt_ok TP_ERROR"
  by (simp_all add: mt_ok_def mt_of_byte_def)

lemma rc_ok_named [simp]:
  "rc_ok E_OK" "rc_ok E_NOT_OK" "rc_ok E_UNKNOWN_SERVICE" "rc_ok E_UNKNOWN_METHOD"
  "rc_ok E_NOT_READY" "rc_ok E_NOT_REACHABLE" "rc_ok E_TIMEOUT" "rc_ok E_WRONG_PROTOCOL_VERSION"
  "rc_ok E_WRONG_INTERFACE_VERSION" "rc_ok E_MALFORMED_MESSAGE" "rc_ok E_WRONG_MESSAGE_TYPE"
  by (simp_all add: rc_ok_def rc_of_byte_def)

lemma ip_ok_named [simp]: "ip_ok UDP" "ip_ok TCP"
  by (simp_all add: ip_ok_def ip_of_byte_def)

section \<open>Service identifiers\<close>

text \<open>\<open>ServiceIdTuple\<close> with its \<open>operator<\<close> (lexicographic) and its hash.\<close>

datatype service_id_tuple = ServiceIdTuple (sit_service: u16) (sit_instance: u16)

definition service_id_less :: "service_id_tuple \<Rightarrow> service_id_tuple \<Rightarrow> bool" where
  "service_id_less a b =
     (if sit_service a \<noteq> sit_service b then sit_service a < sit_service b
      else sit_instance a < sit_instance b)"

definition service_id_hash :: "service_id_tuple \<Rightarrow> u64" where
  "service_id_hash a = push_bit 16 (ucast (sit_service a)) OR ucast (sit_instance a)"

instantiation service_id_tuple :: linorder
begin

definition less_service_id_tuple :: "service_id_tuple \<Rightarrow> service_id_tuple \<Rightarrow> bool" where
  "less_service_id_tuple = service_id_less"

definition less_eq_service_id_tuple :: "service_id_tuple \<Rightarrow> service_id_tuple \<Rightarrow> bool" where
  "less_eq_service_id_tuple a b \<longleftrightarrow> a = b \<or> service_id_less a b"

instance
  by standard
    (auto simp: less_service_id_tuple_def less_eq_service_id_tuple_def service_id_less_def
      service_id_tuple.expand split: if_splits)

end

text \<open>The hash is injective: the bits of the service stand above those of the instance.\<close>

lemma service_id_hash_fields:
  "ucast (drop_bit 16 (service_id_hash a)) = sit_service a"
  "ucast (service_id_hash a) = sit_instance a"
  by (auto intro!: bit_word_eqI simp: service_id_hash_def bit_simps
      u16_no_high_bit)

lemma service_id_hash_inject: "service_id_hash a = service_id_hash b \<Longrightarrow> a = b"
  by (metis service_id_hash_fields service_id_tuple.expand)

section \<open>Configuration structs\<close>

record endpoint =
  ep_address :: string
  ep_port :: u16
  ep_protocol :: ip_protocol

text \<open>\<open>std::chrono::milliseconds\<close> counts are integers.\<close>

record service_config =
  sc_service_id :: u16
  sc_instance_id :: u16
  sc_major_version :: u8
  sc_minor_version :: u32
  sc_ttl :: int
  sc_reliable :: bool
  sc_unreliable :: bool
  sc_reliable_port :: u16
  sc_unreliable_port :: u16

record subscription_info =
  sub_service_id :: u16
  sub_instance_id :: u16
  sub_eventgroup_id :: u16
  sub_major_version :: u8
  sub_ttl :: u32
  sub_endpoints :: "endpoint list"

record event_config =
  ec_service_id :: u16
  ec_instance_id :: u16
  ec_event_id :: u16
  ec_eventgroup_id :: u16
  ec_is_field :: bool
  ec_is_reliable :: bool

record method_config =
  mc_service_id :: u16
  mc_instance_id :: u16
  mc_method_id :: u16
  mc_is_reliable :: bool
  mc_timeout :: int

text \<open>
  Points of \<open>steady_clock\<close> are nanosecond counts; \<open>duration_cast\<close> to a coarser unit
  truncates towards zero.
\<close>

type_synonym time_point = int

definition duration_cast :: "int \<Rightarrow> int \<Rightarrow> int" where
  "duration_cast unit_ns d = sgn d * (\<bar>d\<bar> div unit_ns)"

definition to_milliseconds :: "int \<Rightarrow> int" where
  "to_milliseconds = duration_cast 1000000"

definition to_seconds :: "int \<Rightarrow> int" where
  "to_seconds = duration_cast 1000000000"

text \<open>\<open>std::string::assign\<close> from bytes.\<close>

definition string_of_bytes :: "bytes \<Rightarrow> string" where
  "string_of_bytes bs = map (\<lambda>b. char_of (unat b)) bs"

lemma duration_cast_nonneg: "0 \<le> d \<Longrightarrow> duration_cast u d = d div u"
  by (auto simp: duration_cast_def sgn_if)

lemma duration_cast_mono:
  "0 < u \<Longrightarrow> 0 \<le> d \<Longrightarrow> d \<le> d' \<Longrightarrow> duration_cast u d \<le> duration_cast u d'"
  by (simp add: duration_cast_nonneg zdiv_mono1)

end
