(* ===== verification/ShmAgent.thy ===== *)
theory ShmAgent
  imports Interfaces Types
begin

text \<open>
  \<open>shm_agent.h\<close> and \<open>shm_agent.cpp\<close>: the client side of the routing daemon's shared memory.
  The library \<open>shm\<close> is not part of the repository: what \<open>shm_client_connect\<close> returns and
  whether \<open>shm_lock\<close> succeeds are arguments, and the calls made on it are actions. The memory
  behind \<open>shm_data_\<close> is the byte list \<open>sa_data\<close>, an access outside it a fault; between two
  operations other processes may change it. Plain integers in it have the byte order of the
  host, the argument \<open>le\<close>.
\<close>

section \<open>Types\<close>

text \<open>\<open>CMD_FIND_SERVICE\<close> is \<open>RouteCommandType::FIND_SERVICE\<close>, apart from the entry type of that name.\<close>

datatype route_command_type =
    REGISTER_SERVICE | UNREGISTER_SERVICE | CMD_FIND_SERVICE | SUBSCRIBE | UNSUBSCRIBE
  | LOOKUP_SERVICE | LOOKUP_SUBSCRIBERS | HEARTBEAT

fun command_byte :: "route_command_type \<Rightarrow> u8" where
  "command_byte REGISTER_SERVICE = 0x01"
| "command_byte UNREGISTER_SERVICE = 0x02"
| "command_byte CMD_FIND_SERVICE = 0x03"
| "command_byte SUBSCRIBE = 0x04"
| "command_byte UNSUBSCRIBE = 0x05"
| "command_byte LOOKUP_SERVICE = 0x06"
| "command_byte LOOKUP_SUBSCRIBERS = 0x07"
| "command_byte HEARTBEAT = 0x08"

text \<open>A response type is read from memory with \<open>static_cast\<close>, so any byte can occur.\<close>

datatype route_response_type =
    SERVICE_AVAILABLE | SERVICE_UNAVAILABLE | SUBSCRIPTION_ACK | SUBSCRIPTION_NACK
  | LOOKUP_RESULT | ROUTE_ERROR | RR_other u8

definition response_of_byte :: "u8 \<Rightarrow> route_response_type" where
  "response_of_byte b =
     (if b = 0x10 then SERVICE_AVAILABLE else if b = 0x11 then SERVICE_UNAVAILABLE
      else if b = 0x12 then SUBSCRIPTION_ACK else if b = 0x13 then SUBSCRIPTION_NACK
      else if b = 0x14 then LOOKUP_RESULT else if b = 0x1F then ROUTE_ERROR else RR_other b)"

record response_header =
  rh_sequence :: u32
  rh_type :: route_response_type
  rh_payload_length :: u32

record shm_agent =
  sa_handle :: bool
  sa_data :: "bytes option"
  sa_data_size :: nat
  sa_notify_fd :: int
  sa_sequence :: u32
  sa_client_id :: u32
  sa_connected :: bool
  sa_running :: bool
  sa_response_queue :: "bytes list"
  sa_availability_handler :: "handler option"
  sa_subscription_handler :: "handler option"
  sa_pending_requests :: "(u32, route_command_type) omap"

text \<open>
  The calls on the library and on the handlers, in their order; \<open>Shm_lock\<close> is a lock that was
  taken. The \<open>SubscriptionInfo\<close> a
  handler gets has only its three ids set; the other members are indeterminate.
\<close>

datatype shm_action =
    Shm_lock | Shm_unlock | Shm_notify | Shm_consume | Shm_close
  | Availability handler u16 u16 bool
  | Subscription handler u16 u16 u16

section \<open>The memory\<close>

definition of_object32 :: "bool \<Rightarrow> u8 \<Rightarrow> u8 \<Rightarrow> u8 \<Rightarrow> u8 \<Rightarrow> u32" where
  "of_object32 le a b c d = (if le then be32 d c b a else be32 a b c d)"

definition rd_obj32 :: "bool \<Rightarrow> bytes \<Rightarrow> nat \<Rightarrow> fault + u32" where
  "rd_obj32 le mem i =
     rbind (rd mem i) (\<lambda>a. rbind (rd mem (i + 1)) (\<lambda>b.
     rbind (rd mem (i + 2)) (\<lambda>c. rbind (rd mem (i + 3)) (\<lambda>d. Inr (of_object32 le a b c d)))))"

definition wr :: "bytes \<Rightarrow> nat \<Rightarrow> bytes \<Rightarrow> fault + bytes" where
  "wr mem i bs =
     (if i + length bs \<le> length mem
      then Inr (take i mem @ bs @ drop (i + length bs) mem) else Inl Out_of_bounds)"

definition wr_obj32 :: "bool \<Rightarrow> bytes \<Rightarrow> nat \<Rightarrow> u32 \<Rightarrow> fault + bytes" where
  "wr_obj32 le mem i v = wr mem i (object_bytes32 le v)"

section \<open>Life cycle\<close>

definition ShmAgent :: shm_agent where
  "ShmAgent = \<lparr>sa_handle = False, sa_data = None, sa_data_size = 0, sa_notify_fd = -1,
     sa_sequence = 1, sa_client_id = 0, sa_connected = False, sa_running = False,
     sa_response_queue = [], sa_availability_handler = None, sa_subscription_handler = None,
     sa_pending_requests = []\<rparr>"

definition set_client_id :: "u32 \<Rightarrow> shm_agent \<Rightarrow> shm_agent" where
  "set_client_id c st = st\<lparr>sa_client_id := c\<rparr>"

definition set_shm_available_handler :: "handler option \<Rightarrow> shm_agent \<Rightarrow> shm_agent" where
  "set_shm_available_handler h st = st\<lparr>sa_availability_handler := h\<rparr>"

definition set_subscription_ack_handler :: "handler option \<Rightarrow> shm_agent \<Rightarrow> shm_agent" where
  "set_subscription_ack_handler h st = st\<lparr>sa_subscription_handler := h\<rparr>"

text \<open>
  What the library says of a connection: \<open>None\<close> when it fails or gives no handle, else the
  data pointer (which may be null), the size and the descriptor.
\<close>

definition shm_connect :: "(bytes option \<times> nat \<times> int) option \<Rightarrow> shm_agent \<Rightarrow> bool \<times> shm_agent" where
  "shm_connect attached st =
     (if sa_connected st then (True, st)
      else case attached of
        None \<Rightarrow> (False, st)
      | Some (data, data_size, fd) \<Rightarrow>
          (True, st\<lparr>sa_handle := True, sa_data := data, sa_data_size := data_size,
             sa_notify_fd := fd, sa_connected := True, sa_running := True\<rparr>))"

definition shm_disconnect :: "shm_agent \<Rightarrow> shm_agent \<times> shm_action list" where
  "shm_disconnect st =
     (if \<not> sa_connected st then (st, [])
      else
        let st = st\<lparr>sa_running := False\<rparr>;
            (st, actions) =
              (if sa_handle st
               then (st\<lparr>sa_handle := False, sa_data := None, sa_data_size := 0,
                        sa_notify_fd := -1\<rparr>, [Shm_close])
               else (st, []))
        in (st\<lparr>sa_connected := False\<rparr>, actions))"

section \<open>Commands\<close>

text \<open>The bytes of a slot of the command queue, and of its header.\<close>

definition COMMAND_SLOT :: u32 where
  "COMMAND_SLOT = 4 + 2 + 1 + 4 + 256"

definition QUEUE_HEADER :: nat where
  "QUEUE_HEADER = 16"

text \<open>The writes into the slot, one after the other.\<close>

definition write_command ::
    "u32 \<Rightarrow> u32 \<Rightarrow> route_command_type \<Rightarrow> bytes \<Rightarrow> bytes \<Rightarrow> nat \<Rightarrow> fault + bytes" where
  "write_command seq client type payload mem i =
     rbind (wr mem i (bytes32 seq)) (\<lambda>mem.
     rbind (wr mem (i + 4) (bytes16 (ucast client))) (\<lambda>mem.
     rbind (wr mem (i + 6) [command_byte type]) (\<lambda>mem.
     rbind (wr mem (i + 7) (bytes32 (of_nat (length payload)))) (\<lambda>mem.
       if payload \<noteq> [] then wr mem (i + 11) (take 256 payload) else Inr mem))))"

definition send_command ::
    "bool \<Rightarrow> bool \<Rightarrow> route_command_type \<Rightarrow> bytes \<Rightarrow> shm_agent \<Rightarrow>
     fault + bool \<times> shm_agent \<times> shm_action list" where
  "send_command le locked type payload st =
     (case sa_data st of
        None \<Rightarrow> Inr (False, st, [])
      | Some mem \<Rightarrow>
          if \<not> sa_connected st then Inr (False, st, [])
          else if \<not> locked then Inr (False, st, [])
          else
            rbind (rd_obj32 le mem 16) (\<lambda>cmd_queue_offset.
            rbind (rd_obj32 le mem 20) (\<lambda>cmd_queue_size.
              let q = unat cmd_queue_offset in
              rbind (rd_obj32 le mem q) (\<lambda>count.
              rbind (rd_obj32 le mem (q + 12)) (\<lambda>capacity.
                if capacity \<le> count then Inr (False, st, [Shm_lock, Shm_unlock])
                else
                  let seq = sa_sequence st;
                      st = st\<lparr>sa_sequence := seq + 1\<rparr> in
                  rbind (rd_obj32 le mem (q + 8)) (\<lambda>write_index.
                    let offset = unat (write_index * COMMAND_SLOT) in
                    rbind (write_command seq (sa_client_id st) type payload mem
                        (q + QUEUE_HEADER + offset)) (\<lambda>mem.
                    rbind (rd_obj32 le mem (q + 8)) (\<lambda>write_index.
                    rbind (rd_obj32 le mem (q + 12)) (\<lambda>capacity.
                      if capacity = 0 then Inl Division_by_zero
                      else
                        rbind (wr_obj32 le mem (q + 8) ((write_index + 1) mod capacity)) (\<lambda>mem.
                        rbind (rd_obj32 le mem q) (\<lambda>count.
                        rbind (wr_obj32 le mem q (count + 1)) (\<lambda>mem.
                          Inr (True, st\<lparr>sa_data := Some mem\<rparr>,
                            [Shm_lock, Shm_unlock, Shm_notify])))))))))))))"

text \<open>The payloads of the commands.\<close>

definition register_payload :: "service_config \<Rightarrow> bytes" where
  "register_payload config =
     bytes16 (sc_service_id config) @ bytes16 (sc_instance_id config) @
     [sc_major_version config] @ bytes32 (sc_minor_version config) @
     bytes32 (of_int (sc_ttl config)) @ bytes32 0"

definition service_payload :: "u16 \<Rightarrow> u16 \<Rightarrow> bytes" where
  "service_payload service instance = bytes16 service @ bytes16 instance"

definition subscribe_payload :: "u16 \<Rightarrow> u16 \<Rightarrow> u16 \<Rightarrow> u8 \<Rightarrow> bytes" where
  "subscribe_payload service instance eventgroup major =
     bytes16 service @ bytes16 instance @ bytes16 eventgroup @ [major] @ bytes32 0"

definition eventgroup_payload :: "u16 \<Rightarrow> u16 \<Rightarrow> u16 \<Rightarrow> bytes" where
  "eventgroup_payload service instance eventgroup =
     bytes16 service @ bytes16 instance @ bytes16 eventgroup"

definition heartbeat_payload :: "u32 \<Rightarrow> bytes" where
  "heartbeat_payload client = bytes32 client @ [0, 0, 0, 0]"

definition send_register_service ::
    "bool \<Rightarrow> bool \<Rightarrow> service_config \<Rightarrow> shm_agent \<Rightarrow> fault + bool \<times> shm_agent \<times> shm_action list" where
  "send_register_service le locked config =
     send_command le locked REGISTER_SERVICE (register_payload config)"

definition send_unregister_service ::
    "bool \<Rightarrow> bool \<Rightarrow> u16 \<Rightarrow> u16 \<Rightarrow> shm_agent \<Rightarrow> fault + bool \<times> shm_agent \<times> shm_action list" where
  "send_unregister_service le locked service instance =
     send_command le locked UNREGISTER_SERVICE (service_payload service instance)"

definition send_find_service_command ::
    "bool \<Rightarrow> bool \<Rightarrow> u16 \<Rightarrow> u16 \<Rightarrow> shm_agent \<Rightarrow> fault + bool \<times> shm_agent \<times> shm_action list" where
  "send_find_service_command le locked service instance =
     send_command le locked CMD_FIND_SERVICE (service_payload service instance)"

definition send_subscribe ::
    "bool \<Rightarrow> bool \<Rightarrow> u16 \<Rightarrow> u16 \<Rightarrow> u16 \<Rightarrow> u8 \<Rightarrow> shm_agent \<Rightarrow>
     fault + bool \<times> shm_agent \<times> shm_action list" where
  "send_subscribe le locked service instance eventgroup major =
     send_command le locked SUBSCRIBE (subscribe_payload service instance eventgroup major)"

definition send_unsubscribe ::
    "bool \<Rightarrow> bool \<Rightarrow> u16 \<Rightarrow> u16 \<Rightarrow> u16 \<Rightarrow> shm_agent \<Rightarrow>
     fault + bool \<times> shm_agent \<times> shm_action list" where
  "send_unsubscribe le locked service instance eventgroup =
     send_command le locked UNSUBSCRIBE (eventgroup_payload service instance eventgroup)"

definition send_heartbeat ::
    "bool \<Rightarrow> bool \<Rightarrow> u32 \<Rightarrow> shm_agent \<Rightarrow> fault + bool \<times> shm_agent \<times> shm_action list" where
  "send_heartbeat le locked client =
     send_command le locked HEARTBEAT (heartbeat_payload client)"

section \<open>Responses\<close>

definition RESPONSE_SLOT :: u32 where
  "RESPONSE_SLOT = 4 + 1 + 4 + 256"

definition RESPONSE_BUFFER :: nat where
  "RESPONSE_BUFFER = 285"

definition handle_response :: "shm_agent \<Rightarrow> route_response_type \<Rightarrow> bytes \<Rightarrow> fault + shm_action list" where
  "handle_response st type payload =
     (case type of
        SERVICE_AVAILABLE \<Rightarrow>
          if 4 \<le> length payload then
            rbind (rd16 payload 0) (\<lambda>svc. rbind (rd16 payload 2) (\<lambda>inst.
              Inr (case sa_availability_handler st of
                     None \<Rightarrow> [] | Some h \<Rightarrow> [Availability h svc inst True])))
          else Inr []
      | SERVICE_UNAVAILABLE \<Rightarrow>
          if 4 \<le> length payload then
            rbind (rd16 payload 0) (\<lambda>svc. rbind (rd16 payload 2) (\<lambda>inst.
              Inr (case sa_availability_handler st of
                     None \<Rightarrow> [] | Some h \<Rightarrow> [Availability h svc inst False])))
          else Inr []
      | SUBSCRIPTION_ACK \<Rightarrow>
          (case sa_subscription_handler st of
             None \<Rightarrow> Inr []
           | Some h \<Rightarrow>
               if 7 \<le> length payload then
                 rbind (rd16 payload 0) (\<lambda>svc. rbind (rd16 payload 2) (\<lambda>inst.
                 rbind (rd16 payload 4) (\<lambda>eg. Inr [Subscription h svc inst eg])))
               else Inr [])
      | SUBSCRIPTION_NACK \<Rightarrow>
          (case sa_subscription_handler st of
             None \<Rightarrow> Inr []
           | Some h \<Rightarrow>
               if 7 \<le> length payload then
                 rbind (rd16 payload 0) (\<lambda>svc. rbind (rd16 payload 2) (\<lambda>inst.
                 rbind (rd16 payload 4) (\<lambda>eg. Inr [Subscription h svc inst eg])))
               else Inr [])
      | _ \<Rightarrow> Inr [])"

text \<open>One turn of the loop: the response at the read index, taken off the queue and handled.\<close>

definition process_one ::
    "bool \<Rightarrow> nat \<Rightarrow> shm_agent \<Rightarrow> bytes \<Rightarrow> fault + bytes \<times> shm_action list" where
  "process_one le q st mem =
     rbind (rd_obj32 le mem (q + 4)) (\<lambda>read_index.
     let offset = unat (read_index * RESPONSE_SLOT) in
     rbind (rd_slice mem (q + QUEUE_HEADER + offset) RESPONSE_BUFFER) (\<lambda>response.
     rbind (rd32 response 0) (\<lambda>seq.
     rbind (rd response 4) (\<lambda>type.
     rbind (rd32 response 5) (\<lambda>payload_len.
     rbind (rd_slice response 9 (unat payload_len)) (\<lambda>payload.
     rbind (rd_obj32 le mem (q + 12)) (\<lambda>capacity.
       if capacity = 0 then Inl Division_by_zero
       else
         rbind (wr_obj32 le mem (q + 4) ((read_index + 1) mod capacity)) (\<lambda>mem.
         rbind (rd_obj32 le mem q) (\<lambda>count.
         rbind (wr_obj32 le mem q (count - 1)) (\<lambda>mem.
         rbind (handle_response st (response_of_byte type) payload) (\<lambda>actions.
           Inr (mem, actions))))))))))))"

text \<open>A number written to memory is read back, also around another write.\<close>

lemma wr_length: "wr mem i bs = Inr mem' \<Longrightarrow> length mem' = length mem"
  by (auto simp: wr_def split: if_splits)

lemma rd_wr_same:
  "wr mem i bs = Inr mem' \<Longrightarrow> j < length bs \<Longrightarrow> rd mem' (i + j) = Inr (bs ! j)"
  by (auto simp: wr_def rd_def nth_append split: if_splits)

lemma rd_wr_other:
  "wr mem i bs = Inr mem' \<Longrightarrow> j < i \<or> i + length bs \<le> j \<Longrightarrow> rd mem' j = rd mem j"
  by (auto simp: wr_def rd_def nth_append split: if_splits)

lemma object_bytes32_of [wire]:
  "of_object32 le (object_bytes32 le v ! 0) (object_bytes32 le v ! 1) (object_bytes32 le v ! 2)
     (object_bytes32 le v ! 3) = v"
  by (simp add: of_object32_def object_bytes32_def bytes32_def be32_split)

lemma length_object_bytes32 [simp]: "length (object_bytes32 le v) = 4"
  by (simp add: object_bytes32_def)

lemma rd_obj32_wr_same: "wr_obj32 le mem i v = Inr mem' \<Longrightarrow> rd_obj32 le mem' i = Inr v"
  using rd_wr_same [of mem i "object_bytes32 le v" mem' 0]
    rd_wr_same [of mem i "object_bytes32 le v" mem' 1]
    rd_wr_same [of mem i "object_bytes32 le v" mem' 2]
    rd_wr_same [of mem i "object_bytes32 le v" mem' 3]
  by (simp add: wr_obj32_def rd_obj32_def object_bytes32_of [unfolded One_nat_def])

lemma rd_obj32_wr_other:
  "wr mem i bs = Inr mem' \<Longrightarrow> j + 4 \<le> i \<or> i + length bs \<le> j \<Longrightarrow>
     rd_obj32 le mem' j = rd_obj32 le mem j"
proof -
  assume w: "wr mem i bs = Inr mem'" and j: "j + 4 \<le> i \<or> i + length bs \<le> j"
  have "rd mem' (j + k) = rd mem (j + k)" if "k < 4" for k
    using j that by (intro rd_wr_other [OF w]) auto
  from this [of 0] this [of 1] this [of 2] this [of 3] show ?thesis
    by (simp add: rd_obj32_def)
qed

lemma rd_obj32_wr_obj32_other:
  "wr_obj32 le mem i v = Inr mem' \<Longrightarrow> j + 4 \<le> i \<or> i + 4 \<le> j \<Longrightarrow>
     rd_obj32 le mem' j = rd_obj32 le mem j"
  unfolding wr_obj32_def by (rule rd_obj32_wr_other) auto

lemma process_one_count:
  assumes "rd_obj32 le mem q = Inr count" and "process_one le q st mem = Inr (mem', actions)"
  shows "rd_obj32 le mem' q = Inr (count - 1)"
proof -
  obtain v m1 c where m1: "wr_obj32 le mem (q + 4) v = Inr m1"
    and c: "rd_obj32 le m1 q = Inr c" and m2: "wr_obj32 le m1 q (c - 1) = Inr mem'"
    using assms(2)
    by (auto simp: process_one_def Let_def rbind_Inr_iff split: if_splits)
  have "c = count" using rd_obj32_wr_obj32_other [OF m1, of q] c assms(1) by simp
  then show ?thesis using rd_obj32_wr_same [OF m2] by simp
qed

text \<open>The loop runs until the count in memory, which every turn decrements, is zero.\<close>

definition queue_count :: "bool \<Rightarrow> nat \<Rightarrow> bytes \<Rightarrow> nat" where
  "queue_count le q mem = (case rd_obj32 le mem q of Inl e \<Rightarrow> 0 | Inr c \<Rightarrow> unat c)"

function process_loop ::
    "bool \<Rightarrow> nat \<Rightarrow> shm_agent \<Rightarrow> bytes \<Rightarrow> fault + bytes \<times> shm_action list" where
  "process_loop le q st mem =
     (case rd_obj32 le mem q of
        Inl e \<Rightarrow> Inl e
      | Inr count \<Rightarrow>
          if 0 < count then
            (case process_one le q st mem of
               Inl e \<Rightarrow> Inl e
             | Inr (mem, actions) \<Rightarrow>
                 (case process_loop le q st mem of
                    Inl e \<Rightarrow> Inl e
                  | Inr (mem, actions') \<Rightarrow> Inr (mem, actions @ actions')))
          else Inr (mem, []))"
  by pat_completeness auto
termination
proof (relation "measure (\<lambda>(le, q, st, mem). queue_count le q mem)", goal_cases)
  case (2 le q st mem count r mem' actions)
  then have "rd_obj32 le mem' q = Inr (count - 1)" by (auto intro: process_one_count)
  moreover have "unat (count - 1) < unat count"
    using 2(2) by (simp add: word_neq_0_conv unat_minus_one word_less_nat_alt)
  ultimately show ?case using 2 by (simp add: queue_count_def)
qed simp

declare process_loop.simps [simp del]

definition process_responses ::
    "bool \<Rightarrow> bool \<Rightarrow> shm_agent \<Rightarrow> fault + shm_agent \<times> shm_action list" where
  "process_responses le locked st =
     (case sa_data st of
        None \<Rightarrow> Inr (st, [])
      | Some mem \<Rightarrow>
          if \<not> sa_connected st then Inr (st, [])
          else if \<not> locked then Inr (st, [])
          else
            rbind (rd_obj32 le mem 24) (\<lambda>rsp_queue_offset.
            rbind (rd_obj32 le mem 28) (\<lambda>rsp_queue_size.
            rbind (process_loop le (unat rsp_queue_offset) st mem) (\<lambda>(mem, actions).
              Inr (st\<lparr>sa_data := Some mem\<rparr>, [Shm_lock] @ actions @ [Shm_unlock])))))"

text \<open>A turn of \<open>worker_thread\<close>, where \<open>signalled\<close> says how \<open>shm_wait\<close> ended.\<close>

definition shm_worker_turn ::
    "bool \<Rightarrow> bool \<Rightarrow> bool \<Rightarrow> shm_agent \<Rightarrow> fault + shm_agent \<times> shm_action list" where
  "shm_worker_turn le signalled locked st =
     (if \<not> sa_running st then Inr (st, [])
      else if signalled then
        rbind (process_responses le locked st) (\<lambda>(st, actions). Inr (st, Shm_consume # actions))
      else Inr (st, []))"

definition deserialize_header :: "bytes \<Rightarrow> fault + response_header option" where
  "deserialize_header data =
     (if length data < 9 then Inr None
      else
        rbind (rd32 data 0) (\<lambda>seq. rbind (rd data 4) (\<lambda>type. rbind (rd32 data 5) (\<lambda>len.
          Inr (Some \<lparr>rh_sequence = seq, rh_type = response_of_byte type,
            rh_payload_length = len\<rparr>)))))"

section \<open>Lookups\<close>

text \<open>
  The service registry: \<open>base\<close> is the address of \<open>sr_data\<close>, offsets count from there. Every turn
  of the loops reads memory at the offset, so offsets stay within the memory and the sums do
  not wrap around; the difference in \<open>max_offset\<close> does for a size below 4.
\<close>

text \<open>The endpoints of an entry, as far as they fit.\<close>

fun endpoint_loop :: "bytes \<Rightarrow> nat \<Rightarrow> nat \<Rightarrow> nat \<Rightarrow> nat \<Rightarrow> fault + endpoint list" where
  "endpoint_loop mem base max_offset 0 offset = Inr []"
| "endpoint_loop mem base max_offset (Suc n) offset =
     (if \<not> offset < max_offset then Inr []
      else if max_offset < offset + 1 then Inr []
      else
        rbind (rd mem (base + offset)) (\<lambda>len.
        let addr_len = unat len; offset = offset + 1 in
        if max_offset < offset + addr_len + 3 then Inr []
        else
          rbind (rd_slice mem (base + offset) addr_len) (\<lambda>address.
          rbind (rd16 mem (base + offset + addr_len)) (\<lambda>port.
          rbind (rd mem (base + offset + addr_len + 2)) (\<lambda>protocol.
          rbind (endpoint_loop mem base max_offset n (offset + addr_len + 3)) (\<lambda>result.
            Inr (\<lparr>ep_address = string_of_bytes address, ep_port = port,
              ep_protocol = ip_of_byte protocol\<rparr> # result)))))))"

text \<open>The offset after the endpoints of an entry that is passed over.\<close>

fun skip_loop :: "bytes \<Rightarrow> nat \<Rightarrow> nat \<Rightarrow> nat \<Rightarrow> nat \<Rightarrow> fault + nat" where
  "skip_loop mem base max_offset 0 offset = Inr offset"
| "skip_loop mem base max_offset (Suc n) offset =
     (if \<not> offset < max_offset then Inr offset
      else if max_offset < offset + 1 then Inr offset
      else
        rbind (rd mem (base + offset)) (\<lambda>len.
          skip_loop mem base max_offset n (offset + 1 + unat len + 3)))"

fun registry_loop ::
    "bytes \<Rightarrow> nat \<Rightarrow> nat \<Rightarrow> u16 \<Rightarrow> u16 \<Rightarrow> nat \<Rightarrow> nat \<Rightarrow> fault + endpoint list" where
  "registry_loop mem base max_offset service instance 0 offset = Inr []"
| "registry_loop mem base max_offset service instance (Suc n) offset =
     (if \<not> offset < max_offset then Inr []
      else if max_offset < offset + 16 then Inr []
      else
        rbind (rd16 mem (base + offset)) (\<lambda>svc_id.
        rbind (rd16 mem (base + offset + 2)) (\<lambda>inst_id.
        rbind (rd32 mem (base + offset + 4 + 1 + 4 + 4 + 1)) (\<lambda>ep_count.
        let offset = offset + 18 in
        if svc_id = service \<and> inst_id = instance then
          endpoint_loop mem base max_offset (unat ep_count) offset
        else
          rbind (skip_loop mem base max_offset (unat ep_count) offset)
            (registry_loop mem base max_offset service instance n)))))"

definition lookup_service_endpoints ::
    "bool \<Rightarrow> bool \<Rightarrow> u16 \<Rightarrow> u16 \<Rightarrow> shm_agent \<Rightarrow> fault + endpoint list \<times> shm_action list" where
  "lookup_service_endpoints le locked service instance st =
     (case sa_data st of
        None \<Rightarrow> Inr ([], [])
      | Some mem \<Rightarrow>
          if \<not> sa_connected st then Inr ([], [])
          else if \<not> locked then Inr ([], [])
          else
            rbind (rd_obj32 le mem 28) (\<lambda>sr_offset.
            rbind (rd_obj32 le mem 32) (\<lambda>sr_size.
            rbind (rd_obj32 le mem (unat sr_offset)) (\<lambda>count.
            rbind (registry_loop mem (unat sr_offset + 4) (size_sub (unat sr_size) 4)
                service instance (unat count) 0) (\<lambda>result.
              Inr (result, [Shm_lock, Shm_unlock]))))))"

text \<open>
  \<open>lookup_subscribers\<close> up to the wait: the sequence number it has noted the request under, if it
  waits at all. The command itself takes the next number.
\<close>

definition lookup_subscribers_send ::
    "bool \<Rightarrow> bool \<Rightarrow> u16 \<Rightarrow> u16 \<Rightarrow> u16 \<Rightarrow> shm_agent \<Rightarrow>
     fault + u32 option \<times> shm_agent \<times> shm_action list" where
  "lookup_subscribers_send le locked service instance eventgroup st =
     (if \<not> sa_connected st \<or> sa_data st = None then Inr (None, st, [])
      else
        let seq = sa_sequence st;
            st = st\<lparr>sa_sequence := seq + 1,
              sa_pending_requests := om_put seq LOOKUP_SUBSCRIBERS (sa_pending_requests st)\<rparr> in
        rbind (send_command le locked LOOKUP_SUBSCRIBERS
            (eventgroup_payload service instance eventgroup) st) (\<lambda>(sent, st, actions).
          if \<not> sent
          then Inr (None, st\<lparr>sa_pending_requests := om_del seq (sa_pending_requests st)\<rparr>, actions)
          else Inr (Some seq, st, actions)))"

text \<open>The endpoints of a lookup result.\<close>

fun result_loop :: "bytes \<Rightarrow> nat \<Rightarrow> nat \<Rightarrow> fault + endpoint list" where
  "result_loop data 0 offset = Inr []"
| "result_loop data (Suc n) offset =
     (if \<not> offset + 4 \<le> length data then Inr []
      else if length data < offset + 1 then Inr []
      else
        rbind (rd data offset) (\<lambda>len.
        let addr_len = unat len; offset = offset + 1 in
        if length data < offset + addr_len + 3 then Inr []
        else
          rbind (rd_slice data offset addr_len) (\<lambda>address.
          rbind (rd16 data (offset + addr_len)) (\<lambda>port.
          rbind (rd data (offset + addr_len + 2)) (\<lambda>protocol.
          rbind (result_loop data n (offset + addr_len + 3)) (\<lambda>result.
            Inr (\<lparr>ep_address = string_of_bytes address, ep_port = port,
              ep_protocol = ip_of_byte protocol\<rparr> # result)))))))"

definition parse_lookup_result :: "bytes \<Rightarrow> fault + endpoint list" where
  "parse_lookup_result data =
     (if length data < 4 then Inr []
      else
        rbind (rd data 0) (\<lambda>type.
          if response_of_byte type = LOOKUP_RESULT \<and> 6 \<le> length data then
            rbind (rd32 data 1) (\<lambda>ep_count. result_loop data (unat ep_count) 5)
          else Inr []))"

text \<open>
  The wait and what follows it, in the state at its end: the wait ends when the response queue is
  not empty, or after its time.
\<close>

definition lookup_subscribers_wait ::
    "u32 \<Rightarrow> shm_agent \<Rightarrow> fault + endpoint list \<times> shm_agent" where
  "lookup_subscribers_wait seq st =
     (case sa_response_queue st of
        data # queue \<Rightarrow>
          rbind (parse_lookup_result data) (\<lambda>result. Inr (result, st\<lparr>sa_response_queue := queue\<rparr>))
      | [] \<Rightarrow>
          Inr ([], st\<lparr>sa_pending_requests := om_del seq (sa_pending_requests st)\<rparr>))"

section \<open>Runs\<close>

text \<open>
  Any interleaving of the operations with the worker thread and with the other processes, which
  change the memory. A lookup is two steps, and the environment may act between them.
\<close>

inductive shm_step :: "bool \<Rightarrow> shm_agent \<Rightarrow> shm_agent \<Rightarrow> bool" for le where
  Connect: "shm_connect attached st = (ok, st') \<Longrightarrow> shm_step le st st'"
| Disconnect: "shm_disconnect st = (st', actions) \<Longrightarrow> shm_step le st st'"
| Command: "send_command le locked type payload st = Inr (ok, st', actions) \<Longrightarrow> shm_step le st st'"
| Worker: "shm_worker_turn le signalled locked st = Inr (st', actions) \<Longrightarrow> shm_step le st st'"
| Lookup_send: "lookup_subscribers_send le locked service instance eventgroup st =
    Inr (r, st', actions) \<Longrightarrow> shm_step le st st'"
| Lookup_wait: "lookup_subscribers_wait seq st = Inr (r, st') \<Longrightarrow> shm_step le st st'"
| Set_client_id: "shm_step le st (set_client_id c st)"
| Set_available: "shm_step le st (set_shm_available_handler h st)"
| Set_ack: "shm_step le st (set_subscription_ack_handler h st)"
| Environment: "sa_data st = Some mem \<Longrightarrow> length mem' = length mem \<Longrightarrow>
    shm_step le st (st\<lparr>sa_data := Some mem'\<rparr>)"

inductive_cases shm_stepE: "shm_step le st st'"

inductive shm_reachable :: "bool \<Rightarrow> shm_agent \<Rightarrow> bool" for le where
  Start: "shm_reachable le ShmAgent"
| Step: "shm_reachable le st \<Longrightarrow> shm_step le st st' \<Longrightarrow> shm_reachable le st'"

end
