(* ===== verification/ShmQueues.thy ===== *)
theory ShmQueues
  imports ShmAgent
begin

text \<open>
  The rings of \<open>ShmAgent\<close> as bounded queues of slots: what the writes do to the memory around
  them, appending at the write end and taking at the read end, and with them what
  \<open>send_command\<close>, \<open>process_responses\<close> and \<open>lookup_subscribers\<close> do.
\<close>

section \<open>Memory lemmas\<close>

text \<open>Unchecked views of the memory, for the statements about memory that is large enough.\<close>

definition obj32 :: "bool \<Rightarrow> bytes \<Rightarrow> nat \<Rightarrow> u32" where
  "obj32 le mem i = of_object32 le (mem ! i) (mem ! (i + 1)) (mem ! (i + 2)) (mem ! (i + 3))"

definition splice :: "bytes \<Rightarrow> nat \<Rightarrow> bytes \<Rightarrow> bytes" where
  "splice mem i bs = take i mem @ bs @ drop (i + length bs) mem"

definition region :: "nat \<Rightarrow> nat \<Rightarrow> bytes \<Rightarrow> bytes" where
  "region i n mem = take n (drop i mem)"

lemma rd_obj32_ok: "i + 3 < length mem \<Longrightarrow> rd_obj32 le mem i = Inr (obj32 le mem i)"
  by (simp add: rd_obj32_def rd_ok obj32_def)

lemma wr_ok: "i + length bs \<le> length mem \<Longrightarrow> wr mem i bs = Inr (splice mem i bs)"
  by (simp add: wr_def splice_def)

lemma wr_obj32_ok:
  "i + 3 < length mem \<Longrightarrow> wr_obj32 le mem i v = Inr (splice mem i (object_bytes32 le v))"
  by (simp add: wr_obj32_def wr_ok)

lemma length_splice [simp]: "i + length bs \<le> length mem \<Longrightarrow> length (splice mem i bs) = length mem"
  by (simp add: splice_def)

lemma splice_splice:
  "i + length a + length b \<le> length mem \<Longrightarrow> j = i + length a \<Longrightarrow>
     splice (splice mem i a) j b = splice mem i (a @ b)"
  by (simp add: splice_def add.assoc) (simp add: ac_simps)

lemma splice_Nil [simp]: "i \<le> length mem \<Longrightarrow> splice mem i [] = mem"
  by (simp add: splice_def)

lemma nth_splice:
  "i + length bs \<le> length mem \<Longrightarrow> k < length mem \<Longrightarrow>
     splice mem i bs ! k = (if i \<le> k \<and> k < i + length bs then bs ! (k - i) else mem ! k)"
  by (auto simp: splice_def nth_append)

lemma obj32_same:
  "i + 3 < length mem \<Longrightarrow> obj32 le (splice mem i (object_bytes32 le v)) i = v"
  using object_bytes32_of [of le v] by (simp add: obj32_def nth_splice)

lemma obj32_other:
  assumes "i + length bs \<le> length mem" and "j + 3 < length mem"
    and "j + 4 \<le> i \<or> i + length bs \<le> j"
  shows "obj32 le (splice mem i bs) j = obj32 le mem j"
proof -
  have "splice mem i bs ! (j + k) = mem ! (j + k)" if "k < 4" for k
    using assms that by (auto simp: nth_splice)
  from this [of 0] this [of 1] this [of 2] this [of 3] show ?thesis
    by (simp add: obj32_def)
qed

lemma length_region: "i + n \<le> length mem \<Longrightarrow> length (region i n mem) = n"
  by (simp add: region_def)

lemma region_other:
  assumes "i + length bs \<le> length mem" and "j + n \<le> length mem"
    and "j + n \<le> i \<or> i + length bs \<le> j"
  shows "region j n (splice mem i bs) = region j n mem"
proof (rule nth_equalityI)
  show "length (region j n (splice mem i bs)) = length (region j n mem)"
    using assms by (simp add: length_region)
next
  fix k assume "k < length (region j n (splice mem i bs))"
  then have k: "k < n" using assms by (simp add: length_region)
  then have "splice mem i bs ! (j + k) = mem ! (j + k)"
    using assms by (auto simp: nth_splice)
  then show "region j n (splice mem i bs) ! k = region j n mem ! k"
    using assms k by (simp add: region_def)
qed

lemma region_splice:
  "i + length bs \<le> length mem \<Longrightarrow> m \<le> length bs \<Longrightarrow> region i m (splice mem i bs) = take m bs"
  by (simp add: region_def splice_def)

lemma take_region: "m \<le> n \<Longrightarrow> take m (region i n mem) = region i m mem"
  by (simp add: region_def min_absorb1)

lemma rd_slice_region: "i + n \<le> length mem \<Longrightarrow> rd_slice mem i n = Inr (region i n mem)"
  by (simp add: rd_slice_ok region_def)

section \<open>The queues\<close>

text \<open>
  What both queues are: a ring of \<open>capacity\<close> slots of \<open>sz\<close> bytes after a header of four words,
  with the occupied slots from the read index on.
\<close>

definition queue_ok :: "bool \<Rightarrow> nat \<Rightarrow> nat \<Rightarrow> bytes \<Rightarrow> bool" where
  "queue_ok le sz q mem \<longleftrightarrow>
     (let count = unat (obj32 le mem q); ri = unat (obj32 le mem (q + 4));
          wi = unat (obj32 le mem (q + 8)); capacity = unat (obj32 le mem (q + 12))
      in q + 16 + capacity * sz \<le> length mem \<and> capacity * sz < 2 ^ 32 \<and>
         count \<le> capacity \<and> ri < capacity \<and> wi = (ri + count) mod capacity)"

definition queue_slots :: "bool \<Rightarrow> nat \<Rightarrow> nat \<Rightarrow> bytes \<Rightarrow> bytes list" where
  "queue_slots le sz q mem =
     (let count = unat (obj32 le mem q); ri = unat (obj32 le mem (q + 4));
          capacity = unat (obj32 le mem (q + 12))
      in map (\<lambda>k. region (q + 16 + (ri + k) mod capacity * sz) sz mem) [0..<count])"

definition queue_capacity :: "bool \<Rightarrow> nat \<Rightarrow> bytes \<Rightarrow> nat" where
  "queue_capacity le q mem = unat (obj32 le mem (q + 12))"

lemma unat_next_index:
  assumes "w < (capacity :: u32)"
  shows "unat ((w + 1) mod capacity) = (unat w + 1) mod unat capacity"
proof -
  have "unat w < 2 ^ 32 - 1"
    using assms unat_u32_less [of capacity] by (simp add: word_less_nat_alt)
  then have "unat (w + 1) = unat w + 1" by (simp add: unat_word_ariths)
  then show ?thesis by (simp add: unat_mod)
qed

lemma unat_slot_offset:
  assumes "unat w * unat s < 2 ^ 32"
  shows "unat (w * (s :: u32)) = unat w * unat s"
  using assms by (simp add: unat_word_ariths)

text \<open>The ring arithmetic: the slot at the write index is none of the occupied ones.\<close>

lemma ring_free:
  assumes "(count :: nat) < capacity" and "k < count"
  shows "(ri + k) mod capacity \<noteq> (ri + count) mod capacity"
proof
  assume "(ri + k) mod capacity = (ri + count) mod capacity"
  then have "(count - k) mod capacity = 0"
    using assms by (metis (no_types) add_diff_cancel_left' diff_diff_left less_imp_le
        mod_eq_dvd_iff_nat dvd_imp_mod_0 add_le_cancel_left diff_add_inverse)
  then show False using assms by simp
qed

text \<open>The layout of a command in its slot.\<close>

definition command_bytes :: "u32 \<Rightarrow> u32 \<Rightarrow> route_command_type \<Rightarrow> bytes \<Rightarrow> bytes" where
  "command_bytes seq client type payload =
     bytes32 seq @ bytes16 (ucast client) @ [command_byte type] @
     bytes32 (of_nat (length payload)) @ take 256 payload"

lemma write_command_eq:
  assumes "i + 267 \<le> length mem"
  shows "write_command seq client type payload mem i =
    Inr (splice mem i (command_bytes seq client type payload))"
proof -
  have len: "length (take 256 payload) \<le> 256" by simp
  have fit: "i + 11 + length (take 256 payload) \<le> length mem" using assms len by linarith
  let ?h = "bytes32 seq @ bytes16 (ucast client) @ [command_byte type] @
    bytes32 (of_nat (length payload))"
  have "write_command seq client type payload mem i =
      (if payload \<noteq> [] then wr (splice mem i ?h) (i + 11) (take 256 payload)
       else Inr (splice mem i ?h))"
    using assms by (simp add: write_command_def wr_ok splice_splice)
  also have "\<dots> = Inr (splice mem i (?h @ take 256 payload))"
    using assms fit by (auto simp: wr_ok splice_splice)
  finally show ?thesis by (simp add: command_bytes_def)
qed

lemma length_command_bytes:
  "length (command_bytes seq client type payload) = 11 + min (length payload) 256"
  by (simp add: command_bytes_def)

text \<open>Taking a slot at the write end: what is stored into it, and the two header words.\<close>

definition push_slot :: "bool \<Rightarrow> nat \<Rightarrow> nat \<Rightarrow> bytes \<Rightarrow> bytes \<Rightarrow> bytes" where
  "push_slot le sz q bs mem =
     (let wi = obj32 le mem (q + 8) in
      splice (splice (splice mem (q + 16 + unat wi * sz) bs)
        (q + 8) (object_bytes32 le ((wi + 1) mod obj32 le mem (q + 12))))
        q (object_bytes32 le (obj32 le mem q + 1)))"

definition pop_slot :: "bool \<Rightarrow> nat \<Rightarrow> bytes \<Rightarrow> bytes" where
  "pop_slot le q mem =
     splice (splice mem (q + 4) (object_bytes32 le
        ((obj32 le mem (q + 4) + 1) mod obj32 le mem (q + 12))))
        q (object_bytes32 le (obj32 le mem q - 1))"

lemma slot_fits: "i < capacity \<Longrightarrow> i * sz + sz \<le> capacity * (sz :: nat)"
  using mult_le_mono1 [of "Suc i" capacity sz] by simp

lemma queue_ok_write_index:
  assumes "queue_ok le sz q mem"
  shows "unat (obj32 le mem (q + 8)) < unat (obj32 le mem (q + 12))"
  using assms by (auto simp: queue_ok_def Let_def)

text \<open>Where the slot at the write index lies.\<close>

lemma push_fits:
  assumes "queue_ok le sz q mem" and "length bs \<le> sz"
  shows "q + 16 + unat (obj32 le mem (q + 8)) * sz + length bs \<le> length mem" "q + 16 \<le> length mem"
  using slot_fits [OF queue_ok_write_index [OF assms(1)], of sz] assms
  by (auto simp: queue_ok_def Let_def)

lemma push_slot_words:
  assumes "queue_ok le sz q mem" and "length bs \<le> sz"
  defines "m \<equiv> push_slot le sz q bs mem"
  shows "length m = length mem" "obj32 le m q = obj32 le mem q + 1"
    "obj32 le m (q + 4) = obj32 le mem (q + 4)"
    "obj32 le m (q + 8) = (obj32 le mem (q + 8) + 1) mod obj32 le mem (q + 12)"
    "obj32 le m (q + 12) = obj32 le mem (q + 12)"
    "j + 4 \<le> q \<Longrightarrow> obj32 le m j = obj32 le mem j"
  using push_fits [OF assms(1,2)] unfolding m_def
  by (simp_all add: push_slot_def Let_def obj32_same obj32_other)

lemma push_slot_regions:
  assumes "queue_ok le sz q mem" and "length bs \<le> sz"
    and "i < unat (obj32 le mem (q + 12))"
  shows "i \<noteq> unat (obj32 le mem (q + 8)) \<Longrightarrow>
      region (q + 16 + i * sz) sz (push_slot le sz q bs mem) = region (q + 16 + i * sz) sz mem"
    and "i = unat (obj32 le mem (q + 8)) \<Longrightarrow>
      region (q + 16 + i * sz) (length bs) (push_slot le sz q bs mem) = bs"
proof -
  let ?w = "unat (obj32 le mem (q + 8))"
  have fit: "q + 16 + i * sz + sz \<le> length mem"
    using slot_fits [OF assms(3), of sz] assms(1) by (auto simp: queue_ok_def Let_def)
  have apart: "i * sz + sz \<le> ?w * sz \<or> ?w * sz + sz \<le> i * sz" if "i \<noteq> ?w"
    using slot_fits [of i ?w sz] slot_fits [of ?w i sz] that by linarith
  show "region (q + 16 + i * sz) sz (push_slot le sz q bs mem) = region (q + 16 + i * sz) sz mem"
    if "i \<noteq> ?w"
  proof -
    have "q + 16 + i * sz + sz \<le> q + 16 + ?w * sz \<or> q + 16 + ?w * sz + length bs \<le> q + 16 + i * sz"
      using apart [OF that] assms(2) by linarith
    then show ?thesis using push_fits [OF assms(1,2)] fit
      by (simp add: push_slot_def Let_def region_other)
  qed
  show "region (q + 16 + i * sz) (length bs) (push_slot le sz q bs mem) = bs" if "i = ?w"
    using that push_fits [OF assms(1,2)]
    by (simp add: push_slot_def Let_def region_other region_splice)
qed

lemma queue_push:
  assumes ok: "queue_ok le sz q mem" and len: "length bs \<le> sz"
    and room: "obj32 le mem q < obj32 le mem (q + 12)"
  shows "queue_ok le sz q (push_slot le sz q bs mem)"
    and "\<exists>slot. queue_slots le sz q (push_slot le sz q bs mem) = queue_slots le sz q mem @ [slot] \<and>
      length slot = sz \<and> take (length bs) slot = bs"
proof -
  let ?m = "push_slot le sz q bs mem"
  let ?cap = "unat (obj32 le mem (q + 12))"
  let ?count = "unat (obj32 le mem q)"
  let ?ri = "unat (obj32 le mem (q + 4))"
  note words = push_slot_words [OF ok len]
  have wi: "unat (obj32 le mem (q + 8)) = (?ri + ?count) mod ?cap" and ri: "?ri < ?cap"
    using ok by (auto simp: queue_ok_def Let_def)
  have room': "?count < ?cap" using room by (simp add: word_less_nat_alt)
  then have count: "unat (obj32 le ?m q) = Suc ?count"
    using unat_u32_less [of "obj32 le mem (q + 12)"] by (simp add: words unat_word_ariths)
  have wi': "unat (obj32 le ?m (q + 8)) = (?ri + Suc ?count) mod ?cap"
    using unat_next_index [of "obj32 le mem (q + 8)" "obj32 le mem (q + 12)"]
      queue_ok_write_index [OF ok]
    by (simp add: words wi word_less_nat_alt mod_Suc_eq)
  show "queue_ok le sz q ?m"
    using ok room'
    by (simp add: queue_ok_def Let_def words count [unfolded words] wi' [unfolded words])
  let ?slot = "region (q + 16 + (?ri + ?count) mod ?cap * sz) sz ?m"
  have same: "region (q + 16 + (?ri + k) mod ?cap * sz) sz ?m =
      region (q + 16 + (?ri + k) mod ?cap * sz) sz mem" if "k < ?count" for k
    using push_slot_regions(1) [OF ok len, of "(?ri + k) mod ?cap"] ring_free [OF room' that, of ?ri]
      ri by (simp add: wi)
  have "queue_slots le sz q ?m = queue_slots le sz q mem @ [?slot]"
    by (simp add: queue_slots_def Let_def words count [unfolded words] same)
  moreover have "length ?slot = sz"
  proof (rule length_region)
    have "q + 16 + ?cap * sz \<le> length mem" using ok by (simp add: queue_ok_def Let_def)
    then show "q + 16 + (?ri + ?count) mod ?cap * sz + sz \<le> length ?m"
      using slot_fits [of "(?ri + ?count) mod ?cap" ?cap sz] ri words(1) by simp
  qed
  moreover have "take (length bs) ?slot = bs"
    unfolding take_region [OF len]
    by (rule push_slot_regions(2) [OF ok len]) (use ri wi in simp_all)
  ultimately show "\<exists>slot. queue_slots le sz q ?m = queue_slots le sz q mem @ [slot] \<and>
      length slot = sz \<and> take (length bs) slot = bs" by blast
qed

text \<open>Taking the slot at the read end.\<close>

lemma pop_slot_words:
  fixes le
  assumes "q + 16 \<le> length mem"
  defines "m \<equiv> pop_slot le q mem"
  shows "length m = length mem" "obj32 le m q = obj32 le mem q - 1"
    "obj32 le m (q + 4) = (obj32 le mem (q + 4) + 1) mod obj32 le mem (q + 12)"
    "obj32 le m (q + 8) = obj32 le mem (q + 8)"
    "obj32 le m (q + 12) = obj32 le mem (q + 12)"
    "j + 4 \<le> q \<Longrightarrow> obj32 le m j = obj32 le mem j"
    "q + 16 \<le> i \<Longrightarrow> i + n \<le> length mem \<Longrightarrow> region i n m = region i n mem"
  using assms(1) unfolding m_def
  by (simp_all add: pop_slot_def obj32_same obj32_other region_other)

lemma queue_pop:
  assumes ok: "queue_ok le sz q mem" and ne: "0 < obj32 le mem q"
  shows "queue_ok le sz q (pop_slot le q mem)"
    and "queue_slots le sz q mem =
      region (q + 16 + unat (obj32 le mem (q + 4)) * sz) sz mem # queue_slots le sz q (pop_slot le q mem)"
proof -
  let ?m = "pop_slot le q mem"
  let ?cap = "unat (obj32 le mem (q + 12))"
  let ?ri = "unat (obj32 le mem (q + 4))"
  have room: "q + 16 + ?cap * sz \<le> length mem" and ri: "?ri < ?cap"
    using ok by (auto simp: queue_ok_def Let_def)
  then have q: "q + 16 \<le> length mem" by simp
  note words = pop_slot_words [OF q]
  obtain n where n: "unat (obj32 le mem q) = Suc n"
    using ne by (metis Suc_pred unat_gt_0 word_neq_0_conv)
  have count: "unat (obj32 le mem q - 1) = n"
    using ne n by (simp add: word_neq_0_conv unat_minus_one)
  have ri': "unat ((obj32 le mem (q + 4) + 1) mod obj32 le mem (q + 12)) = Suc ?ri mod ?cap"
    using unat_next_index [of "obj32 le mem (q + 4)" "obj32 le mem (q + 12)"] ri
    by (simp add: word_less_nat_alt)
  have shift: "(Suc ?ri mod ?cap + k) mod ?cap = (?ri + Suc k) mod ?cap" for k
    by (simp add: mod_simps)
  show "queue_ok le sz q ?m"
    using ok n ri by (simp add: queue_ok_def Let_def words count ri' shift)
  have same: "region (q + 16 + (?ri + Suc k) mod ?cap * sz) sz ?m =
      region (q + 16 + (?ri + Suc k) mod ?cap * sz) sz mem" for k
    using words(7) slot_fits [of "(?ri + Suc k) mod ?cap" ?cap sz] ri room by simp
  have "[0..<Suc n] = 0 # map Suc [0..<n]" by (simp add: upt_conv_Cons map_Suc_upt)
  then show "queue_slots le sz q mem = region (q + 16 + ?ri * sz) sz mem # queue_slots le sz q ?m"
    using ri same
    by (simp add: queue_slots_def Let_def n words count ri' shift comp_def del: upt_Suc)
qed

lemma length_queue_slots: "length (queue_slots le sz q mem) = unat (obj32 le mem q)"
  by (simp add: queue_slots_def Let_def)

lemma queue_nonempty: "queue_slots le sz q mem \<noteq> [] \<longleftrightarrow> 0 < obj32 le mem q"
  using length_queue_slots [of le sz q mem]
  by (metis length_greater_0_conv unat_gt_0 word_neq_0_conv)

lemma queue_room:
  "length (queue_slots le sz q mem) < queue_capacity le q mem \<longleftrightarrow>
     obj32 le mem q < obj32 le mem (q + 12)"
  by (simp add: length_queue_slots queue_capacity_def word_less_nat_alt)

text \<open>The rings are bounded queues; a value is stored at the beginning of a slot.\<close>

definition slot_holds :: "nat \<Rightarrow> bytes \<Rightarrow> bytes \<Rightarrow> bool" where
  "slot_holds sz bs slot \<longleftrightarrow> length slot = sz \<and> take (length bs) slot = bs"

interpretation ring: bounded_queue "queue_slots le sz q" "queue_capacity le q" "queue_ok le sz q"
  "push_slot le sz q" "pop_slot le q" "\<lambda>bs. length bs \<le> sz" "slot_holds sz" for le sz q
proof unfold_locales
  fix mem bs :: bytes
  assume ok: "queue_ok le sz q mem" and len: "length bs \<le> sz"
    and room: "length (queue_slots le sz q mem) < queue_capacity le q mem"
  note push = queue_push [OF ok len room [unfolded queue_room]]
  show "queue_ok le sz q (push_slot le sz q bs mem) \<and>
      queue_capacity le q (push_slot le sz q bs mem) = queue_capacity le q mem"
    using push(1) push_slot_words(5) [OF ok len] by (simp add: queue_capacity_def)
  show "\<exists>c. queue_slots le sz q (push_slot le sz q bs mem) = queue_slots le sz q mem @ [c] \<and>
      slot_holds sz bs c"
    using push(2) by (auto simp: slot_holds_def)
next
  fix mem :: bytes
  assume ok: "queue_ok le sz q mem" and ne: "queue_slots le sz q mem \<noteq> []"
  note pop = queue_pop [OF ok ne [unfolded queue_nonempty]]
  have "q + 16 \<le> length mem" using ok by (auto simp: queue_ok_def Let_def)
  then show "queue_ok le sz q (pop_slot le q mem) \<and>
      queue_capacity le q (pop_slot le q mem) = queue_capacity le q mem"
    using pop(1) pop_slot_words(5) by (simp add: queue_capacity_def)
  show "queue_slots le sz q (pop_slot le q mem) = tl (queue_slots le sz q mem)"
    using pop(2) by simp
qed

section \<open>Sending commands\<close>

text \<open>
  The command queue of the memory, at the offset the header gives; it lies behind the words of
  the header that \<open>send_command\<close> reads.
\<close>

definition command_queue :: "bool \<Rightarrow> bytes \<Rightarrow> nat" where
  "command_queue le mem = unat (obj32 le mem 16)"

definition command_queue_ok :: "bool \<Rightarrow> bytes \<Rightarrow> bool" where
  "command_queue_ok le mem \<longleftrightarrow>
     24 \<le> command_queue le mem \<and> queue_ok le 267 (command_queue le mem) mem"

definition commands :: "bool \<Rightarrow> bytes \<Rightarrow> bytes list" where
  "commands le mem = queue_slots le 267 (command_queue le mem) mem"

definition command_capacity :: "bool \<Rightarrow> bytes \<Rightarrow> nat" where
  "command_capacity le mem = queue_capacity le (command_queue le mem) mem"

lemma send_command_eq:
  assumes "sa_connected st" and "sa_data st = Some mem" and "command_queue_ok le mem"
  shows "send_command le True type payload st =
    (let q = command_queue le mem; seq = sa_sequence st in
     if obj32 le mem (q + 12) \<le> obj32 le mem q then Inr (False, st, [Shm_lock, Shm_unlock])
     else Inr (True, st\<lparr>sa_sequence := seq + 1, sa_data := Some (push_slot le 267 q
         (command_bytes seq (sa_client_id st) type payload) mem)\<rparr>,
       [Shm_lock, Shm_unlock, Shm_notify]))"
proof -
  let ?q = "command_queue le mem"
  let ?bs = "command_bytes (sa_sequence st) (sa_client_id st) type payload"
  let ?wi = "obj32 le mem (?q + 8)"
  have ok: "queue_ok le 267 ?q mem" and q: "24 \<le> ?q"
    using assms(3) by (auto simp: command_queue_ok_def)
  have len: "length ?bs \<le> 267" by (simp add: length_command_bytes)
  note fits = push_fits [OF ok len] push_fits(1) [OF ok, of "replicate 267 0"]
  have "unat ?wi * 267 < 2 ^ 32"
    using slot_fits [OF queue_ok_write_index [OF ok], of 267] ok
    by (auto simp: queue_ok_def Let_def)
  then have off: "unat (?wi * COMMAND_SLOT) = unat ?wi * 267"
    using unat_slot_offset [of ?wi 267] by (simp add: COMMAND_SLOT_def)
  have cap: "obj32 le mem (?q + 12) \<noteq> 0"
    using queue_ok_write_index [OF ok] by auto
  show ?thesis
    using assms(1,2) q fits cap
    by (simp add: send_command_def Let_def rd_obj32_ok wr_obj32_ok command_queue_def [symmetric]
        off QUEUE_HEADER_def write_command_eq obj32_other push_slot_def)
qed

text \<open> A sent command is appended to the command queue of the routing daemon. With the lock
  held and a well-formed ring in memory, \<open>send_command\<close> fails, changing nothing, exactly when the
  ring is full; otherwise the ring, read from its read index on, has one more slot at its end,
  which starts with the sequence number, the client id, the command and the length of the payload
  in network byte order and up to 256 bytes of the payload, the occupied slots are untouched
  (also when the write index wraps around), the ring stays well-formed, the sequence number is
  used up, and the daemon is notified after the lock is released. \<close>
theorem send_command_enqueues:
  assumes "sa_connected st" and "sa_data st = Some mem" and "command_queue_ok le mem"
  shows "\<exists>sent st' actions mem'.
    send_command le True type payload st = Inr (sent, st', actions) \<and>
    sa_data st' = Some mem' \<and>
    (sent \<longleftrightarrow> length (commands le mem) < command_capacity le mem) \<and>
    command_queue_ok le mem' \<and> command_capacity le mem' = command_capacity le mem \<and>
    (if sent then
       actions = [Shm_lock, Shm_unlock, Shm_notify] \<and> sa_sequence st' = sa_sequence st + 1 \<and>
       (\<exists>slot. commands le mem' = commands le mem @ [slot] \<and> length slot = 267 \<and>
          take (11 + min (length payload) 256) slot =
            command_bytes (sa_sequence st) (sa_client_id st) type payload)
     else st' = st \<and> actions = [Shm_lock, Shm_unlock])"
proof (cases "obj32 le mem (command_queue le mem) < obj32 le mem (command_queue le mem + 12)")
  case True
  let ?q = "command_queue le mem"
  let ?bs = "command_bytes (sa_sequence st) (sa_client_id st) type payload"
  let ?m = "push_slot le 267 ?q ?bs mem"
  have ok: "queue_ok le 267 ?q mem" and q: "24 \<le> ?q"
    using assms(3) by (auto simp: command_queue_ok_def)
  have len: "length ?bs \<le> 267" by (simp add: length_command_bytes)
  have same: "command_queue le ?m = ?q"
    using push_slot_words(6) [OF ok len, of 16] q by (simp add: command_queue_def)
  show ?thesis
    using queue_push [OF ok len True] push_slot_words(5) [OF ok len] q True
    by (intro exI [of _ True] exI [of _ ?m] exI [of _ "[Shm_lock, Shm_unlock, Shm_notify]"]
        exI [of _ "st\<lparr>sa_sequence := sa_sequence st + 1, sa_data := Some ?m\<rparr>"])
      (simp add: send_command_eq [OF assms] Let_def not_le command_queue_ok_def same commands_def
        command_capacity_def queue_capacity_def length_queue_slots word_less_nat_alt
        length_command_bytes)
next
  case False
  then show ?thesis
    using assms by (auto simp: send_command_eq [OF assms] Let_def commands_def
        command_capacity_def queue_capacity_def length_queue_slots word_less_nat_alt
        word_le_nat_alt)
qed

text \<open>A memory with a ring of one slot.\<close>

definition one_slot_memory :: bytes where
  "one_slot_memory =
     [0, 0, 0, 0, 0, 0, 0, 0, 0, 0, 0, 0, 0, 0, 0, 0, 0, 0, 0, 24, 0, 0, 1, 27] @
     [0, 0, 0, 0, 0, 0, 0, 0, 0, 0, 0, 0, 0, 0, 0, 1] @ replicate 267 0"

definition one_slot_agent :: shm_agent where
  "one_slot_agent = ShmAgent\<lparr>sa_data := Some one_slot_memory, sa_connected := True\<rparr>"

lemma one_slot_memory_words:
  "obj32 False one_slot_memory 16 = 24" "obj32 False one_slot_memory 24 = 0"
  "obj32 False one_slot_memory 28 = 0" "obj32 False one_slot_memory 32 = 0"
  "obj32 False one_slot_memory 36 = 1" "length one_slot_memory = 307"
  by (simp_all add: obj32_def of_object32_def be32_def one_slot_memory_def nth_Cons')

lemma one_slot_memory_ok: "command_queue_ok False one_slot_memory"
  by (simp add: command_queue_ok_def command_queue_def queue_ok_def one_slot_memory_words)

theorem send_command_enqueues_witness:
  "\<exists>sent st' actions mem'.
    send_command False True UNREGISTER_SERVICE [0x12, 0x34, 0, 1] one_slot_agent =
      Inr (sent, st', actions) \<and> sent \<and> sa_data st' = Some mem' \<and>
    (\<exists>slot. commands False mem' = [slot] \<and>
      take 15 slot = [0, 0, 0, 1, 0, 0, 2, 0, 0, 0, 4, 0x12, 0x34, 0, 1])"
proof -
  have "commands False one_slot_memory = []" "command_capacity False one_slot_memory = 1"
    by (simp_all add: commands_def queue_slots_def command_capacity_def queue_capacity_def
        command_queue_def one_slot_memory_words)
  moreover have "sa_connected one_slot_agent" "sa_data one_slot_agent = Some one_slot_memory"
    "sa_sequence one_slot_agent = 1" "sa_client_id one_slot_agent = 0"
    by (simp_all add: one_slot_agent_def ShmAgent_def)
  moreover have "command_bytes 1 0 UNREGISTER_SERVICE [0x12, 0x34, 0, 1] =
      [0, 0, 0, 1, 0, 0, 2, 0, 0, 0, 4, 0x12, 0x34, 0, 1]"
    by (simp add: command_bytes_def bytes32_def bytes16_def)
  ultimately show ?thesis
    using send_command_enqueues [OF _ _ one_slot_memory_ok, of one_slot_agent UNREGISTER_SERVICE
        "[0x12, 0x34, 0, 1]"]
    by fastforce
qed

text \<open>A run of commands, and what each is to be stored as.\<close>

fun send_commands ::
    "bool \<Rightarrow> (route_command_type \<times> bytes) list \<Rightarrow> shm_agent \<Rightarrow> fault + bool list \<times> shm_agent" where
  "send_commands le [] st = Inr ([], st)"
| "send_commands le ((type, payload) # cs) st =
     rbind (send_command le True type payload st) (\<lambda>(sent, st, actions).
     rbind (send_commands le cs st) (\<lambda>(sents, st). Inr (sent # sents, st)))"

fun encode_commands :: "u32 \<Rightarrow> u32 \<Rightarrow> (route_command_type \<times> bytes) list \<Rightarrow> bytes list" where
  "encode_commands seq client [] = []"
| "encode_commands seq client ((type, payload) # cs) =
     command_bytes seq client type payload # encode_commands (seq + 1) client cs"

lemma length_encode_commands [simp]: "length (encode_commands seq client cs) = length cs"
  by (induction seq client cs rule: encode_commands.induct) auto

lemma encode_commands_fit: "\<forall>bs \<in> set (encode_commands seq client cs). length bs \<le> 267"
  by (induction seq client cs rule: encode_commands.induct) (auto simp: length_command_bytes)

lemma push_command_ok:
  assumes "command_queue_ok le mem" and "length bs \<le> 267"
    and "length (commands le mem) < command_capacity le mem"
  defines "m \<equiv> push_slot le 267 (command_queue le mem) bs mem"
  shows "command_queue le m = command_queue le mem" "command_queue_ok le m"
    "command_capacity le m = command_capacity le mem"
    "length (commands le m) = Suc (length (commands le mem))"
proof -
  have ok: "queue_ok le 267 (command_queue le mem) mem" and q: "24 \<le> command_queue le mem"
    using assms(1) by (auto simp: command_queue_ok_def)
  have room: "length (queue_slots le 267 (command_queue le mem) mem) <
      queue_capacity le (command_queue le mem) mem"
    using assms(3) by (simp add: commands_def command_capacity_def)
  show same: "command_queue le m = command_queue le mem"
    using push_slot_words(6) [OF ok assms(2), of 16] q by (simp add: command_queue_def m_def)
  show "command_queue_ok le m" "command_capacity le m = command_capacity le mem"
    using ring.push_ok [OF ok assms(2) room] q
    by (simp_all add: command_queue_ok_def same command_capacity_def m_def [symmetric])
  show "length (commands le m) = Suc (length (commands le mem))"
    using ring.push_contents [OF ok assms(2) room]
    by (auto simp: commands_def same m_def [symmetric])
qed

lemma send_command_eq':
  assumes "sa_connected st" and "sa_data st = Some mem" and "command_queue_ok le mem"
  shows "send_command le True type payload st =
    (if length (commands le mem) < command_capacity le mem then
       Inr (True, st\<lparr>sa_sequence := sa_sequence st + 1, sa_data := Some (push_slot le 267
           (command_queue le mem)
           (command_bytes (sa_sequence st) (sa_client_id st) type payload) mem)\<rparr>,
         [Shm_lock, Shm_unlock, Shm_notify])
     else Inr (False, st, [Shm_lock, Shm_unlock]))"
  using send_command_eq [OF assms]
    queue_room [of le 267 "command_queue le mem" mem]
  by (simp add: Let_def commands_def command_capacity_def not_le [symmetric])

lemma send_commands_push:
  assumes "sa_connected st" and "sa_data st = Some mem" and "command_queue_ok le mem"
    and "length (commands le mem) + length cs \<le> command_capacity le mem"
  shows "send_commands le cs st = Inr (replicate (length cs) True,
    st\<lparr>sa_sequence := sa_sequence st + of_nat (length cs),
       sa_data := Some (fold (push_slot le 267 (command_queue le mem))
         (encode_commands (sa_sequence st) (sa_client_id st) cs) mem)\<rparr>)"
  using assms
proof (induction cs arbitrary: st mem)
  case Nil
  then show ?case by simp
next
  case (Cons c cs)
  obtain type payload where c: "c = (type, payload)" by (cases c)
  let ?bs = "command_bytes (sa_sequence st) (sa_client_id st) type payload"
  let ?m = "push_slot le 267 (command_queue le mem) ?bs mem"
  let ?st = "st\<lparr>sa_sequence := sa_sequence st + 1, sa_data := Some ?m\<rparr>"
  have len: "length ?bs \<le> 267" by (simp add: length_command_bytes)
  have room: "length (commands le mem) < command_capacity le mem" using Cons.prems(4) by simp
  note push = push_command_ok [OF Cons.prems(3) len room]
  have one: "send_command le True type payload st = Inr (True, ?st, [Shm_lock, Shm_unlock, Shm_notify])"
    using send_command_eq' [OF Cons.prems(1-3)] room by simp
  have "send_commands le cs ?st = Inr (replicate (length cs) True,
      ?st\<lparr>sa_sequence := sa_sequence ?st + of_nat (length cs),
        sa_data := Some (fold (push_slot le 267 (command_queue le ?m))
          (encode_commands (sa_sequence ?st) (sa_client_id ?st) cs) ?m)\<rparr>)"
    by (rule Cons.IH) (use Cons.prems push in simp_all)
  then show ?case by (simp add: c one push(1) ac_simps)
qed

lemma fold_push_header:
  assumes "queue_ok le sz q mem" and "\<forall>x \<in> set xs. length x \<le> sz"
    and "length (queue_slots le sz q mem) + length xs \<le> queue_capacity le q mem" and "j + 4 \<le> q"
  shows "obj32 le (fold (push_slot le sz q) xs mem) j = obj32 le mem j"
  using assms
proof (induction xs arbitrary: mem)
  case (Cons x xs)
  have len: "length x \<le> sz" and room: "length (queue_slots le sz q mem) < queue_capacity le q mem"
    using Cons.prems by simp_all
  have "length (queue_slots le sz q (push_slot le sz q x mem)) + length xs \<le>
      queue_capacity le q (push_slot le sz q x mem)"
    using ring.push_ok [OF Cons.prems(1) len room] ring.push_contents [OF Cons.prems(1) len room]
      Cons.prems(3) by auto
  then show ?case
    using Cons.IH ring.push_ok [OF Cons.prems(1) len room] push_slot_words(6) [OF Cons.prems(1) len]
      Cons.prems by simp
qed simp

text \<open> C3: the command queue is first in, first out. As long as the ring has room, every command of a
  run is accepted; afterwards the ring, still well-formed, holds the older commands and then, in
  their order and with consecutive sequence numbers, the new ones, each in a slot of its own with
  its type, client, length and the first 256 bytes of its payload; a reader that takes the
  older ones off finds just these. Once the ring is full the next command is refused and
  changes nothing. \<close>
theorem send_commands_fifo:
  assumes "sa_connected st" and "sa_data st = Some mem" and "command_queue_ok le mem"
    and "length (commands le mem) + length cs \<le> command_capacity le mem"
  shows "\<exists>st' mem' slots. send_commands le cs st = Inr (replicate (length cs) True, st') \<and>
    sa_data st' = Some mem' \<and> sa_sequence st' = sa_sequence st + of_nat (length cs) \<and>
    command_queue_ok le mem' \<and> command_capacity le mem' = command_capacity le mem \<and>
    commands le mem' = commands le mem @ slots \<and>
    list_all2 (slot_holds 267) (encode_commands (sa_sequence st) (sa_client_id st) cs) slots \<and>
    queue_slots le 267 (command_queue le mem)
      ((pop_slot le (command_queue le mem) ^^ length (commands le mem)) mem') = slots \<and>
    (length (commands le mem') = command_capacity le mem' \<longrightarrow>
      send_command le True type payload st' = Inr (False, st', [Shm_lock, Shm_unlock]))"
proof -
  let ?q = "command_queue le mem"
  let ?xs = "encode_commands (sa_sequence st) (sa_client_id st) cs"
  let ?m = "fold (push_slot le 267 ?q) ?xs mem"
  let ?st = "st\<lparr>sa_sequence := sa_sequence st + of_nat (length cs), sa_data := Some ?m\<rparr>"
  have ok: "queue_ok le 267 ?q mem" and q: "24 \<le> ?q"
    using assms(3) by (auto simp: command_queue_ok_def)
  have room: "length (queue_slots le 267 ?q mem) + length ?xs \<le> queue_capacity le ?q mem"
    using assms(4) by (simp add: commands_def command_capacity_def)
  obtain slots where slots: "queue_slots le 267 ?q ?m = queue_slots le 267 ?q mem @ slots"
    "list_all2 (slot_holds 267) ?xs slots" "queue_ok le 267 ?q ?m"
    "queue_capacity le ?q ?m = queue_capacity le ?q mem"
    using ring.push_many [OF ok encode_commands_fit room] by blast
  have same: "command_queue le ?m = ?q"
    using fold_push_header [OF ok encode_commands_fit room, of 16] q by (simp add: command_queue_def)
  have sent: "send_commands le cs st = Inr (replicate (length cs) True, ?st)"
    by (rule send_commands_push [OF assms])
  have m: "command_queue_ok le ?m" "command_capacity le ?m = command_capacity le mem"
    "commands le ?m = commands le mem @ slots"
    using slots q by (simp_all add: command_queue_ok_def command_capacity_def commands_def same)
  have read: "queue_slots le 267 ?q ((pop_slot le ?q ^^ length (commands le mem)) ?m) = slots"
    using ring.pop_many [OF slots(3), of "length (commands le mem)"] slots(1)
    by (simp add: commands_def)
  have full: "send_command le True type payload ?st = Inr (False, ?st, [Shm_lock, Shm_unlock])"
    if "length (commands le ?m) = command_capacity le ?m"
    using send_command_eq' [of ?st ?m le type payload] assms(1) m(1) that by simp
  show ?thesis
    using sent m slots(2) read full
    by (intro exI [of _ ?st] exI [of _ ?m] exI [of _ slots]) simp
qed

theorem send_commands_fifo_witness:
  "\<exists>st' mem' slot. send_commands False [(UNREGISTER_SERVICE, [0x12, 0x34, 0, 1])] one_slot_agent =
      Inr ([True], st') \<and> sa_data st' = Some mem' \<and> commands False mem' = [slot] \<and>
    take 15 slot = [0, 0, 0, 1, 0, 0, 2, 0, 0, 0, 4, 0x12, 0x34, 0, 1] \<and>
    send_command False True HEARTBEAT [] st' = Inr (False, st', [Shm_lock, Shm_unlock])"
proof -
  let ?cs = "[(UNREGISTER_SERVICE, [0x12, 0x34, 0, 1 :: u8])]"
  have c: "commands False one_slot_memory = []" "command_capacity False one_slot_memory = 1"
    by (simp_all add: commands_def queue_slots_def command_capacity_def queue_capacity_def
        command_queue_def one_slot_memory_words)
  have a: "sa_connected one_slot_agent" "sa_data one_slot_agent = Some one_slot_memory"
    "sa_sequence one_slot_agent = 1" "sa_client_id one_slot_agent = 0"
    by (simp_all add: one_slot_agent_def ShmAgent_def)
  have e: "encode_commands 1 0 ?cs = [[0, 0, 0, 1, 0, 0, 2, 0, 0, 0, 4, 0x12, 0x34, 0, 1]]"
    by (simp add: command_bytes_def bytes32_def bytes16_def)
  have room: "length (commands False one_slot_memory) + length ?cs \<le> command_capacity False one_slot_memory"
    by (simp add: c)
  obtain st' mem' slots where r: "send_commands False ?cs one_slot_agent = Inr ([True], st')"
    "sa_data st' = Some mem'" "command_capacity False mem' = 1" "commands False mem' = slots"
    "list_all2 (slot_holds 267) [[0, 0, 0, 1, 0, 0, 2, 0, 0, 0, 4, 0x12, 0x34, 0, 1]] slots"
    "length (commands False mem') = command_capacity False mem' \<longrightarrow>
      send_command False True HEARTBEAT [] st' = Inr (False, st', [Shm_lock, Shm_unlock])"
    using send_commands_fifo [OF a(1,2) one_slot_memory_ok room, of HEARTBEAT "[]"]
    unfolding a(3,4) e c by auto
  then obtain slot where "slots = [slot]"
    and "slot_holds 267 [0, 0, 0, 1, 0, 0, 2, 0, 0, 0, 4, 0x12, 0x34, 0, 1] slot"
    by (auto simp: list_all2_Cons1)
  with r show ?thesis
    by (auto simp add: slot_holds_def eval_nat_numeral intro!: exI [of _ st'])
qed

section \<open>Responses and lookups\<close>

definition response_queue :: "bool \<Rightarrow> bytes \<Rightarrow> nat" where
  "response_queue le mem = unat (obj32 le mem 24)"

definition responses :: "bool \<Rightarrow> bytes \<Rightarrow> bytes list" where
  "responses le mem = queue_slots le 265 (response_queue le mem) mem"

text \<open>The fields of a response in its slot, and what each response is to cause.\<close>

definition slot_type :: "bytes \<Rightarrow> route_response_type" where
  "slot_type slot = response_of_byte (slot ! 4)"

definition slot_length :: "bytes \<Rightarrow> nat" where
  "slot_length slot = unat (be32 (slot ! 5) (slot ! 6) (slot ! 7) (slot ! 8))"

definition slot_id :: "bytes \<Rightarrow> nat \<Rightarrow> u16" where
  "slot_id slot i = be16 (slot ! (9 + i)) (slot ! (10 + i))"

definition response_actions :: "shm_agent \<Rightarrow> bytes \<Rightarrow> shm_action list" where
  "response_actions st slot =
     (if slot_type slot \<in> {SERVICE_AVAILABLE, SERVICE_UNAVAILABLE} \<and> 4 \<le> slot_length slot then
        (case sa_availability_handler st of None \<Rightarrow> []
         | Some h \<Rightarrow> [Availability h (slot_id slot 0) (slot_id slot 2)
             (slot_type slot = SERVICE_AVAILABLE)])
      else if slot_type slot \<in> {SUBSCRIPTION_ACK, SUBSCRIPTION_NACK} \<and> 7 \<le> slot_length slot then
        (case sa_subscription_handler st of None \<Rightarrow> []
         | Some h \<Rightarrow> [Subscription h (slot_id slot 0) (slot_id slot 2) (slot_id slot 4)])
      else [])"

lemma handle_response_eq:
  assumes "length slot = 285" and "slot_length slot \<le> 276"
  shows "handle_response st (slot_type slot) (take (slot_length slot) (drop 9 slot)) =
    Inr (response_actions st slot)"
proof -
  have len: "length (take (slot_length slot) (drop 9 slot)) = slot_length slot"
    using assms by simp
  have nth: "take (slot_length slot) (drop 9 slot) ! i = slot ! (9 + i)" if "i < slot_length slot" for i
    using that assms by simp
  show ?thesis
    using nth [of 0] nth [of 1] nth [of 2] nth [of 3] nth [of 4] nth [of 5] len
    by (cases "slot_type slot")
      (auto simp: handle_response_def response_actions_def rd16_ok slot_id_def split: option.split)
qed

text \<open>What an iteration sees of the slot at the read index.\<close>

abbreviation read_address :: "bool \<Rightarrow> nat \<Rightarrow> bytes \<Rightarrow> nat" where
  "read_address le q mem \<equiv> q + 16 + unat (obj32 le mem (q + 4)) * 265"

lemma process_one_eq:
  assumes ok: "queue_ok le 265 q mem" and fit: "read_address le q mem + 285 \<le> length mem"
  defines "slot \<equiv> region (read_address le q mem) 285 mem"
  shows "process_one le q st mem =
    (if slot_length slot \<le> 276 then Inr (pop_slot le q mem, response_actions st slot)
     else Inl Out_of_bounds)"
proof -
  let ?ri = "obj32 le mem (q + 4)"
  have ri: "unat ?ri < unat (obj32 le mem (q + 12))"
    and bound: "unat (obj32 le mem (q + 12)) * 265 < 2 ^ 32"
    using ok by (auto simp: queue_ok_def Let_def)
  have "unat ?ri * 265 < 2 ^ 32"
    using slot_fits [OF ri, of 265] bound by linarith
  then have off: "unat (?ri * RESPONSE_SLOT) = unat ?ri * 265"
    using unat_slot_offset [of ?ri 265] by (simp add: RESPONSE_SLOT_def)
  have len: "length slot = 285" using fit by (simp add: slot_def length_region)
  have cap: "obj32 le mem (q + 12) \<noteq> 0" using ri by auto
  have "rd_slice slot 9 n = (if n \<le> 276 then Inr (take n (drop 9 slot)) else Inl Out_of_bounds)" for n
    using len by (auto simp: rd_slice_def)
  then show ?thesis
    using fit cap len handle_response_eq [OF len]
    by (simp add: process_one_def rd_obj32_ok wr_obj32_ok off QUEUE_HEADER_def RESPONSE_BUFFER_def
        rd_slice_region slot_def [symmetric] rd32_ok rd_ok slot_length_def [symmetric]
        slot_type_def [symmetric] obj32_other pop_slot_def Let_def)
qed

lemma process_loop_Cons:
  assumes "q + 16 \<le> length mem" and "0 < obj32 le mem q"
  shows "process_loop le q st mem =
    rbind (process_one le q st mem) (\<lambda>(mem, actions).
    rbind (process_loop le q st mem) (\<lambda>(mem, actions'). Inr (mem, actions @ actions')))"
  using assms by (subst process_loop.simps) (auto simp: rd_obj32_ok split: sum.split)

lemma process_loop_Nil:
  "q + 16 \<le> length mem \<Longrightarrow> obj32 le mem q = 0 \<Longrightarrow> process_loop le q st mem = Inr (mem, [])"
  by (subst process_loop.simps) (simp add: rd_obj32_ok)

lemma nth_region: "i < n \<Longrightarrow> a + n \<le> length mem \<Longrightarrow> region a n mem ! i = mem ! (a + i)"
  by (simp add: region_def)

lemma slot_views:
  assumes "a + 285 \<le> length mem"
  shows "slot_type (region a 285 mem) = slot_type (region a 265 mem)"
    "slot_length (region a 285 mem) = slot_length (region a 265 mem)"
    "response_actions st (region a 285 mem) = response_actions st (region a 265 mem)"
proof -
  show type: "slot_type (region a 285 mem) = slot_type (region a 265 mem)"
    and len: "slot_length (region a 285 mem) = slot_length (region a 265 mem)"
    using assms by (simp_all add: slot_type_def slot_length_def nth_region)
  have ids: "slot_id (region a 285 mem) i = slot_id (region a 265 mem) i" if "i \<le> 4" for i
    using assms that by (simp add: slot_id_def nth_region)
  show "response_actions st (region a 285 mem) = response_actions st (region a 265 mem)"
    unfolding response_actions_def type len ids [of 0, simplified] ids [of 2, simplified]
      ids [of 4, simplified] ..
qed

lemma process_loop_drains:
  assumes "queue_ok le 265 q mem" and "q + 16 + queue_capacity le q mem * 265 + 20 \<le> length mem"
    and "\<forall>slot \<in> set (queue_slots le 265 q mem). slot_length slot \<le> 256"
  shows "\<exists>mem'. process_loop le q st mem =
      Inr (mem', concat (map (response_actions st) (queue_slots le 265 q mem))) \<and>
    queue_ok le 265 q mem' \<and> queue_slots le 265 q mem' = []"
  using assms
proof (induction "queue_slots le 265 q mem" arbitrary: mem)
  case Nil
  then have "obj32 le mem q = 0"
    using length_queue_slots [of le 265 q mem] by (simp add: unat_eq_0)
  then show ?case using Nil by (simp add: process_loop_Nil)
next
  case (Cons slot slots)
  let ?a = "read_address le q mem"
  let ?m = "pop_slot le q mem"
  have q: "q + 16 \<le> length mem" using Cons.prems(2) by simp
  have pos: "0 < obj32 le mem q"
    using length_queue_slots [of le 265 q mem] Cons.hyps(2) [symmetric]
    by (simp add: word_neq_0_conv [symmetric])
      (metis Zero_not_Suc unat_eq_0)
  note pop = queue_pop [OF Cons.prems(1) pos]
  have "unat (obj32 le mem (q + 4)) < queue_capacity le q mem"
    using Cons.prems(1) by (auto simp: queue_ok_def queue_capacity_def Let_def)
  then have fit: "?a + 285 \<le> length mem"
    using slot_fits [of "unat (obj32 le mem (q + 4))" "queue_capacity le q mem" 265] Cons.prems(2)
    by linarith
  have slot: "slot = region ?a 265 mem" and slots: "slots = queue_slots le 265 q ?m"
    using pop(2) Cons.hyps(2) by simp_all
  have one: "process_one le q st mem = Inr (?m, response_actions st slot)"
    using process_one_eq [OF Cons.prems(1) fit] Cons.prems(3) Cons.hyps(2) [symmetric]
    by (simp add: slot_views [OF fit] slot)
  have "q + 16 + queue_capacity le q ?m * 265 + 20 \<le> length ?m"
    using Cons.prems(2) pop_slot_words(1,5) [OF q] by (simp add: queue_capacity_def)
  then obtain mem' where "process_loop le q st ?m =
      Inr (mem', concat (map (response_actions st) slots))" "queue_ok le 265 q mem'"
    "queue_slots le 265 q mem' = []"
    using Cons.hyps(1) [OF slots pop(1)] Cons.prems(3) Cons.hyps(2) [symmetric] slots by auto
  then show ?case
    using process_loop_Cons [OF q pos, of st] one Cons.hyps(2) [symmetric] by simp
qed

text \<open> C9: the worker handles what the daemon has queued, each response once and in order. If the
  response ring is well-formed, every length in it is at most 256 and the memory goes on for 20
  bytes after the last slot, \<open>process_responses\<close> returns, leaves an empty well-formed ring, and
  its effect is, between the lock and the unlock, the concatenation of what the single responses
  are to cause: one availability call for an (un)available service, one subscription call for an
  acknowledgement and likewise for a rejection, nothing for the other types and for payloads that
  are too short. \<close>
theorem process_responses_drains:
  assumes "sa_connected st" and "sa_data st = Some mem" and "32 \<le> length mem"
    and "queue_ok le 265 (response_queue le mem) mem"
    and "response_queue le mem + 16 + queue_capacity le (response_queue le mem) mem * 265 + 20
      \<le> length mem"
    and "\<forall>slot \<in> set (responses le mem). slot_length slot \<le> 256"
  shows "\<exists>mem'. process_responses le True st = Inr (st\<lparr>sa_data := Some mem'\<rparr>,
      [Shm_lock] @ concat (map (response_actions st) (responses le mem)) @ [Shm_unlock]) \<and>
    queue_ok le 265 (response_queue le mem) mem' \<and>
    queue_slots le 265 (response_queue le mem) mem' = []"
  using process_loop_drains [OF assms(4,5), of st] assms(1,2,3,6)
  by (auto simp: process_responses_def rd_obj32_ok responses_def response_queue_def)

text \<open>A memory whose response ring of one slot holds one response of the given length.\<close>

definition response_memory :: "u8 \<Rightarrow> bytes" where
  "response_memory n =
     [0, 0, 0, 0, 0, 0, 0, 0, 0, 0, 0, 0, 0, 0, 0, 0, 0, 0, 0, 0, 0, 0, 0, 0, 0, 0, 0, 32,
      0, 0, 0, 0, 0, 0, 0, 1, 0, 0, 0, 0, 0, 0, 0, 0, 0, 0, 0, 1,
      0, 0, 0, 7, 0x10, 0, 0, n, 4, 0x12, 0x34, 0, 1] @ replicate 272 0"

definition response_agent :: "u8 \<Rightarrow> shm_agent" where
  "response_agent n = ShmAgent\<lparr>sa_data := Some (response_memory n), sa_connected := True,
     sa_availability_handler := Some 5\<rparr>"

lemma response_memory_words:
  "obj32 False (response_memory n) 24 = 32" "obj32 False (response_memory n) 32 = 1"
  "obj32 False (response_memory n) 36 = 0" "obj32 False (response_memory n) 40 = 0"
  "obj32 False (response_memory n) 44 = 1" "length (response_memory n) = 333"
  by (simp_all add: obj32_def of_object32_def be32_def response_memory_def nth_Cons')

lemma response_memory_ok:
  "response_queue False (response_memory n) = 32" "queue_ok False 265 32 (response_memory n)"
  "queue_capacity False 32 (response_memory n) = 1"
  "responses False (response_memory n) = [region 48 265 (response_memory n)]"
  by (simp_all add: response_queue_def queue_ok_def queue_capacity_def responses_def
      queue_slots_def response_memory_words)

lemma response_memory_slot:
  "slot_type (region 48 265 (response_memory n)) = SERVICE_AVAILABLE"
  "slot_length (region 48 265 (response_memory n)) = unat (be32 0 0 n 4)"
  "slot_id (region 48 265 (response_memory n)) 0 = 0x1234"
  "slot_id (region 48 265 (response_memory n)) 2 = 1"
  by (simp_all add: slot_type_def slot_length_def slot_id_def region_def response_memory_def
      response_of_byte_def be16_def)

theorem process_responses_drains_witness:
  "\<exists>mem'. process_responses False True (response_agent 0) =
    Inr (response_agent 0\<lparr>sa_data := Some mem'\<rparr>,
      [Shm_lock, Availability 5 0x1234 1 True, Shm_unlock]) \<and>
    queue_slots False 265 32 mem' = []"
proof -
  have agent: "sa_connected (response_agent 0)"
    "sa_data (response_agent 0) = Some (response_memory 0)"
    "sa_availability_handler (response_agent 0) = Some 5"
    by (simp_all add: response_agent_def)
  have "slot_length (region 48 265 (response_memory 0)) = 4"
    by (simp add: response_memory_slot be32_def)
  then show ?thesis
    using process_responses_drains [OF agent(1,2), of False]
    by (simp add: response_memory_ok response_memory_words response_memory_slot
        response_actions_def agent) metis
qed

text \<open> C26: the copy of a response is not checked. The local buffer has 285 bytes where a slot has
  265, and the length in the response is used as it is: if the first response lies less than 285
  bytes before the end of the memory, or claims a payload of more than 276 bytes, the worker
  reads past the end of the memory or of its buffer, whatever else the memory holds. \<close>
theorem process_responses_overrun:
  assumes "sa_connected st" and "sa_data st = Some mem" and "32 \<le> length mem"
    and "queue_ok le 265 q mem" and "q = response_queue le mem" and "0 < obj32 le mem q"
    and "length mem < read_address le q mem + 285 \<or>
      276 < slot_length (region (read_address le q mem) 265 mem)"
  shows "process_responses le True st = Inl Out_of_bounds"
proof -
  have q: "q + 16 \<le> length mem" using assms(4) by (simp add: queue_ok_def Let_def)
  have "process_one le q st mem = Inl Out_of_bounds"
  proof (cases "read_address le q mem + 285 \<le> length mem")
    case True
    then show ?thesis
      using process_one_eq [OF assms(4) True] assms(7) by (simp add: slot_views)
  next
    case False
    have ri: "unat (obj32 le mem (q + 4)) < unat (obj32 le mem (q + 12))"
      and "unat (obj32 le mem (q + 12)) * 265 < 2 ^ 32"
      using assms(4) by (auto simp: queue_ok_def Let_def)
    then have "unat (obj32 le mem (q + 4) * RESPONSE_SLOT) = unat (obj32 le mem (q + 4)) * 265"
      using slot_fits [OF ri, of 265] unat_slot_offset [of "obj32 le mem (q + 4)" 265]
      by (simp add: RESPONSE_SLOT_def)
    then show ?thesis
      using False q
      by (simp add: process_one_def rd_obj32_ok QUEUE_HEADER_def RESPONSE_BUFFER_def rd_slice_def
          Let_def)
  qed
  then show ?thesis
    using assms(1-3,5) process_loop_Cons [OF q assms(6), of st]
    by (simp add: process_responses_def rd_obj32_ok response_queue_def)
qed

theorem process_responses_overrun_witness:
  "process_responses False True (response_agent 2) = Inl Out_of_bounds"
proof (rule process_responses_overrun [where mem = "response_memory 2" and q = 32])
  show "length (response_memory 2) < read_address False 32 (response_memory 2) + 285 \<or>
      276 < slot_length (region (read_address False 32 (response_memory 2)) 265 (response_memory 2))"
    by (simp add: response_memory_words response_memory_slot be32_def)
qed (simp_all add: response_agent_def response_memory_words response_memory_ok)

text \<open>No operation puts anything into the local response queue.\<close>

lemma send_command_frame:
  assumes "send_command le locked type payload st = Inr (sent, st', actions)"
  shows "sa_response_queue st' = sa_response_queue st \<and>
    sa_pending_requests st' = sa_pending_requests st \<and>
    actions \<in> {[], [Shm_lock, Shm_unlock], [Shm_lock, Shm_unlock, Shm_notify]}"
  using assms
  by (auto simp: send_command_def Let_def rbind_Inr_iff split: option.splits if_splits)

lemma process_responses_frame:
  assumes "process_responses le locked st = Inr (st', actions)"
  shows "\<exists>data. st' = st\<lparr>sa_data := data\<rparr>"
  using assms
proof (cases "sa_data st")
  case (Some mem)
  have "st = st\<lparr>sa_data := sa_data st\<rparr>" by simp
  then have "\<exists>data. st = st\<lparr>sa_data := data\<rparr>" by blast
  then show ?thesis using assms Some
    by (auto simp: process_responses_def rbind_Inr_iff split: if_splits)
qed (auto simp: process_responses_def intro: exI [of _ None])

lemma lookup_subscribers_send_frame:
  assumes "lookup_subscribers_send le locked service instance eventgroup st = Inr (r, st', actions)"
  shows "sa_response_queue st' = sa_response_queue st"
  using assms
  by (auto simp: lookup_subscribers_send_def Let_def rbind_Inr_iff dest!: send_command_frame
      split: if_splits)

lemma shm_step_queue:
  assumes "shm_step le st st'" and "sa_response_queue st = []"
  shows "sa_response_queue st' = []"
  using assms
proof (cases rule: shm_step.cases)
  case (Disconnect actions)
  then show ?thesis using assms(2)
    by (auto simp: shm_disconnect_def Let_def split: if_splits)
next
  case (Worker signalled locked actions)
  then show ?thesis using assms(2)
    by (auto simp: shm_worker_turn_def rbind_Inr_iff dest!: process_responses_frame
        split: if_splits)
qed (auto simp: shm_connect_def lookup_subscribers_wait_def set_client_id_def
    set_shm_available_handler_def set_subscription_ack_handler_def
    dest!: send_command_frame lookup_subscribers_send_frame
    split: if_splits option.splits)

lemma shm_reachable_queue: "shm_reachable le st \<Longrightarrow> sa_response_queue st = []"
  by (induction rule: shm_reachable.induct) (auto simp: ShmAgent_def intro: shm_step_queue)

text \<open> C35: \<open>lookup_subscribers\<close> never finds a subscriber. It waits for an element of the local
  response queue, and no operation of the agent, the worker thread included, adds one: in every
  reachable state, whatever the daemon has written into the shared memory, the wait runs into
  its timeout, the result is empty and the request is dropped from the pending ones. \<close>
theorem lookup_subscribers_never_answers:
  assumes "shm_reachable le st"
  shows "lookup_subscribers_wait seq st =
    Inr ([], st\<lparr>sa_pending_requests := om_del seq (sa_pending_requests st)\<rparr>)"
  using shm_reachable_queue [OF assms] by (simp add: lookup_subscribers_wait_def)

theorem lookup_subscribers_never_answers_witness:
  "lookup_subscribers_wait 1 (ShmAgent\<lparr>sa_client_id := 7\<rparr>) =
    Inr ([], ShmAgent\<lparr>sa_client_id := 7, sa_pending_requests := []\<rparr>)"
proof -
  have "shm_reachable True (set_client_id 7 ShmAgent)"
    by (rule shm_reachable.Step [OF shm_reachable.Start shm_step.Set_client_id])
  from lookup_subscribers_never_answers [OF this, of 1] show ?thesis
    by (simp add: set_client_id_def ShmAgent_def om_del_def)
qed

end
