(* ===== verification/ShmRegistry.thy ===== *)
theory ShmRegistry
  imports ShmQueues
begin

text \<open>
  The service registry \<open>lookup_service_endpoints\<close> reads: its layout as a list of entries, the
  lookup as a search in that list, and how far it reads in a memory with any content.
\<close>

section \<open>The service registry\<close>

text \<open>The registry \<open>lookup_service_endpoints\<close> reads: its entries and their layout.\<close>

type_synonym registry_endpoint = "bytes \<times> u16 \<times> u8"

record registry_entry =
  re_service :: u16
  re_instance :: u16
  re_major_version :: u8
  re_minor_version :: u32
  re_ttl :: u32
  re_is_local :: u8
  re_endpoints :: "registry_endpoint list"

fun endpoint_bytes :: "registry_endpoint \<Rightarrow> bytes" where
  "endpoint_bytes (address, port, protocol) =
     [of_nat (length address)] @ address @ bytes16 port @ [protocol]"

fun endpoint_view :: "registry_endpoint \<Rightarrow> endpoint" where
  "endpoint_view (address, port, protocol) = \<lparr>ep_address = string_of_bytes address,
     ep_port = port, ep_protocol = ip_of_byte protocol\<rparr>"

definition entry_bytes :: "registry_entry \<Rightarrow> bytes" where
  "entry_bytes e =
     bytes16 (re_service e) @ bytes16 (re_instance e) @ [re_major_version e] @
     bytes32 (re_minor_version e) @ bytes32 (re_ttl e) @ [re_is_local e] @
     bytes32 (of_nat (length (re_endpoints e))) @ concat (map endpoint_bytes (re_endpoints e))"

definition entry_ok :: "registry_entry \<Rightarrow> bool" where
  "entry_ok e \<longleftrightarrow> length (re_endpoints e) < 2 ^ 32 \<and>
     (\<forall>(address, port, protocol) \<in> set (re_endpoints e). length address < 256)"

definition registry_bytes :: "registry_entry list \<Rightarrow> bytes" where
  "registry_bytes es = concat (map entry_bytes es)"

definition registered_endpoints :: "u16 \<Rightarrow> u16 \<Rightarrow> registry_entry list \<Rightarrow> endpoint list" where
  "registered_endpoints service instance es =
     (case List.find (\<lambda>e. re_service e = service \<and> re_instance e = instance) es of
        None \<Rightarrow> [] | Some e \<Rightarrow> map endpoint_view (re_endpoints e))"

lemma unat_of_nat_u8: "n < 256 \<Longrightarrow> unat (of_nat n :: u8) = n"
  by (simp add: unsigned_of_nat take_bit_nat_eq_self)

lemma endpoint_step:
  assumes mem': "mem = pre @ endpoint_bytes (address, port, protocol) @ post"
  shows "rd mem (length pre) = Inr (of_nat (length address))"
    "rd_slice mem (length pre + 1) (length address) = Inr address"
    "rd16 mem (length pre + 1 + length address) = Inr port"
    "rd mem (length pre + 1 + length address + 2) = Inr protocol"
proof -
  have mem: "mem = pre @ of_nat (length address) # address @ bytes16 port @ protocol # post"
    using mem' by simp
  show "rd mem (length pre) = Inr (of_nat (length address))" by (simp add: mem rd_def nth_append)
  show "rd_slice mem (length pre + 1) (length address) = Inr address"
    by (simp add: mem rd_slice_def)
  show "rd16 mem (length pre + 1 + length address) = Inr port"
    using rd16_bytes16 [of "pre @ of_nat (length address) # address" port "protocol # post"]
    by (simp add: mem)
  show "rd mem (length pre + 1 + length address + 2) = Inr protocol"
    by (simp add: mem rd_def nth_append bytes16_def)
qed

text \<open>Both loops walk over the endpoints of an entry, wherever it lies.\<close>

lemma endpoint_loop_concat:
  assumes "\<forall>(address, port, protocol) \<in> set eps. length address < 256"
    and "mem = pre @ don @ concat (map endpoint_bytes eps) @ post"
    and "base = length pre" and "offset = length don"
    and "offset + length (concat (map endpoint_bytes eps)) \<le> max_offset"
  shows "endpoint_loop mem base max_offset (length eps) offset = Inr (map endpoint_view eps)"
    "skip_loop mem base max_offset (length eps) offset =
      Inr (offset + length (concat (map endpoint_bytes eps)))"
proof -
  have "endpoint_loop mem base max_offset (length eps) offset = Inr (map endpoint_view eps) \<and>
    skip_loop mem base max_offset (length eps) offset =
      Inr (offset + length (concat (map endpoint_bytes eps)))"
    using assms
  proof (induction eps arbitrary: don offset)
    case Nil
    then show ?case by simp
  next
    case (Cons ep eps)
    obtain address port protocol where ep: "ep = (address, port, protocol)" by (cases ep)
    have len: "length address < 256" using Cons.prems(1) by (auto simp: ep)
    have u: "unat (of_nat (length address) :: u8) = length address"
      using len by (rule unat_of_nat_u8)
    let ?eb = "endpoint_bytes (address, port, protocol)"
    have lb: "length ?eb = length address + 4" by simp
    have mem: "mem = (pre @ don) @ ?eb @ (concat (map endpoint_bytes eps) @ post)"
      using Cons.prems(2) by (simp add: ep)
    note step = endpoint_step [OF mem]
    have IH: "endpoint_loop mem base max_offset (length eps) (offset + 1 + length address + 3) =
          Inr (map endpoint_view eps) \<and>
        skip_loop mem base max_offset (length eps) (offset + 1 + length address + 3) =
          Inr (offset + 1 + length address + 3 + length (concat (map endpoint_bytes eps)))"
      by (rule Cons.IH [of "don @ ?eb"]) (use Cons.prems ep lb in \<open>auto simp del: length_concat\<close>)
    have fit: "offset + 1 + length address + 3 \<le> max_offset"
      using Cons.prems(5) by (simp add: ep)
    have at: "base + offset = length (pre @ don)" using Cons.prems(3,4) by simp
    show ?case
      using IH fit step [folded at] u
      by (simp add: ep Let_def add.assoc)
  qed
  then show "endpoint_loop mem base max_offset (length eps) offset = Inr (map endpoint_view eps)"
    "skip_loop mem base max_offset (length eps) offset =
      Inr (offset + length (concat (map endpoint_bytes eps)))" by simp_all
qed

definition entry_header :: "registry_entry \<Rightarrow> bytes" where
  "entry_header e =
     bytes16 (re_service e) @ bytes16 (re_instance e) @ [re_major_version e] @
     bytes32 (re_minor_version e) @ bytes32 (re_ttl e) @ [re_is_local e] @
     bytes32 (of_nat (length (re_endpoints e)))"

lemma entry_bytes_header:
  "entry_bytes e = entry_header e @ concat (map endpoint_bytes (re_endpoints e))"
  by (simp add: entry_bytes_def entry_header_def)

lemma length_entry_header [simp]: "length (entry_header e) = 18"
  by (simp add: entry_header_def)

lemma header_step:
  assumes mem: "mem = pre @ entry_header e @ post"
  shows "rd16 mem (length pre) = Inr (re_service e)"
    "rd16 mem (length pre + 2) = Inr (re_instance e)"
    "rd32 mem (length pre + 14) = Inr (of_nat (length (re_endpoints e)))"
  using rd16_bytes16 [of pre "re_service e" "drop 2 (entry_header e) @ post"]
    rd16_bytes16 [of "pre @ bytes16 (re_service e)" "re_instance e" "drop 4 (entry_header e) @ post"]
    rd32_bytes32 [of "pre @ take 14 (entry_header e)" "of_nat (length (re_endpoints e))" post]
  by (simp_all add: mem entry_header_def)

lemma registry_loop_concat:
  assumes "\<forall>e \<in> set es. entry_ok e" and "mem = pre @ don @ registry_bytes es @ post"
    and "base = length pre" and "offset = length don"
    and "offset + length (registry_bytes es) \<le> max_offset"
  shows "registry_loop mem base max_offset service instance (length es) offset =
    Inr (registered_endpoints service instance es)"
  using assms
proof (induction es arbitrary: don offset)
  case Nil
  then show ?case by (simp add: registered_endpoints_def)
next
  case (Cons e es)
  let ?eps = "concat (map endpoint_bytes (re_endpoints e))"
  have ok: "length (re_endpoints e) < 2 ^ 32"
    "\<forall>(address, port, protocol) \<in> set (re_endpoints e). length address < 256"
    using Cons.prems(1) by (auto simp: entry_ok_def)
  have reg: "registry_bytes (e # es) = entry_header e @ ?eps @ registry_bytes es"
    by (simp add: registry_bytes_def entry_bytes_header)
  have mem1: "mem = (pre @ don) @ entry_header e @ (?eps @ registry_bytes es @ post)"
    and mem2: "mem = pre @ (don @ entry_header e) @ ?eps @ (registry_bytes es @ post)"
    using Cons.prems(2) by (simp_all add: reg)
  have fit: "offset + 18 + length ?eps \<le> max_offset"
    using Cons.prems(5) by (simp add: reg del: length_concat)
  note head = header_step [OF mem1]
  note loops = endpoint_loop_concat [OF ok(2) mem2 Cons.prems(3), of "offset + 18" max_offset]
  have IH: "registry_loop mem base max_offset service instance (length es)
      (offset + 18 + length ?eps) = Inr (registered_endpoints service instance es)"
    by (rule Cons.IH [of "don @ entry_header e @ ?eps"])
      (use Cons.prems in \<open>simp_all add: reg del: length_concat\<close>)
  have at: "base + offset = length (pre @ don)" using Cons.prems(3,4) by simp
  have count: "rd32 mem (base + offset + 4 + 1 + 4 + 4 + 1) = Inr (of_nat (length (re_endpoints e)))"
    using head(3) [folded at] by (simp add: add.commute)
  show ?case
    using IH fit head(1,2) [folded at] count loops Cons.prems(4) ok(1)
    by (auto simp: registered_endpoints_def)
qed

text \<open> C16: looking a service up. If the registry region holds the count of the entries and then
  the entries, each with its ids, versions, time to live, locality and endpoints, one after the
  other, \<open>lookup_service_endpoints\<close> returns, in order, all endpoints of the first entry with the
  wanted service and instance, and nothing if there is none, without reading outside the memory;
  the lock is released. \<close>
theorem lookup_service_endpoints_finds:
  assumes "sa_connected st" and "sa_data st = Some mem" and "36 \<le> length mem"
    and "mem = pre @ object_bytes32 le (of_nat (length es)) @ registry_bytes es @ post"
    and "length pre = unat (obj32 le mem 28)"
    and "unat (obj32 le mem 32) = 4 + length (registry_bytes es)"
    and "length es < 2 ^ 32" and "\<forall>e \<in> set es. entry_ok e"
  shows "lookup_service_endpoints le True service instance st =
    Inr (registered_endpoints service instance es, [Shm_lock, Shm_unlock])"
proof -
  have mem: "mem = (pre @ object_bytes32 le (of_nat (length es))) @ [] @ registry_bytes es @ post"
    using assms(4) by simp
  have loop: "registry_loop mem (length pre + 4) (length (registry_bytes es)) service instance
      (length es) 0 = Inr (registered_endpoints service instance es)"
    by (rule registry_loop_concat [OF assms(8) mem]) simp_all
  have "splice mem (length pre) (object_bytes32 le (of_nat (length es))) = mem"
    by (subst (2) assms(4)) (simp add: assms(4) splice_def)
  then have "obj32 le mem (length pre) = of_nat (length es)"
    using obj32_same [of "length pre" mem le "of_nat (length es)"] assms(4) by simp
  moreover have "length pre + 3 < length mem" using assms(4) by simp
  moreover have "size_sub (4 + length (registry_bytes es)) 4 = length (registry_bytes es)"
    using unat_u32_less [of "obj32 le mem 32"] assms(6)
    by (subst size_sub_small) (simp_all add: size_max_def)
  ultimately show ?thesis
    using assms(1-3,5-7) loop
    by (simp add: lookup_service_endpoints_def rd_obj32_ok)
qed

definition sample_entry :: registry_entry where
  "sample_entry = \<lparr>re_service = 0x1234, re_instance = 1, re_major_version = 1,
     re_minor_version = 0, re_ttl = 5, re_is_local = 0,
     re_endpoints = [([0x68], 30509, 0x06)]\<rparr>"

definition registry_memory :: bytes where
  "registry_memory =
     [0, 0, 0, 0, 0, 0, 0, 0, 0, 0, 0, 0, 0, 0, 0, 0, 0, 0, 0, 0, 0, 0, 0, 0, 0, 0, 0, 0,
      0, 0, 0, 36, 0, 0, 0, 27, 0, 0, 0, 1] @ registry_bytes [sample_entry]"

theorem lookup_service_endpoints_finds_witness:
  "lookup_service_endpoints False True 0x1234 1
      (ShmAgent\<lparr>sa_data := Some registry_memory, sa_connected := True\<rparr>) =
    Inr ([\<lparr>ep_address = ''h'', ep_port = 30509, ep_protocol = UDP\<rparr>], [Shm_lock, Shm_unlock])"
proof -
  have len: "length (registry_bytes [sample_entry]) = 23"
    by (simp add: registry_bytes_def entry_bytes_def sample_entry_def)
  have reg: "registered_endpoints 0x1234 1 [sample_entry] =
      [\<lparr>ep_address = ''h'', ep_port = 30509, ep_protocol = UDP\<rparr>]"
    by (simp add: registered_endpoints_def sample_entry_def string_of_bytes_def ip_of_byte_def
        char_of_def bit_0)
  have "lookup_service_endpoints False True 0x1234 1
      (ShmAgent\<lparr>sa_data := Some registry_memory, sa_connected := True\<rparr>) =
    Inr (registered_endpoints 0x1234 1 [sample_entry], [Shm_lock, Shm_unlock])"
  proof (rule lookup_service_endpoints_finds [where mem = registry_memory and post = "[]" and
        pre = "take 36 registry_memory"])
    show "registry_memory = take 36 registry_memory @
        object_bytes32 False (of_nat (length [sample_entry])) @ registry_bytes [sample_entry] @ []"
      by (simp add: registry_memory_def object_bytes32_def bytes32_def)
    show "unat (obj32 False registry_memory 32) = 4 + length (registry_bytes [sample_entry])"
      "length (take 36 registry_memory) = unat (obj32 False registry_memory 28)"
      by (simp_all add: len obj32_def of_object32_def be32_def registry_memory_def nth_Cons')
    show "\<forall>e \<in> set [sample_entry]. entry_ok e" by (simp add: entry_ok_def sample_entry_def)
  qed (simp_all add: registry_memory_def)
  then show ?thesis by (simp add: reg)
qed

text \<open>Whatever the memory holds, the loops stay inside the region, up to two bytes.\<close>

lemma endpoint_loop_total:
  assumes "base + max_offset \<le> length mem"
  shows "\<exists>r. endpoint_loop mem base max_offset n offset = Inr r \<and> 4 * length r \<le> max_offset - offset"
proof (induction n arbitrary: offset)
  case (Suc n)
  show ?case
  proof (cases "offset < max_offset \<and> offset + 1 + unat (mem ! (base + offset)) + 3 \<le> max_offset")
    case True
    let ?o = "offset + 1 + unat (mem ! (base + offset)) + 3"
    obtain r where r: "endpoint_loop mem base max_offset n ?o = Inr r" "4 * length r \<le> max_offset - ?o"
      using Suc.IH [of ?o] by blast
    have "base + ?o \<le> length mem" using True assms by simp
    moreover have "4 + 4 * length r \<le> max_offset - offset" using True r(2) by arith
    ultimately show ?thesis using True r(1) by (simp add: rd_ok rd16_ok rd_slice_ok Let_def)
  next
    case False
    then show ?thesis using assms by (auto simp: rd_ok Let_def)
  qed
qed simp

lemma skip_loop_total:
  assumes "base + max_offset \<le> length mem"
  shows "\<exists>offset'. skip_loop mem base max_offset n offset = Inr offset'"
  using assms by (induction n arbitrary: offset) (simp_all add: rd_ok)

lemma registry_loop_total:
  assumes "base + max_offset + 2 \<le> length mem"
  shows "\<exists>r. registry_loop mem base max_offset service instance n offset = Inr r \<and>
    4 * length r \<le> max_offset"
proof (induction n arbitrary: offset)
  case (Suc n)
  show ?case
  proof (cases "offset + 16 \<le> max_offset")
    case True
    let ?k = "unat (be32 (mem ! (base + offset + 14)) (mem ! (base + offset + 15))
      (mem ! (base + offset + 16)) (mem ! (base + offset + 17)))"
    have b: "base + max_offset \<le> length mem" using assms by simp
    obtain r where "endpoint_loop mem base max_offset ?k (offset + 18) = Inr r"
      "4 * length r \<le> max_offset - (offset + 18)"
      using endpoint_loop_total [OF b] by blast
    moreover obtain o' where "skip_loop mem base max_offset ?k (offset + 18) = Inr o'"
      using skip_loop_total [OF b] by blast
    ultimately show ?thesis
      using True assms Suc.IH [of o'] by (auto simp: rd16_ok rd32_ok Let_def ac_simps)
  qed simp
qed simp

text \<open> C25: how far a lookup reads. With a registry of at least four bytes,
  \<open>lookup_service_endpoints\<close> never reads outside the memory if two more bytes follow the
  registry, whatever the daemon, or anybody else, has written into it, and returns at most one
  endpoint for each four bytes. The two bytes are needed: an entry is admitted if 16 bytes are
  left although 18 are read, so with a registry that ends with the memory the lookup can fault. \<close>
theorem lookup_service_endpoints_bounded:
  assumes "sa_connected st" and "sa_data st = Some mem" and "36 \<le> length mem"
    and "sr = unat (obj32 le mem 28)" and "sz = unat (obj32 le mem 32)" and "4 \<le> sz"
    and "sr + sz \<le> length mem"
  shows "(sr + sz + 2 \<le> length mem \<longrightarrow>
      (\<exists>r. lookup_service_endpoints le True service instance st = Inr (r, [Shm_lock, Shm_unlock]) \<and>
         4 * length r \<le> sz)) \<and>
    (length mem = sr + sz \<and> sz = 20 \<and> 0 < obj32 le mem sr \<longrightarrow>
      lookup_service_endpoints le True service instance st = Inl Out_of_bounds)"
proof -
  have sub: "size_sub sz 4 = sz - 4"
    using unat_u32_less [of "obj32 le mem 32"] assms(5,6)
    by (subst size_sub_small) (simp_all add: size_max_def)
  let ?n = "unat (obj32 le mem sr)"
  have eq: "lookup_service_endpoints le True service instance st =
      rbind (registry_loop mem (sr + 4) (sz - 4) service instance ?n 0) (\<lambda>result.
        Inr (result, [Shm_lock, Shm_unlock]))"
    using assms(1-3,6,7) by (simp add: lookup_service_endpoints_def rd_obj32_ok
        assms(4,5) [symmetric] sub)
  have safe: "\<exists>r. lookup_service_endpoints le True service instance st = Inr (r, [Shm_lock, Shm_unlock]) \<and>
      4 * length r \<le> sz" if "sr + sz + 2 \<le> length mem"
  proof -
    have "sr + 4 + (sz - 4) + 2 \<le> length mem" using that assms(6) by simp
    from registry_loop_total [OF this] obtain r where
      "registry_loop mem (sr + 4) (sz - 4) service instance ?n 0 = Inr r" "4 * length r \<le> sz - 4"
      by blast
    then show ?thesis by (simp add: eq)
  qed
  have fault: "lookup_service_endpoints le True service instance st = Inl Out_of_bounds"
    if h: "length mem = sr + sz" "sz = 20" "0 < obj32 le mem sr"
  proof -
    obtain n where "?n = Suc n" using h(3) by (metis Suc_pred unat_gt_0 word_neq_0_conv)
    then show ?thesis using h(1,2)
      by (simp add: eq rd16_ok rd32_def rd_def)
  qed
  show ?thesis using safe fault by blast
qed

theorem lookup_service_endpoints_bounded_witness:
  "\<exists>r. lookup_service_endpoints False True 0x1234 1
      (ShmAgent\<lparr>sa_data := Some (replicate 31 0 @ [36, 0, 0, 0, 20] @ replicate 22 0xFF),
        sa_connected := True\<rparr>) = Inr (r, [Shm_lock, Shm_unlock]) \<and> 4 * length r \<le> 20"
proof -
  let ?mem = "replicate 31 0 @ [36, 0, 0, 0, 20] @ replicate 22 (0xFF :: u8)"
  have words: "unat (obj32 False ?mem 28) = 36" "unat (obj32 False ?mem 32) = 20"
    by (simp_all add: obj32_def of_object32_def be32_def nth_append)
  have "36 + 20 \<le> length ?mem" "36 + 20 + 2 \<le> length ?mem" by simp_all
  then show ?thesis
    using lookup_service_endpoints_bounded [of
        "ShmAgent\<lparr>sa_data := Some ?mem, sa_connected := True\<rparr>" ?mem 36 False 20 "0x1234" 1] words
    by simp
qed

end
