(* ===== verification/Payload.thy ===== *)
theory Payload
  imports Types Interfaces
begin

text \<open>
  \<open>message/payload.h\<close> and \<open>message/payload.cpp\<close>: the byte vector with a read position,
  the \<open>append\<close> overloads and the \<open>get_\<dots>\<close> readers. A reader returns \<open>None\<close> where the code
  returns \<open>false\<close> and leaves its out-parameter alone. The room test of every reader adds on
  \<open>size_t\<close>, so it is written with the wrap-around of \<open>size_add\<close>.
\<close>

record payload =
  p_data :: bytes
  p_position :: nat

definition payload_empty :: payload where
  "payload_empty = \<lparr>p_data = [], p_position = 0\<rparr>"

definition payload_of :: "bytes \<Rightarrow> payload" where
  "payload_of bs = \<lparr>p_data = bs, p_position = 0\<rparr>"

text \<open>The copying constructor, over the memory from \<open>data\<close> on.\<close>

definition payload_from :: "bytes \<Rightarrow> nat \<Rightarrow> fault + payload" where
  "payload_from data n = rbind (rd_slice data 0 n) (\<lambda>bs. Inr (payload_of bs))"

definition payload_size :: "payload \<Rightarrow> nat" where
  "payload_size p = length (p_data p)"

text \<open>\<open>vector::max_size\<close> keeps the length below \<open>2 ^ 63\<close>; the position stays inside.\<close>

definition payload_ok :: "payload \<Rightarrow> bool" where
  "payload_ok p \<longleftrightarrow> p_position p \<le> length (p_data p) \<and> length (p_data p) < 2 ^ 63"

section \<open>Appending\<close>

definition append_bytes :: "bytes \<Rightarrow> payload \<Rightarrow> payload" where
  "append_bytes bs p = p\<lparr>p_data := p_data p @ bs\<rparr>"

definition append_u8 :: "u8 \<Rightarrow> payload \<Rightarrow> payload" where
  "append_u8 v p = append_bytes [v] p"

definition append_u16 :: "u16 \<Rightarrow> bool \<Rightarrow> payload \<Rightarrow> payload" where
  "append_u16 v big_endian p =
     (if big_endian then append_bytes [ucast (drop_bit 8 v), ucast (v AND 0xFF)] p
      else append_bytes [ucast (v AND 0xFF), ucast (drop_bit 8 v)] p)"

definition append_u32 :: "u32 \<Rightarrow> bool \<Rightarrow> payload \<Rightarrow> payload" where
  "append_u32 v big_endian p =
     (if big_endian then
        append_bytes [ucast (drop_bit 24 v), ucast (drop_bit 16 v), ucast (drop_bit 8 v),
                      ucast (v AND 0xFF)] p
      else
        append_bytes [ucast (v AND 0xFF), ucast (drop_bit 8 v), ucast (drop_bit 16 v),
                      ucast (drop_bit 24 v)] p)"

text \<open>The loops \<open>for (i = 7; i >= 0; --i)\<close> and \<open>for (i = 0; i < 8; ++i)\<close>.\<close>

definition append_u64 :: "u64 \<Rightarrow> bool \<Rightarrow> payload \<Rightarrow> payload" where
  "append_u64 v big_endian p =
     fold (\<lambda>i. append_bytes [ucast (drop_bit (i * 8) v)])
       (if big_endian then rev [0..<8] else [0..<8]) p"

section \<open>Reading\<close>

definition set_position :: "nat \<Rightarrow> payload \<Rightarrow> payload" where
  "set_position pos p = (if pos \<le> length (p_data p) then p\<lparr>p_position := pos\<rparr> else p)"

text \<open>The test \<open>position_ + n > data_.size()\<close> fails.\<close>

definition room :: "payload \<Rightarrow> nat \<Rightarrow> bool" where
  "room p n \<longleftrightarrow> size_add (p_position p) n \<le> length (p_data p)"

definition advance :: "nat \<Rightarrow> payload \<Rightarrow> payload" where
  "advance n p = p\<lparr>p_position := size_add (p_position p) n\<rparr>"

definition get_u8 :: "payload \<Rightarrow> fault + (u8 option \<times> payload)" where
  "get_u8 p =
     (if length (p_data p) \<le> p_position p then Inr (None, p)
      else rbind (rd (p_data p) (p_position p)) (\<lambda>v. Inr (Some v, advance 1 p)))"

definition get_u16 :: "bool \<Rightarrow> payload \<Rightarrow> fault + (u16 option \<times> payload)" where
  "get_u16 big_endian p =
     (if \<not> room p 2 then Inr (None, p)
      else rbind (rd (p_data p) (p_position p)) (\<lambda>a.
           rbind (rd (p_data p) (p_position p + 1)) (\<lambda>b.
             Inr (Some (if big_endian then push_bit 8 (ucast a) OR ucast b
                        else ucast a OR push_bit 8 (ucast b)), advance 2 p))))"

definition get_u32 :: "bool \<Rightarrow> payload \<Rightarrow> fault + (u32 option \<times> payload)" where
  "get_u32 big_endian p =
     (if \<not> room p 4 then Inr (None, p)
      else rbind (rd (p_data p) (p_position p)) (\<lambda>a.
           rbind (rd (p_data p) (p_position p + 1)) (\<lambda>b.
           rbind (rd (p_data p) (p_position p + 2)) (\<lambda>c.
           rbind (rd (p_data p) (p_position p + 3)) (\<lambda>d.
             Inr (Some
               (if big_endian then
                  push_bit 24 (ucast a) OR push_bit 16 (ucast b) OR push_bit 8 (ucast c)
                    OR ucast d
                else
                  ucast a OR push_bit 8 (ucast b) OR push_bit 16 (ucast c)
                    OR push_bit 24 (ucast d)), advance 4 p))))))"

text \<open>The two accumulation loops of \<open>get_uint64\<close>, over the loop counter.\<close>

fun get_u64_loop :: "bool \<Rightarrow> payload \<Rightarrow> nat list \<Rightarrow> u64 \<Rightarrow> fault + u64" where
  "get_u64_loop big_endian p [] value = Inr value"
| "get_u64_loop big_endian p (i # is) value =
     rbind (rd (p_data p) (p_position p + i)) (\<lambda>b.
       get_u64_loop big_endian p is
         (if big_endian then push_bit 8 value OR ucast b
          else value OR push_bit (i * 8) (ucast b)))"

definition get_u64 :: "bool \<Rightarrow> payload \<Rightarrow> fault + (u64 option \<times> payload)" where
  "get_u64 big_endian p =
     (if \<not> room p 8 then Inr (None, p)
      else rbind (get_u64_loop big_endian p [0..<8] 0) (\<lambda>v. Inr (Some v, advance 8 p)))"

definition get_bytes :: "nat \<Rightarrow> payload \<Rightarrow> fault + (bytes option \<times> payload)" where
  "get_bytes n p =
     (if \<not> room p n then Inr (None, p)
      else rbind (rd_slice (p_data p) (p_position p) n) (\<lambda>v. Inr (Some v, advance n p)))"

text \<open>
  \<open>get_string\<close> reads the length first; when the text does not fit it returns false with the
  position already behind the length.
\<close>

definition get_string :: "payload \<Rightarrow> fault + (bytes option \<times> payload)" where
  "get_string p =
     rbind (get_u32 True p) (\<lambda>(len, p').
       case len of None \<Rightarrow> Inr (None, p') | Some n \<Rightarrow> get_bytes (unat n) p')"

definition get_array :: "nat \<Rightarrow> payload \<Rightarrow> fault + (bytes option \<times> payload)" where
  "get_array n p = get_bytes n p"

definition clear :: "payload \<Rightarrow> payload" where
  "clear p = \<lparr>p_data = [], p_position = 0\<rparr>"

definition copy :: "payload \<Rightarrow> payload" where
  "copy p = payload_of (p_data p)"

text \<open>
  The template \<open>get_array_with_length<T>\<close>: the loop over the elements, each \<open>sizeof(T)\<close>
  bytes copied by \<open>memcpy\<close>; it returns false in the middle when the bytes run out.
\<close>

fun get_elements :: "nat \<Rightarrow> nat \<Rightarrow> payload \<Rightarrow> fault + (bytes list option \<times> payload)" where
  "get_elements size_T 0 p = Inr (Some [], p)"
| "get_elements size_T (Suc n) p =
     rbind (get_bytes size_T p) (\<lambda>(element, p').
       case element of None \<Rightarrow> Inr (None, p')
       | Some e \<Rightarrow> rbind (get_elements size_T n p') (\<lambda>(rest, p'').
           Inr (map_option (\<lambda>es. e # es) rest, p'')))"

definition get_array_with_length :: "nat \<Rightarrow> payload \<Rightarrow> fault + (bytes list option \<times> payload)" where
  "get_array_with_length size_T p =
     rbind (get_u32 True p) (\<lambda>(len, p').
       case len of None \<Rightarrow> Inr (None, p')
       | Some n \<Rightarrow> get_elements size_T (unat n div size_T) p')"

section \<open>Invariant\<close>

lemma payload_ok_empty [simp]: "payload_ok payload_empty"
  by (simp add: payload_ok_def payload_empty_def)

lemma payload_ok_of: "length bs < 2 ^ 63 \<Longrightarrow> payload_ok (payload_of bs)"
  by (simp add: payload_ok_def payload_of_def)

lemma payload_ok_append [inv_intros]:
  "payload_ok p \<Longrightarrow> length (p_data p) + length bs < 2 ^ 63 \<Longrightarrow> payload_ok (append_bytes bs p)"
  by (simp add: payload_ok_def append_bytes_def)

lemma payload_ok_set_position [inv_intros]: "payload_ok p \<Longrightarrow> payload_ok (set_position pos p)"
  by (simp add: payload_ok_def set_position_def)

text \<open>Without wrap-around the room test is the test it looks like, and \<open>advance\<close> an addition.\<close>

lemma room_iff:
  assumes "payload_ok p" and "n < 2 ^ 63"
  shows "room p n \<longleftrightarrow> p_position p + n \<le> length (p_data p)"
proof -
  have "p_position p + n < size_max"
    using assms by (simp add: payload_ok_def size_max_def)
  then show ?thesis by (simp add: room_def size_add_small)
qed

lemma advance_eq:
  assumes "payload_ok p" and "p_position p + n \<le> length (p_data p)"
  shows "advance n p = p\<lparr>p_position := p_position p + n\<rparr>"
proof -
  have "p_position p + n < size_max"
    using assms by (simp add: payload_ok_def size_max_def)
  then show ?thesis by (simp add: advance_def size_add_small)
qed

lemma payload_ok_advance [inv_intros]:
  "payload_ok p \<Longrightarrow> p_position p + n \<le> length (p_data p) \<Longrightarrow> payload_ok (advance n p)"
  by (simp add: advance_eq) (simp add: payload_ok_def)

section \<open>Fields written and read back\<close>

text \<open>
  The contract between an \<open>append\<close> and its reader: the writer adds the encoding of the value
  at the end, the reader, standing in front of that encoding, returns the value and stops
  behind it, and where fewer bytes are left it returns false and does not move.
\<close>

locale field_codec =
  fixes put :: "'v \<Rightarrow> payload \<Rightarrow> payload"
    and get :: "payload \<Rightarrow> fault + ('v option \<times> payload)"
    and enc :: "'v \<Rightarrow> bytes"
    and width :: nat
  assumes put_enc: "put v p = append_bytes (enc v) p"
    and enc_width: "length (enc v) = width"
    and get_enc: "payload_ok p \<Longrightarrow> p_data p = pre @ enc v @ post \<Longrightarrow> p_position p = length pre \<Longrightarrow>
      get p = Inr (Some v, p\<lparr>p_position := length pre + width\<rparr>)"
    and get_short: "payload_ok p \<Longrightarrow> length (p_data p) < p_position p + width \<Longrightarrow>
      get p = Inr (None, p)"
    and enc_surj: "length bs = width \<Longrightarrow> \<exists>v. bs = enc v"
begin

text \<open>A reader never faults, and its result depends only on the bytes left.\<close>

lemma get_cases:
  assumes ok: "payload_ok p"
  obtains (short) "length (p_data p) < p_position p + width" "get p = Inr (None, p)"
    | (full) v where "p_position p + width \<le> length (p_data p)"
        "take width (drop (p_position p) (p_data p)) = enc v"
        "get p = Inr (Some v, p\<lparr>p_position := p_position p + width\<rparr>)"
proof (cases "length (p_data p) < p_position p + width")
  case True
  then show thesis using get_short [OF ok True] short by blast
next
  case False
  let ?mid = "take width (drop (p_position p) (p_data p))"
  let ?pre = "take (p_position p) (p_data p)"
  have "length ?mid = width" using False by simp
  then obtain v where v: "?mid = enc v" using enc_surj by blast
  have "p_data p = ?pre @ ?mid @ drop width (drop (p_position p) (p_data p))"
    by (metis append_take_drop_id)
  then have "get p = Inr (Some v, p\<lparr>p_position := length ?pre + width\<rparr>)"
    using ok v by (intro get_enc) (auto simp: payload_ok_def)
  then show thesis using False v full ok by (simp add: payload_ok_def)
qed

lemma get_total: "payload_ok p \<Longrightarrow> \<exists>r n. get p = Inr (r, p\<lparr>p_position := n\<rparr>) \<and> n \<le> payload_size p"
  by (rule get_cases [of p])
     (auto simp: payload_ok_def payload_size_def intro: exI [of _ "p_position p"])

lemma get_after_put:
  "payload_ok (put v p) \<Longrightarrow> p_position p = length (p_data p) \<Longrightarrow>
     get (put v p) = Inr (Some v, (put v p)\<lparr>p_position := length (p_data p) + width\<rparr>)"
  by (rule get_enc [where pre = "p_data p" and post = "[]"])
     (auto simp: put_enc append_bytes_def)

end

text \<open>The encodings, and the readers stated over them.\<close>

definition enc_u16 :: "bool \<Rightarrow> u16 \<Rightarrow> bytes" where
  "enc_u16 big_endian v = (if big_endian then bytes16 v else rev (bytes16 v))"

definition enc_u32 :: "bool \<Rightarrow> u32 \<Rightarrow> bytes" where
  "enc_u32 big_endian v = (if big_endian then bytes32 v else rev (bytes32 v))"

definition enc_u64 :: "bool \<Rightarrow> u64 \<Rightarrow> bytes" where
  "enc_u64 big_endian v =
     map (\<lambda>i. ucast (drop_bit (i * 8) v)) (if big_endian then rev [0..<8] else [0..<8])"

definition dec_u64 :: "bool \<Rightarrow> bytes \<Rightarrow> u64" where
  "dec_u64 big_endian bs =
     (if big_endian then foldl (\<lambda>v b. push_bit 8 v OR ucast b) 0 bs
      else foldl (\<lambda>v (i, b). v OR push_bit (i * 8) (ucast b)) 0 (zip [0..<8] bs))"

lemma upt_8: "[0..<8] = [0, 1, 2, 3, 4, 5, 6, 7 :: nat]"
  by (simp add: upt_rec)

lemma enc_lengths [simp]:
  "length (enc_u16 e v) = 2" "length (enc_u32 e w) = 4" "length (enc_u64 e x) = 8"
  by (simp_all add: enc_u16_def enc_u32_def enc_u64_def)

lemma append_u64_enc: "append_u64 v e p = append_bytes (enc_u64 e v) p"
proof -
  have "fold (\<lambda>i. append_bytes [f i]) js p = append_bytes (map f js) p" for f js
    by (induction js arbitrary: p) (simp_all add: append_bytes_def)
  then show ?thesis by (simp only: append_u64_def enc_u64_def)
qed

lemma bytes_of_list:
  "length bs = 2 \<Longrightarrow> \<exists>v. bs = bytes16 v" "length bs = 4 \<Longrightarrow> \<exists>w. bs = bytes32 w"
proof -
  show "length bs = 2 \<Longrightarrow> \<exists>v. bs = bytes16 v"
    using bytes16_be16 by (auto simp: numeral_2_eq_2 length_Suc_conv) metis
  show "length bs = 4 \<Longrightarrow> \<exists>w. bs = bytes32 w"
    using bytes32_be32 by (auto simp: eval_nat_numeral length_Suc_conv) metis
qed

lemma dec_u64_bytes:
  "dec_u64 True [a, b, c, d, e, f, g, h] =
     push_bit 56 (ucast a) OR push_bit 48 (ucast b) OR push_bit 40 (ucast c) OR
     push_bit 32 (ucast d) OR push_bit 24 (ucast e) OR push_bit 16 (ucast f) OR
     push_bit 8 (ucast g) OR ucast h"
  "dec_u64 False [h, g, f, e, d, c, b, a] =
     push_bit 56 (ucast a) OR push_bit 48 (ucast b) OR push_bit 40 (ucast c) OR
     push_bit 32 (ucast d) OR push_bit 24 (ucast e) OR push_bit 16 (ucast f) OR
     push_bit 8 (ucast g) OR ucast h"
  by (simp_all add: dec_u64_def upt_8 push_bit_or ac_simps)

lemma bytes_length_8:
  assumes "length (bs :: bytes) = 8"
  obtains a b c d e f g h where "bs = [a, b, c, d, e, f, g, h]"
  using assms by (auto simp: eval_nat_numeral length_Suc_conv)

lemma enc_u64_dec: "length bs = 8 \<Longrightarrow> enc_u64 e (dec_u64 e bs) = bs"
  by (erule bytes_length_8, cases e)
    (auto simp: dec_u64_bytes enc_u64_def upt_8 bit_simps u8_no_high_bit intro!: bit_word_eqI)

lemma enc_u64_inj:
  assumes "enc_u64 e v = enc_u64 e w"
  shows "v = w"
proof (rule bit_word_eqI)
  fix n assume n: "n < LENGTH(64)"
  have byte: "(ucast (drop_bit (i * 8) v) :: u8) = ucast (drop_bit (i * 8) w)" if "i < 8" for i
    using assms that by (auto simp: enc_u64_def split: if_splits)
  have "bit x n = bit (ucast (drop_bit (n div 8 * 8) x) :: u8) (n mod 8)" for x :: u64
    using n by (simp add: bit_simps div_mult_mod_eq)
  with byte [of "n div 8"] n show "bit v n = bit w n"
    by simp
qed

lemma dec_u64_enc: "dec_u64 e (enc_u64 e v) = v"
  by (rule enc_u64_inj [of e]) (simp add: enc_u64_dec)

lemma be_le_forms:
  "push_bit 8 (ucast a) OR ucast b = be16 a b"
  "push_bit 24 (ucast a) OR push_bit 16 (ucast b) OR push_bit 8 (ucast c) OR ucast d =
     be32 a b c d"
  "ucast b OR push_bit 8 (ucast a) = be16 a b"
  "ucast d OR push_bit 8 (ucast c) OR push_bit 16 (ucast b) OR push_bit 24 (ucast a) =
     be32 a b c d"
  by (simp_all add: be16_def be32_def ac_simps)

interpretation f8: field_codec append_u8 get_u8 "\<lambda>v. [v]" 1
proof
  fix p pre post v
  assume "payload_ok p" "p_data p = pre @ [v] @ post" "p_position p = length pre"
  then show "get_u8 p = Inr (Some v, p\<lparr>p_position := length pre + 1\<rparr>)"
    by (simp add: get_u8_def rd_simps advance_eq)
qed (auto simp: append_u8_def get_u8_def length_Suc_conv)

interpretation f16: field_codec "\<lambda>v. append_u16 v e" "get_u16 e" "enc_u16 e" 2 for e
proof
  fix p pre post v
  assume p: "payload_ok p" "p_data p = pre @ enc_u16 e v @ post" "p_position p = length pre"
  then have "p_position p + 2 \<le> length (p_data p)" by simp
  then show "get_u16 e p = Inr (Some v, p\<lparr>p_position := length pre + 2\<rparr>)"
    using p by (simp add: get_u16_def room_iff advance_eq be_le_forms)
      (simp add: enc_u16_def bytes16_def rd_simps wire be_le_forms)
next
  fix bs :: bytes assume "length bs = 2"
  then have "length (if e then bs else rev bs) = 2" by simp
  then obtain v where "(if e then bs else rev bs) = bytes16 v"
    using bytes_of_list(1) by blast
  then show "\<exists>v. bs = enc_u16 e v"
    by (metis enc_u16_def rev_rev_ident)
qed (auto simp: append_u16_def enc_u16_def bytes16_def get_u16_def room_iff)

interpretation f32: field_codec "\<lambda>v. append_u32 v e" "get_u32 e" "enc_u32 e" 4 for e
proof
  fix p pre post v
  assume p: "payload_ok p" "p_data p = pre @ enc_u32 e v @ post" "p_position p = length pre"
  then have "p_position p + 4 \<le> length (p_data p)" by simp
  then show "get_u32 e p = Inr (Some v, p\<lparr>p_position := length pre + 4\<rparr>)"
    using p by (simp add: get_u32_def room_iff advance_eq be_le_forms)
      (simp add: enc_u32_def bytes32_def rd_simps wire be_le_forms)
next
  fix bs :: bytes assume "length bs = 4"
  then have "length (if e then bs else rev bs) = 4" by simp
  then obtain v where "(if e then bs else rev bs) = bytes32 v"
    using bytes_of_list(2) by blast
  then show "\<exists>v. bs = enc_u32 e v"
    by (metis enc_u32_def rev_rev_ident)
qed (auto simp: append_u32_def enc_u32_def bytes32_def get_u32_def room_iff)

lemma get_u64_loop_dec:
  assumes "p_data p = pre @ bs @ post" and "p_position p = length pre" and "length bs = 8"
  shows "get_u64_loop e p [0..<8] 0 = Inr (dec_u64 e bs)"
proof -
  obtain b0 b1 b2 b3 b4 b5 b6 b7 where bs: "bs = [b0, b1, b2, b3, b4, b5, b6, b7]"
    using assms(3) by (rule bytes_length_8)
  show ?thesis
    by (simp add: upt_8 assms(1,2) bs rd_simps dec_u64_def)
qed

interpretation f64: field_codec "\<lambda>v. append_u64 v e" "get_u64 e" "enc_u64 e" 8 for e
proof
  fix p pre post v
  assume p: "payload_ok p" "p_data p = pre @ enc_u64 e v @ post" "p_position p = length pre"
  then have "p_position p + 8 \<le> length (p_data p)" by simp
  then show "get_u64 e p = Inr (Some v, p\<lparr>p_position := length pre + 8\<rparr>)"
    using p by (simp add: get_u64_def room_iff advance_eq get_u64_loop_dec [OF p(2,3)] dec_u64_enc
        del: upt.simps)
next
  fix bs :: bytes assume "length bs = 8"
  then show "\<exists>v. bs = enc_u64 e v"
    using enc_u64_dec by metis
qed (auto simp: append_u64_enc get_u64_def room_iff)

text \<open>\<open>get_bytes\<close> with the count the caller gives.\<close>

lemma get_bytes_enc:
  assumes "payload_ok p" and "p_data p = pre @ bs @ post" and "p_position p = length pre"
  shows "get_bytes (length bs) p = Inr (Some bs, p\<lparr>p_position := length pre + length bs\<rparr>)"
proof -
  have "length bs < 2 ^ 63"
    using assms by (simp add: payload_ok_def)
  then show ?thesis
    using assms by (simp add: get_bytes_def room_iff rd_slice_def advance_eq)
qed

lemma get_bytes_short:
  "payload_ok p \<Longrightarrow> n < 2 ^ 63 \<Longrightarrow> length (p_data p) < p_position p + n \<Longrightarrow>
     get_bytes n p = Inr (None, p)"
  by (simp add: get_bytes_def room_iff)

lemma get_bytes_total:
  assumes "payload_ok p" and "n < 2 ^ 63"
  shows "\<exists>r m. get_bytes n p = Inr (r, p\<lparr>p_position := m\<rparr>) \<and> m \<le> payload_size p"
proof (cases "length (p_data p) < p_position p + n")
  case True
  then show ?thesis using assms
    by (auto simp: get_bytes_short payload_size_def payload_ok_def intro: exI [of _ "p_position p"])
next
  case False
  then show ?thesis
    using assms
    by (auto simp: get_bytes_def room_iff rd_slice_def advance_eq payload_size_def
        intro: exI [of _ "p_position p + n"])
qed

lemma get_string_total:
  assumes ok: "payload_ok p"
  shows "\<exists>r m. get_string p = Inr (r, p\<lparr>p_position := m\<rparr>) \<and> m \<le> payload_size p"
proof -
  obtain r n where g: "get_u32 True p = Inr (r, p\<lparr>p_position := n\<rparr>)" "n \<le> payload_size p"
    using f32.get_total [OF ok] by blast
  show ?thesis
  proof (cases r)
    case None
    then show ?thesis using g by (auto simp: get_string_def)
  next
    case (Some w)
    have "payload_ok (p\<lparr>p_position := n\<rparr>)"
      using ok g(2) by (simp add: payload_ok_def payload_size_def)
    moreover have "unat w < 2 ^ 63"
      using unat_u32_less [of w] by simp
    ultimately show ?thesis
      using get_bytes_total [of "p\<lparr>p_position := n\<rparr>" "unat w"] g Some
      by (auto simp: get_string_def payload_size_def)
  qed
qed

section \<open>Records of mixed fields\<close>

text \<open>
  A caller serializes a record field by field with the \<open>append\<close> overloads and reads it back
  with the matching readers. A string is its length followed by its bytes, as
  \<open>get_string\<close> expects it.
\<close>

datatype field =
    F8 u8 | F16 bool u16 | F32 bool u32 | F64 bool u64 | FBytes bytes | FString bytes

datatype kind = K8 | K16 bool | K32 bool | K64 bool | KBytes nat | KString

fun kind_of :: "field \<Rightarrow> kind" where
  "kind_of (F8 v) = K8"
| "kind_of (F16 e v) = K16 e"
| "kind_of (F32 e v) = K32 e"
| "kind_of (F64 e v) = K64 e"
| "kind_of (FBytes bs) = KBytes (length bs)"
| "kind_of (FString bs) = KString"

fun append_field :: "field \<Rightarrow> payload \<Rightarrow> payload" where
  "append_field (F8 v) p = append_u8 v p"
| "append_field (F16 e v) p = append_u16 v e p"
| "append_field (F32 e v) p = append_u32 v e p"
| "append_field (F64 e v) p = append_u64 v e p"
| "append_field (FBytes bs) p = append_bytes bs p"
| "append_field (FString bs) p = append_bytes bs (append_u32 (of_nat (length bs)) True p)"

definition got :: "('v \<Rightarrow> field) \<Rightarrow> fault + ('v option \<times> payload) \<Rightarrow> fault + (field option \<times> payload)" where
  "got mk r = rbind r (\<lambda>(v, p). Inr (map_option mk v, p))"

fun get_field :: "kind \<Rightarrow> payload \<Rightarrow> fault + (field option \<times> payload)" where
  "get_field K8 p = got F8 (get_u8 p)"
| "get_field (K16 e) p = got (F16 e) (get_u16 e p)"
| "get_field (K32 e) p = got (F32 e) (get_u32 e p)"
| "get_field (K64 e) p = got (F64 e) (get_u64 e p)"
| "get_field (KBytes n) p = got FBytes (get_bytes n p)"
| "get_field KString p = got FString (get_string p)"

fun get_fields :: "kind list \<Rightarrow> payload \<Rightarrow> fault + (field list option \<times> payload)" where
  "get_fields [] p = Inr (Some [], p)"
| "get_fields (k # ks) p =
     rbind (get_field k p) (\<lambda>(f, p').
       case f of None \<Rightarrow> Inr (None, p')
       | Some f' \<Rightarrow> rbind (get_fields ks p') (\<lambda>(fs, p'').
           Inr (map_option (\<lambda>gs. f' # gs) fs, p'')))"

fun enc_field :: "field \<Rightarrow> bytes" where
  "enc_field (F8 v) = [v]"
| "enc_field (F16 e v) = enc_u16 e v"
| "enc_field (F32 e v) = enc_u32 e v"
| "enc_field (F64 e v) = enc_u64 e v"
| "enc_field (FBytes bs) = bs"
| "enc_field (FString bs) = bytes32 (of_nat (length bs)) @ bs"

fun field_ok :: "field \<Rightarrow> bool" where
  "field_ok (FString bs) \<longleftrightarrow> length bs < 2 ^ 32"
| "field_ok f \<longleftrightarrow> True"

lemma append_field_enc: "append_field f p = append_bytes (enc_field f) p"
  by (cases f)
     (simp_all add: f8.put_enc f16.put_enc f32.put_enc f64.put_enc enc_u32_def append_bytes_def)

lemma fold_append_field:
  "fold append_field fs p = append_bytes (concat (map enc_field fs)) p"
  by (induction fs arbitrary: p) (simp_all add: append_field_enc append_bytes_def)

lemma get_string_enc:
  assumes ok: "payload_ok p" and len: "length bs < 2 ^ 32"
    and data: "p_data p = pre @ bytes32 (of_nat (length bs)) @ bs @ post"
    and pos: "p_position p = length pre"
  shows "get_string p = Inr (Some bs, p\<lparr>p_position := length pre + 4 + length bs\<rparr>)"
proof -
  let ?q = "p\<lparr>p_position := length pre + 4\<rparr>"
  have n: "unat (of_nat (length bs) :: u32) = length bs"
    using len by simp
  have "get_u32 True p = Inr (Some (of_nat (length bs)), ?q)"
    by (rule f32.get_enc [OF ok _ pos]) (simp add: data enc_u32_def)
  moreover have "get_bytes (length bs) ?q
      = Inr (Some bs, ?q\<lparr>p_position := length (pre @ bytes32 (of_nat (length bs))) + length bs\<rparr>)"
    by (rule get_bytes_enc [where post = post]) (use ok data in \<open>auto simp: payload_ok_def\<close>)
  ultimately show ?thesis
    by (simp add: get_string_def n)
qed

lemma get_field_enc:
  assumes "payload_ok p" and "field_ok f" and "p_data p = pre @ enc_field f @ post"
    and "p_position p = length pre"
  shows "get_field (kind_of f) p =
     Inr (Some f, p\<lparr>p_position := length pre + length (enc_field f)\<rparr>)"
  using assms
  by (cases f)
     (simp_all add: got_def f8.get_enc f16.get_enc f32.get_enc f64.get_enc get_bytes_enc
        get_string_enc [where pre = pre and post = post])

lemma get_fields_enc:
  assumes "payload_ok p" and "\<forall>f \<in> set fs. field_ok f"
    and "p_data p = pre @ concat (map enc_field fs)" and "p_position p = length pre"
  shows "get_fields (map kind_of fs) p =
     Inr (Some fs, p\<lparr>p_position := length (p_data p)\<rparr>)"
  using assms
proof (induction fs arbitrary: p pre)
  case Nil
  then show ?case by simp
next
  case (Cons f fs)
  let ?q = "p\<lparr>p_position := length (pre @ enc_field f)\<rparr>"
  have f: "get_field (kind_of f) p = Inr (Some f, ?q)"
    using get_field_enc [OF Cons.prems(1), of f pre "concat (map enc_field fs)"] Cons.prems
    by simp
  have "get_fields (map kind_of fs) ?q = Inr (Some fs, ?q\<lparr>p_position := length (p_data ?q)\<rparr>)"
    by (rule Cons.IH [where pre = "pre @ enc_field f"])
       (use Cons.prems in \<open>auto simp: payload_ok_def\<close>)
  with f show ?case by simp
qed

fun kind_ok :: "kind \<Rightarrow> bool" where
  "kind_ok (KBytes n) \<longleftrightarrow> n < 2 ^ 63"
| "kind_ok k \<longleftrightarrow> True"

lemma got_total:
  "\<exists>r n. g = Inr (r, p\<lparr>p_position := n\<rparr>) \<and> n \<le> payload_size p \<Longrightarrow>
     \<exists>r n. got mk g = Inr (r, p\<lparr>p_position := n\<rparr>) \<and> n \<le> payload_size p"
  by (auto simp: got_def)

lemma get_field_total:
  "payload_ok p \<Longrightarrow> kind_ok k \<Longrightarrow>
     \<exists>r n. get_field k p = Inr (r, p\<lparr>p_position := n\<rparr>) \<and> n \<le> payload_size p"
  by (cases k)
     (simp_all add: got_total f8.get_total f16.get_total f32.get_total f64.get_total
        get_bytes_total get_string_total)

definition write_record :: "field list \<Rightarrow> payload" where
  "write_record fs = fold append_field fs payload_empty"

lemma write_record_eq: "write_record fs = payload_of (concat (map enc_field fs))"
  by (simp add: write_record_def fold_append_field payload_empty_def payload_of_def
      append_bytes_def)

section \<open>Properties\<close>

text \<open> A record of any mix of fields (integers of each width in either byte order, byte runs and
  length-prefixed strings) appended to an empty payload is read back field by field unchanged,
  and the read position ends at the end of the payload.
\<close>

theorem payload_fields_roundtrip:
  assumes "\<forall>f \<in> set fs. field_ok f" and "length (concat (map enc_field fs)) < 2 ^ 63"
  shows "get_fields (map kind_of fs) (write_record fs) =
     Inr (Some fs, (write_record fs)\<lparr>p_position := payload_size (write_record fs)\<rparr>)"
proof -
  have "payload_ok (write_record fs)"
    using assms(2) by (simp only: write_record_eq payload_ok_of)
  then show ?thesis
    unfolding payload_size_def
    by (rule get_fields_enc [where pre = "[]"])
       (use assms(1) in \<open>simp_all add: write_record_eq payload_of_def\<close>)
qed

theorem payload_fields_roundtrip_witness:
  "get_fields [K16 True, KString, K64 False]
     (write_record [F16 True 0x1234, FString [0x68, 0x69], F64 False 7]) =
   Inr (Some [F16 True 0x1234, FString [0x68, 0x69], F64 False 7],
     (write_record [F16 True 0x1234, FString [0x68, 0x69], F64 False 7])
       \<lparr>p_position := 16\<rparr>)"
proof -
  let ?fs = "[F16 True 0x1234, FString [0x68, 0x69], F64 False 7]"
  have "length (concat (map enc_field ?fs)) = 16"
    by simp
  then show ?thesis
    using payload_fields_roundtrip [of ?fs]
    by (simp add: payload_size_def write_record_eq payload_of_def del: enc_field.simps)
qed

text \<open> \<open>get_bytes\<close> (and so \<open>get_array\<close>) leaves the buffer exactly when the requested count
  wraps the \<open>size_t\<close> sum around: on every well-formed payload it reads out of bounds if and
  only if position plus count reaches \<open>2 ^ 64\<close>; otherwise it returns the next bytes when they
  are all there and returns false without moving when they are not.
\<close>

theorem get_bytes_branches:
  assumes ok: "payload_ok p" and n: "n < size_max"
  shows "get_bytes n p =
    (if size_max \<le> p_position p + n then Inl Out_of_bounds
     else if p_position p + n \<le> length (p_data p)
       then Inr (Some (take n (drop (p_position p) (p_data p))),
                 p\<lparr>p_position := p_position p + n\<rparr>)
     else Inr (None, p))"
proof (cases "size_max \<le> p_position p + n")
  case True
  have pos: "p_position p < size_max" and len: "length (p_data p) < size_max"
    using ok by (auto simp: payload_ok_def size_max_def)
  have "size_add (p_position p) n = p_position p + n - size_max"
    using True pos n by (simp add: size_add_def mod_if)
  moreover have "p_position p + n - size_max \<le> length (p_data p)"
    using ok n unfolding payload_ok_def by linarith
  ultimately have "room p n"
    by (simp add: room_def)
  then show ?thesis
    using True len by (simp add: get_bytes_def rd_slice_def)
next
  case False
  then have "size_add (p_position p) n = p_position p + n"
    by (simp add: size_add_small)
  then show ?thesis
    using False by (simp add: get_bytes_def room_def advance_def rd_slice_def)
qed

theorem get_bytes_branches_witness:
  "get_bytes (2 ^ 64 - 1) (payload_of [1, 2]\<lparr>p_position := 1\<rparr>) = Inl Out_of_bounds"
  using get_bytes_branches [of "payload_of [1, 2]\<lparr>p_position := 1\<rparr>" "2 ^ 64 - 1"]
  by (simp add: payload_ok_def payload_of_def size_max_def)

text \<open> Whatever sequence of typed reads a caller performs on a well-formed payload, with any
  bytes in it, no read leaves the buffer, the data are not changed, and the read position
  never passes the end (the byte counts asked for stay below \<open>2 ^ 63\<close>).
\<close>

theorem payload_reads_safe:
  assumes "payload_ok p" and "\<forall>k \<in> set ks. kind_ok k"
  shows "\<exists>r n. get_fields ks p = Inr (r, p\<lparr>p_position := n\<rparr>) \<and> n \<le> payload_size p"
  using assms
proof (induction ks arbitrary: p)
  case Nil
  then show ?case
    by (auto simp: payload_ok_def payload_size_def intro: exI [of _ "p_position p"])
next
  case (Cons k ks)
  obtain f n where f: "get_field k p = Inr (f, p\<lparr>p_position := n\<rparr>)" "n \<le> payload_size p"
    using get_field_total Cons.prems by fastforce
  have "payload_ok (p\<lparr>p_position := n\<rparr>)"
    using Cons.prems(1) f(2) by (simp add: payload_ok_def payload_size_def)
  then obtain r m where "get_fields ks (p\<lparr>p_position := n\<rparr>) = Inr (r, p\<lparr>p_position := m\<rparr>)"
      "m \<le> payload_size p"
    using Cons.IH [of "p\<lparr>p_position := n\<rparr>"] Cons.prems(2) by (auto simp: payload_size_def)
  with f show ?case
    by (cases f) auto
qed

theorem payload_reads_safe_witness:
  "\<exists>r n. get_fields [K8, KString, K32 True] (payload_of [1, 0, 0, 0, 9, 2, 3]) =
     Inr (r, payload_of [1, 0, 0, 0, 9, 2, 3]\<lparr>p_position := n\<rparr>)
       \<and> n \<le> payload_size (payload_of [1, 0, 0, 0, 9, 2, 3])"
  using payload_reads_safe [of "payload_of [1, 0, 0, 0, 9, 2, 3]" "[K8, KString, K32 True]"]
  by (simp add: payload_ok_def payload_of_def)

end
