(* ===== verification/Message.thy ===== *)
theory Message
  imports Payload
begin

text \<open>
  \<open>message/message.h\<close> and \<open>message/message.cpp\<close>: the SOME/IP message, its factories, the
  split identifiers, and the wire format. \<open>deserialize\<close> gets a buffer and the length its
  caller claims for it; every byte is read through a checked read, so that memory safety is
  a theorem. \<open>m_payload\<close> is the nullable \<open>PayloadPtr\<close>.
\<close>

definition HEADER_SIZE :: nat where
  "HEADER_SIZE = 16"

record message =
  m_service_id :: u16
  m_method_id :: u16
  m_client_id :: u16
  m_session_id :: u16
  m_protocol_version :: u8
  m_interface_version :: u8
  m_message_type :: message_type
  m_return_code :: return_code
  m_instance_id :: u16
  m_reliable :: bool
  m_payload :: "payload option"

text \<open>The default member initializers, run by every constructor.\<close>

definition new_message :: message where
  "new_message = \<lparr>m_service_id = 0, m_method_id = 0, m_client_id = 0, m_session_id = 0,
     m_protocol_version = ucast SOMEIP_PROTOCOL_VERSION,
     m_interface_version = ucast SOMEIP_INTERFACE_VERSION,
     m_message_type = REQUEST, m_return_code = E_OK,
     m_instance_id = 0xFFFF, m_reliable = False, m_payload = None\<rparr>"

definition create_request :: "u16 \<Rightarrow> u16 \<Rightarrow> u16 \<Rightarrow> u16 \<Rightarrow> bool \<Rightarrow> message" where
  "create_request service instance method client reliable =
     new_message\<lparr>m_service_id := service, m_instance_id := instance, m_method_id := method,
       m_client_id := client, m_message_type := REQUEST, m_reliable := reliable,
       m_payload := Some payload_empty\<rparr>"

definition create_notification :: "u16 \<Rightarrow> u16 \<Rightarrow> u16 \<Rightarrow> message" where
  "create_notification service instance event =
     new_message\<lparr>m_service_id := service, m_instance_id := instance,
       m_method_id := event OR 0x8000, m_message_type := NOTIFICATION,
       m_payload := Some payload_empty\<rparr>"

definition create_response :: "message \<Rightarrow> message" where
  "create_response request =
     new_message\<lparr>m_service_id := m_service_id request, m_instance_id := m_instance_id request,
       m_method_id := m_method_id request, m_client_id := m_client_id request,
       m_session_id := m_session_id request, m_message_type := RESPONSE,
       m_reliable := m_reliable request, m_payload := Some payload_empty\<rparr>"

definition create_error_response :: "message \<Rightarrow> return_code \<Rightarrow> message" where
  "create_error_response request code =
     (create_response request)\<lparr>m_message_type := ERROR, m_return_code := code\<rparr>"

section \<open>Header accessors\<close>

definition get_message_id :: "message \<Rightarrow> u32" where
  "get_message_id m = push_bit 16 (ucast (m_service_id m)) OR ucast (m_method_id m)"

definition set_message_id :: "u32 \<Rightarrow> message \<Rightarrow> message" where
  "set_message_id i m =
     m\<lparr>m_service_id := ucast (drop_bit 16 i), m_method_id := ucast (i AND 0xFFFF)\<rparr>"

definition get_request_id :: "message \<Rightarrow> u32" where
  "get_request_id m = push_bit 16 (ucast (m_client_id m)) OR ucast (m_session_id m)"

definition set_request_id :: "u32 \<Rightarrow> message \<Rightarrow> message" where
  "set_request_id i m =
     m\<lparr>m_client_id := ucast (drop_bit 16 i), m_session_id := ucast (i AND 0xFFFF)\<rparr>"

definition is_request :: "message \<Rightarrow> bool" where
  "is_request m \<longleftrightarrow> m_method_id m AND 0x8000 = 0"

definition is_event :: "message \<Rightarrow> bool" where
  "is_event m \<longleftrightarrow> m_method_id m AND 0x8000 \<noteq> 0"

definition is_request_type :: "message \<Rightarrow> bool" where
  "is_request_type m \<longleftrightarrow>
     m_message_type m = REQUEST \<or> m_message_type m = REQUEST_NO_RETURN \<or>
     m_message_type m = TP_REQUEST \<or> m_message_type m = TP_REQUEST_NO_RETURN"

definition is_response_type :: "message \<Rightarrow> bool" where
  "is_response_type m \<longleftrightarrow>
     m_message_type m = RESPONSE \<or> m_message_type m = TP_RESPONSE \<or>
     m_message_type m = ERROR \<or> m_message_type m = TP_ERROR"

definition is_tp_message :: "message \<Rightarrow> bool" where
  "is_tp_message m \<longleftrightarrow>
     m_message_type m = TP_REQUEST \<or> m_message_type m = TP_REQUEST_NO_RETURN \<or>
     m_message_type m = TP_NOTIFICATION \<or> m_message_type m = TP_RESPONSE \<or>
     m_message_type m = TP_ERROR"

definition set_payload :: "bytes \<Rightarrow> message \<Rightarrow> message" where
  "set_payload bs m = m\<lparr>m_payload := Some (payload_of bs)\<rparr>"

definition payload_bytes :: "message \<Rightarrow> bytes" where
  "payload_bytes m = (case m_payload m of None \<Rightarrow> [] | Some p \<Rightarrow> p_data p)"

definition get_length :: "message \<Rightarrow> u32" where
  "get_length m = (case m_payload m of None \<Rightarrow> 0 | Some p \<Rightarrow> of_nat (payload_size p))"

definition get_size :: "message \<Rightarrow> nat" where
  "get_size m = HEADER_SIZE + unat (get_length m)"

text \<open>The comparisons of \<open>is_valid\<close> are on the underlying bytes of the enumerators.\<close>

definition is_valid :: "message \<Rightarrow> bool" where
  "is_valid m \<longleftrightarrow>
     ucast (m_protocol_version m) = SOMEIP_PROTOCOL_VERSION \<and>
     (mt_byte (m_message_type m) \<le> mt_byte ERROR \<or>
      mt_byte TP_REQUEST \<le> mt_byte (m_message_type m))"

text \<open>
  A stream writes an integer in its base without leading zeros, \<open>std::hex\<close> with lower-case letters.
\<close>

definition digit :: "nat \<Rightarrow> char" where
  "digit d = char_of (if d < 10 then 48 + d else 87 + d)"

function stream_number :: "nat \<Rightarrow> nat \<Rightarrow> string" where
  "stream_number b n =
     (if b < 2 \<or> n < b then [digit n] else stream_number b (n div b) @ [digit (n mod b)])"
  by pat_completeness auto
termination
  by (relation "measure snd") auto

declare stream_number.simps [simp del]

definition to_string :: "message \<Rightarrow> string" where
  "to_string m =
     ''Message['' @ ''SID='' @ stream_number 16 (unat (m_service_id m)) @
     '',IID='' @ stream_number 16 (unat (m_instance_id m)) @
     '',MID='' @ stream_number 16 (unat (m_method_id m)) @
     '',CID='' @ stream_number 16 (unat (m_client_id m)) @
     '',SSID='' @ stream_number 16 (unat (m_session_id m)) @
     '',Type='' @ stream_number 16 (unat (mt_byte (m_message_type m))) @
     '',RC='' @ stream_number 16 (unat (rc_byte (m_return_code m))) @
     '',Len='' @ stream_number 10 (unat (get_length m)) @ '']''"

text \<open>What is written reads back, up to base 16.\<close>

definition read_number :: "nat \<Rightarrow> string \<Rightarrow> nat" where
  "read_number b s =
     foldl (\<lambda>n c. b * n + (if of_char c < (58 :: nat) then of_char c - 48 else of_char c - 87)) 0 s"

lemma read_stream_number: "2 \<le> b \<Longrightarrow> b \<le> 16 \<Longrightarrow> read_number b (stream_number b n) = n"
proof (induction b n rule: stream_number.induct)
  case (1 b n)
  have d: "k < 16 \<Longrightarrow> (of_char (digit k) :: nat) = (if k < 10 then 48 + k else 87 + k)" for k
    by (simp add: digit_def)
  show ?case
    using 1 d [of n] d [of "n mod b"] mod_less_divisor [of b n]
    by (subst stream_number.simps) (auto simp: read_number_def simp del: mod_less_divisor)
qed

section \<open>Wire format\<close>

definition serialize :: "message \<Rightarrow> bytes" where
  "serialize m =
     [ucast (drop_bit 8 (m_service_id m)), ucast (m_service_id m AND 0xFF),
      ucast (drop_bit 8 (m_method_id m)), ucast (m_method_id m AND 0xFF)] @
     (let payload_len = get_length m in
       [ucast (drop_bit 24 payload_len), ucast (drop_bit 16 payload_len),
        ucast (drop_bit 8 payload_len), ucast (payload_len AND 0xFF)]) @
     [ucast (drop_bit 8 (m_client_id m)), ucast (m_client_id m AND 0xFF),
      ucast (drop_bit 8 (m_session_id m)), ucast (m_session_id m AND 0xFF)] @
     [m_protocol_version m, m_interface_version m] @
     [mt_byte (m_message_type m), rc_byte (m_return_code m)] @
     (case m_payload m of None \<Rightarrow> [] | Some p \<Rightarrow> p_data p)"

definition deserialize :: "bytes \<Rightarrow> nat \<Rightarrow> fault + message option" where
  "deserialize data len =
     (if len < HEADER_SIZE then Inr None
      else
        rbind (rd16 data 0) (\<lambda>service. rbind (rd16 data 2) (\<lambda>method.
        rbind (rd32 data 4) (\<lambda>payload_length.
        rbind (rd16 data 8) (\<lambda>client. rbind (rd16 data 10) (\<lambda>session.
        rbind (rd data 12) (\<lambda>protocol. rbind (rd data 13) (\<lambda>interface_version.
        rbind (rd data 14) (\<lambda>mtype. rbind (rd data 15) (\<lambda>code.
          let msg = new_message\<lparr>m_service_id := service, m_method_id := method,
                m_client_id := client, m_session_id := session,
                m_protocol_version := protocol, m_interface_version := interface_version,
                m_message_type := mt_of_byte mtype, m_return_code := rc_of_byte code\<rparr>
          in
            if ucast protocol \<noteq> SOMEIP_PROTOCOL_VERSION then Inr None
            else if len < HEADER_SIZE + unat payload_length then Inr None
            else if 0 < payload_length then
              rbind (rd_slice data HEADER_SIZE (unat payload_length)) (\<lambda>payload_data.
                Inr (Some (msg\<lparr>m_payload := Some (payload_of payload_data)\<rparr>)))
            else Inr (Some (msg\<lparr>m_payload := Some payload_empty\<rparr>))))))))))))"

section \<open>What a datagram says\<close>

text \<open>The fields of a buffer of at least sixteen bytes, as the decoder reads them.\<close>

definition length_field :: "bytes \<Rightarrow> nat" where
  "length_field data = unat (be32 (data ! 4) (data ! 5) (data ! 6) (data ! 7))"

definition wire_message :: "bytes \<Rightarrow> message" where
  "wire_message data =
     new_message\<lparr>m_service_id := be16 (data ! 0) (data ! 1),
       m_method_id := be16 (data ! 2) (data ! 3),
       m_client_id := be16 (data ! 8) (data ! 9),
       m_session_id := be16 (data ! 10) (data ! 11),
       m_protocol_version := data ! 12, m_interface_version := data ! 13,
       m_message_type := mt_of_byte (data ! 14), m_return_code := rc_of_byte (data ! 15),
       m_payload := Some (payload_of (take (length_field data) (drop 16 data)))\<rparr>"

definition accepted :: "bytes \<Rightarrow> nat \<Rightarrow> bool" where
  "accepted data len \<longleftrightarrow> 16 \<le> len \<and> data ! 12 = 1 \<and> 16 + length_field data \<le> len"

lemma version_byte: "ucast (b :: u8) = SOMEIP_PROTOCOL_VERSION \<longleftrightarrow> b = 1"
proof
  assume "ucast b = SOMEIP_PROTOCOL_VERSION"
  then have "(ucast (ucast b :: u16) :: u8) = ucast (1 :: u16)"
    by (simp add: SOMEIP_PROTOCOL_VERSION_def)
  moreover have "(ucast (ucast b :: u16) :: u8) = b"
    by (rule bit_word_eqI) (simp add: bit_simps)
  ultimately show "b = 1" by simp
qed (simp add: SOMEIP_PROTOCOL_VERSION_def)

lemma deserialize_short: "len < 16 \<Longrightarrow> deserialize data len = Inr None"
  by (simp add: deserialize_def HEADER_SIZE_def)

lemma deserialize_eq:
  assumes "16 \<le> len \<Longrightarrow> 16 \<le> length data"
    and "accepted data len \<Longrightarrow> 16 + length_field data \<le> length data"
  shows "deserialize data len =
    (if accepted data len then Inr (Some (wire_message data)) else Inr None)"
proof (cases "16 \<le> len")
  case False
  then show ?thesis by (simp add: deserialize_short accepted_def)
next
  case True
  let ?n = "be32 (data ! 4) (data ! 5) (data ! 6) (data ! 7)"
  have len: "16 \<le> length data" using True assms by simp
  have zero: "take (unat ?n) (drop 16 data) = []" if "\<not> 0 < ?n"
    using that by (simp add: word_gt_0)
  show ?thesis
  proof (cases "0 < ?n")
    case True
    show ?thesis
      using len \<open>16 \<le> len\<close> assms(2) True
      by (simp add: deserialize_def HEADER_SIZE_def rd_simps version_byte accepted_def Let_def
          length_field_def wire_message_def)
  next
    case False
    show ?thesis
      using len \<open>16 \<le> len\<close> assms(2) False zero [OF False]
      by (simp add: deserialize_def HEADER_SIZE_def rd_simps version_byte accepted_def Let_def
          length_field_def wire_message_def payload_empty_def payload_of_def)
  qed
qed

section \<open>Round trip\<close>

text \<open>
  What of a message travels: everything but the instance and the reliability flag, which
  come out as the defaults, and a null payload, which comes out as an empty one.
\<close>

definition wire_view :: "message \<Rightarrow> message" where
  "wire_view m = m\<lparr>m_instance_id := 0xFFFF, m_reliable := False,
     m_payload := Some (payload_of (payload_bytes m))\<rparr>"

definition wire_ok :: "message \<Rightarrow> bool" where
  "wire_ok m \<longleftrightarrow> m_protocol_version m = 1 \<and> mt_ok (m_message_type m) \<and>
     rc_ok (m_return_code m) \<and> length (payload_bytes m) < 2 ^ 32"

lemma get_length_bytes: "get_length m = of_nat (length (payload_bytes m))"
  by (simp add: get_length_def payload_bytes_def payload_size_def split: option.splits)

lemma serialize_eq:
  "serialize m =
     bytes16 (m_service_id m) @ bytes16 (m_method_id m) @
     bytes32 (of_nat (length (payload_bytes m))) @
     bytes16 (m_client_id m) @ bytes16 (m_session_id m) @
     [m_protocol_version m, m_interface_version m, mt_byte (m_message_type m),
      rc_byte (m_return_code m)] @ payload_bytes m"
  by (simp add: serialize_def bytes16_def bytes32_def payload_bytes_def get_length_def
      payload_size_def Let_def split: option.splits)

lemma length_serialize: "length (serialize m) = 16 + length (payload_bytes m)"
  by (simp add: serialize_eq)

text \<open>The fields of a serialized message, whatever follows it.\<close>

lemma wire_message_serialize:
  assumes "wire_ok m"
  shows "wire_message (serialize m @ rest) = wire_view m"
    and "length_field (serialize m @ rest) = length (payload_bytes m)"
    and "(serialize m @ rest) ! 12 = 1"
proof -
  show len: "length_field (serialize m @ rest) = length (payload_bytes m)"
    using assms by (simp add: length_field_def serialize_eq bytes16_def bytes32_def be32_split wire_ok_def)
  show "(serialize m @ rest) ! 12 = 1"
    using assms by (simp add: serialize_eq bytes16_def bytes32_def wire_ok_def)
  have tk: "take (length (payload_bytes m)) (drop 16 (serialize m @ rest)) = payload_bytes m"
    by (simp add: serialize_eq bytes16_def bytes32_def)
  have "wire_message (serialize m @ rest) =
      (wire_message (serialize m @ rest))\<lparr>m_payload := Some (payload_of (payload_bytes m))\<rparr>"
    unfolding wire_message_def len tk by simp
  also have "\<dots> = wire_view m"
    using assms
    by (simp add: wire_message_def serialize_eq bytes16_def bytes32_def be16_split wire_ok_def
        mt_ok_def rc_ok_def new_message_def wire_view_def)
  finally show "wire_message (serialize m @ rest) = wire_view m" .
qed

interpretation msg_codec: prefix_codec serialize deserialize wire_view wire_ok
proof
  fix m len rest
  assume m: "wire_ok m" and len: "length (serialize m) \<le> len"
  show "deserialize (serialize m @ rest) len = Inr (Some (wire_view m))"
    using wire_message_serialize [OF m, of rest] len
    by (subst deserialize_eq) (auto simp: length_serialize accepted_def)
qed

section \<open>Properties\<close>

text \<open> C1: the SOME/IP wire format round-trips. A message with the supported protocol version and
  a payload below 4 GiB, serialized and followed by any other bytes, is decoded by
  \<open>Message::deserialize\<close> to the same message: every header field, the payload byte for byte;
  only the local routing data (instance, reliability) come back as their defaults. \<close>
theorem message_roundtrip:
  assumes "wire_ok m" and "length (serialize m) \<le> len"
  shows "deserialize (serialize m @ rest) len = Inr (Some (wire_view m))"
  using assms by (rule msg_codec.dec_enc)

definition sample_message :: message where
  "sample_message = (create_request 0x1234 1 0x0421 7 True)\<lparr>m_session_id := 0xBEEF,
     m_payload := Some (payload_of [1, 2, 3])\<rparr>"

lemma sample_message_ok: "wire_ok sample_message"
  by (simp add: sample_message_def wire_ok_def create_request_def new_message_def payload_bytes_def payload_of_def SOMEIP_PROTOCOL_VERSION_def)

lemma sample_message_length: "length (serialize sample_message) = 19"
  by (simp add: length_serialize sample_message_def payload_bytes_def payload_of_def)

theorem message_roundtrip_witness:
  "deserialize (serialize sample_message @ [0xFF]) 20 = Inr (Some (wire_view sample_message))"
  by (rule message_roundtrip [OF sample_message_ok]) (simp add: sample_message_length)

text \<open> C24: decoding is memory safe and total. With a length that does not exceed the buffer
  no read of \<open>Message::deserialize\<close> leaves the buffer, whatever the bytes say, and it accepts
  exactly the buffers of at least a header, of protocol version 1, whose length field fits
  in what was received; the message it returns is then the one the bytes spell. \<close>
theorem deserialize_total:
  assumes "len \<le> length data"
  shows "deserialize data len =
    (if accepted data len then Inr (Some (wire_message data)) else Inr None)"
  by (rule deserialize_eq) (use assms in \<open>auto simp: accepted_def\<close>)

theorem deserialize_total_witness:
  "deserialize (replicate 17 0) 17 = Inr None \<and>
   deserialize (replicate 12 0 @ [1, 0, 0, 0, 9]) 17 =
     Inr (Some (wire_message (replicate 12 0 @ [1, 0, 0, 0, 9])))"
  using deserialize_total [of 17 "replicate 17 0"]
    deserialize_total [of 17 "replicate 12 0 @ [1, 0, 0, 0, 9]"]
  by (simp add: accepted_def length_field_def be32_def numeral_eq_Suc)

text \<open>The message an accepted buffer spells is serialized back to the bytes it came from.\<close>

lemma serialize_wire_message:
  assumes "accepted data len" and "len \<le> length data"
  shows "wire_ok (wire_message data)"
    and "serialize (wire_message data) = take (16 + length_field data) data"
proof -
  let ?m = "wire_message data"
  have n: "16 + length_field data \<le> length data" and v: "data ! 12 = 1"
    using assms by (auto simp: accepted_def)
  have pl: "payload_bytes ?m = take (length_field data) (drop 16 data)"
    by (simp add: payload_bytes_def wire_message_def payload_of_def)
  have lp: "length (payload_bytes ?m) = length_field data" using n by (simp add: pl)
  have lt: "length_field data < 2 ^ 32"
    unfolding length_field_def by (rule unat_u32_less)
  show "wire_ok ?m"
    unfolding wire_ok_def lp using lt v by (simp add: wire_message_def mt_ok_def rc_ok_def)
  have "of_nat (length_field data) = be32 (data ! 4) (data ! 5) (data ! 6) (data ! 7)"
    by (simp add: length_field_def)
  then have hd: "serialize ?m = [data ! 0, data ! 1, data ! 2, data ! 3, data ! 4, data ! 5,
      data ! 6, data ! 7, data ! 8, data ! 9, data ! 10, data ! 11, data ! 12, data ! 13,
      data ! 14, data ! 15] @ take (length_field data) (drop 16 data)"
    unfolding serialize_eq lp unfolding pl by (simp add: wire_message_def bytes16_be16 bytes32_be32)
  have "take 16 data = map (\<lambda>i. data ! i) [0..<16]"
    using n by (intro nth_equalityI) auto
  also have "\<dots> = [data ! 0, data ! 1, data ! 2, data ! 3, data ! 4, data ! 5,
      data ! 6, data ! 7, data ! 8, data ! 9, data ! 10, data ! 11, data ! 12, data ! 13,
      data ! 14, data ! 15]"
    by (simp add: upt_conv_Cons numeral_eq_Suc)
  finally have "serialize ?m = take 16 data @ take (length_field data) (drop 16 data)"
    unfolding hd by simp
  then show "serialize ?m = take (16 + length_field data) data"
    by (simp add: take_add)
qed

text \<open> C40: decoding loses nothing. Whatever \<open>Message::deserialize\<close> accepts is serialized back
  to exactly the bytes the message occupied in the buffer, so a datagram can be forwarded
  from its decoded form, and the decoded message can itself be sent. \<close>
theorem deserialize_serialize:
  assumes "deserialize data len = Inr (Some m)" and "len \<le> length data"
  shows "wire_ok m \<and> serialize m = take (16 + length_field data) data"
proof -
  have "deserialize data len =
      (if accepted data len then Inr (Some (wire_message data)) else Inr None)"
    by (rule deserialize_eq) (use assms(2) in \<open>auto simp: accepted_def\<close>)
  then have "accepted data len" and "m = wire_message data"
    using assms(1) by (auto split: if_splits)
  then show ?thesis using serialize_wire_message assms(2) by blast
qed

lemma sample_bytes_decode:
  "deserialize (replicate 12 0 @ [1, 0, 0, 0, 9]) 17 =
     Inr (Some (wire_message (replicate 12 0 @ [1, 0, 0, 0, 9])))"
  by (subst deserialize_eq) (simp_all add: accepted_def length_field_def be32_def numeral_eq_Suc)

theorem deserialize_serialize_witness:
  "serialize (wire_message (replicate 12 0 @ [1, 0, 0, 0, 9])) =
     replicate 12 0 @ [1, 0, 0, 0]"
  using deserialize_serialize [OF sample_bytes_decode]
  by (simp add: length_field_def be32_def numeral_eq_Suc)

text \<open>The combined identifiers.\<close>

lemma mask_half: "(0xFFFF :: 'a::len word) = mask 16"
  by (simp add: mask_eq_exp_minus_1)

lemma split_u16_u32:
  "ucast (drop_bit 16 (push_bit 16 (ucast (a :: u16)) OR ucast (b :: u16) :: u32)) = a"
  "ucast ((push_bit 16 (ucast (a :: u16)) OR ucast (b :: u16) :: u32) AND 0xFFFF) = b"
  unfolding mask_half
  by (rule bit_word_eqI, auto simp: bit_simps u16_no_high_bit)+

lemma join_u16_u32:
  "push_bit 16 (ucast (ucast (drop_bit 16 (i :: u32)) :: u16)) OR
     ucast (ucast (i AND 0xFFFF) :: u16) = i"
  unfolding mask_half
  by (rule bit_word_eqI) (auto simp: bit_simps)

text \<open> An answer is addressed to the request it answers. \<open>create_response\<close> copies the
  message id, the request id (client and session) and the transport of the request; the
  peer that decodes the answer reads the same message and request ids, and classifies it
  as a response and not as a request. An error answer differs only in type and code. \<close>
theorem response_correlates:
  "deserialize (serialize (create_response r)) 16 = Inr (Some (wire_view (create_response r))) \<and>
   get_message_id (wire_view (create_response r)) = get_message_id r \<and>
   get_request_id (wire_view (create_response r)) = get_request_id r \<and>
   m_reliable (create_response r) = m_reliable r \<and>
   is_response_type (create_response r) \<and> \<not> is_request_type (create_response r) \<and>
   is_response_type (create_error_response r c) \<and>
   get_request_id (create_error_response r c) = get_request_id r \<and>
   get_message_id (create_error_response r c) = get_message_id r"
proof -
  have ok: "wire_ok (create_response r)"
    by (simp add: wire_ok_def create_response_def new_message_def payload_bytes_def payload_empty_def SOMEIP_PROTOCOL_VERSION_def)
  have "length (serialize (create_response r)) = 16"
    by (simp add: length_serialize payload_bytes_def create_response_def payload_empty_def)
  then have "deserialize (serialize (create_response r)) 16 =
      Inr (Some (wire_view (create_response r)))"
    using msg_codec.dec_enc [OF ok, of 16 "[]"] by simp
  then show ?thesis
    by (simp add: create_error_response_def create_response_def wire_view_def
        get_message_id_def get_request_id_def is_response_type_def is_request_type_def)
qed

text \<open> The 32-bit message and request ids and their 16-bit halves are two views of the
  same data: setting an id and reading it back gives the id, and setting what was read
  changes nothing. \<close>
theorem ids_roundtrip:
  "get_message_id (set_message_id i m) = i \<and> set_message_id (get_message_id m) m = m \<and>
   get_request_id (set_request_id i m) = i \<and> set_request_id (get_request_id m) m = m"
  unfolding get_message_id_def set_message_id_def get_request_id_def set_request_id_def
  by (simp add: split_u16_u32 join_u16_u32 del: drop_bit_or)

end
