(* ===== verification/Udp.thy ===== *)
theory Udp
  imports Message
begin

text \<open>
  \<open>transport/udp_transport.cpp\<close>, over an operating system that is a parameter: the record \<open>os\<close>
  has one field for each system call the two transports make, as a function of the state of
  the world \<open>'w\<close>. Results are those of the calls (a negative number is an error); addresses are
  their four bytes and ports are in host order, \<open>htons\<close> and \<open>ntohs\<close> cancelling out.
  A thread is modelled by the turns of its loop.
\<close>

section \<open>System calls\<close>

record 'w os =
  os_socket :: "bool \<Rightarrow> 'w \<Rightarrow> int \<times> 'w"
  os_reuseaddr :: "int \<Rightarrow> 'w \<Rightarrow> int \<times> 'w"
  os_add_membership :: "int \<Rightarrow> bytes \<Rightarrow> bytes \<Rightarrow> 'w \<Rightarrow> int \<times> 'w"
  os_bind :: "int \<Rightarrow> bytes \<Rightarrow> u16 \<Rightarrow> 'w \<Rightarrow> int \<times> 'w"
  os_getsockname :: "int \<Rightarrow> 'w \<Rightarrow> u16 option \<times> 'w"
  os_listen :: "int \<Rightarrow> int \<Rightarrow> 'w \<Rightarrow> int \<times> 'w"
  os_connect :: "int \<Rightarrow> bytes \<Rightarrow> u16 \<Rightarrow> 'w \<Rightarrow> int \<times> 'w"
  os_accept :: "int \<Rightarrow> 'w \<Rightarrow> (int \<times> bytes \<times> u16) \<times> 'w"
  os_shutdown :: "int \<Rightarrow> 'w \<Rightarrow> 'w"
  os_close :: "int \<Rightarrow> 'w \<Rightarrow> 'w"
  os_sendto :: "int \<Rightarrow> bytes \<Rightarrow> bytes \<Rightarrow> u16 \<Rightarrow> 'w \<Rightarrow> int \<times> 'w"
  os_send :: "int \<Rightarrow> bytes \<Rightarrow> 'w \<Rightarrow> int \<times> 'w"
  os_recvfrom :: "int \<Rightarrow> nat \<Rightarrow> 'w \<Rightarrow> (bytes \<times> bytes \<times> u16) option \<times> 'w"
  os_recv :: "int \<Rightarrow> nat \<Rightarrow> bool \<Rightarrow> 'w \<Rightarrow> bytes option \<times> 'w"
  os_pton :: "string \<Rightarrow> bytes option"
  os_ntop :: "bytes \<Rightarrow> string"

definition INADDR_ANY :: bytes where
  "INADDR_ANY = [0, 0, 0, 0]"

definition pton_or_any :: "'w os \<Rightarrow> string \<Rightarrow> bytes" where
  "pton_or_any os address = (case os_pton os address of None \<Rightarrow> INADDR_ANY | Some a \<Rightarrow> a)"

section \<open>State\<close>

record udp_transport =
  ut_socket_fd :: int
  ut_local_address :: string
  ut_local_port :: u16
  ut_running :: bool
  ut_message_callback :: "nat option"

datatype udp_action = Udp_message nat message string u16

definition UDP_MAX_MESSAGE_SIZE :: nat where
  "UDP_MAX_MESSAGE_SIZE = 65535"

definition UdpTransport :: udp_transport where
  "UdpTransport = \<lparr>ut_socket_fd = -1, ut_local_address = '''', ut_local_port = 0,
     ut_running = False, ut_message_callback = None\<rparr>"

section \<open>Operations\<close>

text \<open>\<open>init\<close>, with its three early returns; the descriptor of a failed one is closed.\<close>

definition udp_init ::
    "'w os \<Rightarrow> string \<Rightarrow> u16 \<Rightarrow> udp_transport \<Rightarrow> 'w \<Rightarrow> bool \<times> udp_transport \<times> 'w" where
  "udp_init os local_address port ut w =
     (let (fd, w) = os_socket os False w;
          ut = ut\<lparr>ut_socket_fd := fd\<rparr>
      in if fd < 0 then (False, ut, w)
         else
           let (r, w) = os_reuseaddr os fd w in
           if r < 0 then (False, ut\<lparr>ut_socket_fd := -1\<rparr>, os_close os fd w)
           else
             let (b, w) = os_bind os fd (pton_or_any os local_address) port w in
             if b < 0 then (False, ut\<lparr>ut_socket_fd := -1\<rparr>, os_close os fd w)
             else
               let (bound, w) = os_getsockname os fd w in
               (True, ut\<lparr>ut_local_port := (case bound of Some p \<Rightarrow> p | None \<Rightarrow> port),
                         ut_local_address := local_address\<rparr>, w))"

definition udp_join_multicast ::
    "'w os \<Rightarrow> string \<Rightarrow> string \<Rightarrow> udp_transport \<Rightarrow> 'w \<Rightarrow> bool \<times> 'w" where
  "udp_join_multicast os multicast_address interface_address ut w =
     (if ut_socket_fd ut < 0 then (False, w)
      else
        (case os_pton os multicast_address of
           None \<Rightarrow> (False, w)
         | Some multiaddr \<Rightarrow>
             let (r, w) = os_add_membership os (ut_socket_fd ut) multiaddr
                   (pton_or_any os interface_address) w
             in (\<not> r < 0, w)))"

definition udp_start :: "udp_transport \<Rightarrow> bool \<times> udp_transport" where
  "udp_start ut = (if ut_running ut then (False, ut) else (True, ut\<lparr>ut_running := True\<rparr>))"

definition udp_stop :: "'w os \<Rightarrow> udp_transport \<Rightarrow> 'w \<Rightarrow> udp_transport \<times> 'w" where
  "udp_stop os ut w =
     (ut\<lparr>ut_running := False\<rparr>,
      if 0 \<le> ut_socket_fd ut then os_shutdown os (ut_socket_fd ut) w else w)"

definition udp_send_bytes ::
    "'w os \<Rightarrow> bytes \<Rightarrow> string \<Rightarrow> u16 \<Rightarrow> udp_transport \<Rightarrow> 'w \<Rightarrow> bool \<times> 'w" where
  "udp_send_bytes os data address port ut w =
     (if ut_socket_fd ut < 0 then (False, w)
      else
        (case os_pton os address of
           None \<Rightarrow> (False, w)
         | Some a \<Rightarrow>
             let (sent, w) = os_sendto os (ut_socket_fd ut) data a port w
             in (sent = int (length data), w)))"

definition udp_send_to ::
    "'w os \<Rightarrow> message \<Rightarrow> string \<Rightarrow> u16 \<Rightarrow> udp_transport \<Rightarrow> 'w \<Rightarrow> bool \<times> 'w" where
  "udp_send_to os m address port ut w = udp_send_bytes os (serialize m) address port ut w"

definition udp_set_message_received_callback :: "nat option \<Rightarrow> udp_transport \<Rightarrow> udp_transport" where
  "udp_set_message_received_callback cb ut = ut\<lparr>ut_message_callback := cb\<rparr>"

text \<open>One turn of the receive thread: a datagram is decoded and handed over, or dropped.\<close>

definition udp_receive_turn ::
    "'w os \<Rightarrow> udp_transport \<Rightarrow> 'w \<Rightarrow> fault + udp_action list \<times> 'w" where
  "udp_receive_turn os ut w =
     (if \<not> ut_running ut then Inr ([], w)
      else
        (case os_recvfrom os (ut_socket_fd ut) UDP_MAX_MESSAGE_SIZE w of
           (None, w) \<Rightarrow> Inr ([], w)
         | (Some (data, sender, port), w) \<Rightarrow>
             (case ut_message_callback ut of
                None \<Rightarrow> Inr ([], w)
              | Some cb \<Rightarrow>
                  if data = [] then Inr ([], w)
                  else rbind (deserialize data (length data)) (\<lambda>msg.
                    Inr (case msg of None \<Rightarrow> ([], w)
                      | Some m \<Rightarrow> ([Udp_message cb m (os_ntop os sender) port], w))))))"

section \<open>Properties\<close>

text \<open>\<open>recvfrom\<close> gives the next datagram of a queue, cut to the size of the buffer.\<close>

definition queue_recvfrom ::
    "'w os \<Rightarrow> int \<Rightarrow> ('w \<Rightarrow> (bytes \<times> bytes \<times> u16) list) \<Rightarrow> bool" where
  "queue_recvfrom os fd queue \<longleftrightarrow>
     (\<forall>n w. case queue w of
        [] \<Rightarrow> True
      | (d, a, p) # q \<Rightarrow> \<exists>w'. os_recvfrom os fd n w = (Some (take n d, a, p), w') \<and> queue w' = q)"

fun udp_receive_turns ::
    "'w os \<Rightarrow> udp_transport \<Rightarrow> nat \<Rightarrow> 'w \<Rightarrow> fault + udp_action list \<times> 'w" where
  "udp_receive_turns os ut 0 w = Inr ([], w)"
| "udp_receive_turns os ut (Suc n) w =
     rbind (udp_receive_turn os ut w) (\<lambda>(actions, w).
     rbind (udp_receive_turns os ut n w) (\<lambda>(actions', w). Inr (actions @ actions', w)))"

text \<open>What a datagram is worth to the receiver, as one decoded message or nothing.\<close>

definition datagram_actions :: "'w os \<Rightarrow> nat \<Rightarrow> bytes \<times> bytes \<times> u16 \<Rightarrow> udp_action list" where
  "datagram_actions os cb = (\<lambda>(d, a, p). let d' = take UDP_MAX_MESSAGE_SIZE d in
     if accepted d' (length d') then [Udp_message cb (wire_message d') (os_ntop os a) p] else [])"

lemma udp_receive_turns_eq:
  assumes "queue_recvfrom os (ut_socket_fd ut) queue" and "ut_running ut"
    and "ut_message_callback ut = Some cb" and "n \<le> length (queue w)"
  shows "\<exists>w'. udp_receive_turns os ut n w =
    Inr (concat (map (datagram_actions os cb) (take n (queue w))), w') \<and> queue w' = drop n (queue w)"
  using assms(4)
proof (induction n arbitrary: w)
  case (Suc n)
  then obtain d a p q where q: "queue w = (d, a, p) # q"
    by (cases "queue w") auto
  let ?d = "take UDP_MAX_MESSAGE_SIZE d"
  have "\<exists>w'. os_recvfrom os (ut_socket_fd ut) UDP_MAX_MESSAGE_SIZE w = (Some (?d, a, p), w') \<and>
      queue w' = q"
    using assms(1) [unfolded queue_recvfrom_def, rule_format, of UDP_MAX_MESSAGE_SIZE w] q by auto
  then obtain w' where w': "os_recvfrom os (ut_socket_fd ut) UDP_MAX_MESSAGE_SIZE w =
      (Some (?d, a, p), w')" "queue w' = q" by blast
  have des: "deserialize ?d (length ?d) =
      (if accepted ?d (length ?d) then Inr (Some (wire_message ?d)) else Inr None)"
    by (rule deserialize_eq) (auto simp: accepted_def)
  have "\<not> accepted [] 0" by (simp add: accepted_def)
  then have "udp_receive_turn os ut w = Inr (datagram_actions os cb (d, a, p), w')"
    using assms(2,3) des w' by (auto simp: udp_receive_turn_def datagram_actions_def Let_def)
  moreover obtain w'' where "udp_receive_turns os ut n w' =
      Inr (concat (map (datagram_actions os cb) (take n q)), w'')" "queue w'' = drop n q"
    using Suc.IH [of w'] Suc.prems q w'(2) by auto
  ultimately show ?case by (simp add: q)
qed simp

text \<open> Datagrams in, messages out. Whatever datagrams are queued at the socket, malformed
  ones, empty ones and ones from other protocols included, the receive thread never
  faults: each one in turn either is handed to the callback as the message its bytes
  spell, with the address and port of its sender, or is dropped, and the thread goes on. \<close>
theorem udp_receives_all:
  assumes "queue_recvfrom os (ut_socket_fd ut) queue" and "ut_running ut"
    and "ut_message_callback ut = Some cb"
  shows "\<exists>w'. udp_receive_turns os ut (length (queue w)) w =
    Inr (concat (map (datagram_actions os cb) (queue w)), w') \<and> queue w' = []"
  using udp_receive_turns_eq [OF assms order_refl, of w] by simp

text \<open>An operating system whose world is the list of incoming datagrams.\<close>

definition queue_os :: "(bytes \<times> bytes \<times> u16) list os" where
  "queue_os = \<lparr>os_socket = \<lambda>stream w. (3, w), os_reuseaddr = \<lambda>fd w. (0, w),
     os_add_membership = \<lambda>fd g i w. (0, w), os_bind = \<lambda>fd a p w. (0, w),
     os_getsockname = \<lambda>fd w. (Some 30490, w), os_listen = \<lambda>fd n w. (0, w),
     os_connect = \<lambda>fd a p w. (0, w), os_accept = \<lambda>fd w. ((-1, [], 0), w),
     os_shutdown = \<lambda>fd w. w, os_close = \<lambda>fd w. w,
     os_sendto = \<lambda>fd d a p w. (int (length d), w @ [(d, a, p)]),
     os_send = \<lambda>fd d w. (-1, w),
     os_recvfrom = \<lambda>fd n w. (case w of [] \<Rightarrow> (None, w) | (d, a, p) # q \<Rightarrow> (Some (take n d, a, p), q)),
     os_recv = \<lambda>fd n all w. (None, w), os_pton = \<lambda>s. Some [127, 0, 0, 1],
     os_ntop = \<lambda>a. ''127.0.0.1''\<rparr>"

lemma queue_os_recvfrom: "queue_recvfrom queue_os fd (\<lambda>w. w)"
  by (auto simp: queue_recvfrom_def queue_os_def split: list.split)

lemma queue_os_ntop: "os_ntop queue_os a = ''127.0.0.1''"
  by (simp add: queue_os_def)

lemma two_datagrams:
  "concat (map (datagram_actions queue_os 5)
     [([1, 2], a, 9), (replicate 12 0 @ [1, 0, 0, 0], a, 9)]) =
   [Udp_message 5 (wire_message (replicate 12 0 @ [1, 0, 0, 0])) ''127.0.0.1'' 9]"
proof -
  have "take UDP_MAX_MESSAGE_SIZE [1, 2] = [1, 2 :: u8]"
    and "take UDP_MAX_MESSAGE_SIZE (replicate 12 0 @ [1, 0, 0, 0]) = replicate 12 (0 :: u8) @ [1, 0, 0, 0]"
    by (simp_all only: UDP_MAX_MESSAGE_SIZE_def, simp_all)
  then show ?thesis
    by (simp add: datagram_actions_def queue_os_ntop accepted_def length_field_def be32_def
        nth_append del: take_append)
qed

lemma length_two: "length [x, y] = 2"
  by simp

definition demo_udp :: udp_transport where
  "demo_udp = UdpTransport\<lparr>ut_socket_fd := 3, ut_running := True, ut_message_callback := Some 5\<rparr>"

lemma demo_udp_fields: "ut_running demo_udp" "ut_message_callback demo_udp = Some 5"
  by (simp_all add: demo_udp_def)

theorem udp_receives_all_witness:
  "\<exists>w'. udp_receive_turns queue_os demo_udp 2
      [([1, 2], [127, 0, 0, 1], 9), (replicate 12 0 @ [1, 0, 0, 0], [127, 0, 0, 1], 9)] =
    Inr ([Udp_message 5 (wire_message (replicate 12 0 @ [1, 0, 0, 0])) ''127.0.0.1'' 9], w')"
  using udp_receives_all [OF queue_os_recvfrom demo_udp_fields,
      of "[([1, 2], [127, 0, 0, 1], 9), (replicate 12 0 @ [1, 0, 0, 0], [127, 0, 0, 1], 9)]"]
  unfolding two_datagrams length_two by blast

text \<open> A message sent over UDP arrives. When \<open>send_to\<close> reports success for a message of at
  most 65535 bytes with the right protocol version, the datagram it handed to the system is
  the one a peer decodes back to the message: its callback gets the message that was sent,
  up to what does not travel. A failed address conversion or a missing socket sends nothing. \<close>
theorem udp_send_delivers:
  assumes "wire_ok m" and "length (payload_bytes m) \<le> 65535 - 16"
  shows "(\<forall>w'. udp_send_to os m address port ut w = (True, w') \<longrightarrow>
      (\<exists>a. os_pton os address = Some a \<and> 0 \<le> ut_socket_fd ut \<and>
         os_sendto os (ut_socket_fd ut) (serialize m) a port w =
           (int (length (serialize m)), w'))) \<and>
    datagram_actions os' cb (serialize m, sender, p) =
      [Udp_message cb (wire_view m) (os_ntop os' sender) p] \<and>
    (ut_socket_fd ut < 0 \<or> os_pton os address = None \<longrightarrow>
      udp_send_to os m address port ut w = (False, w))"
proof -
  have "take UDP_MAX_MESSAGE_SIZE (serialize m) = serialize m"
    using assms(2) by (simp add: length_serialize UDP_MAX_MESSAGE_SIZE_def)
  moreover have "accepted (serialize m) (length (serialize m))"
    using wire_message_serialize [OF assms(1), of "[]"] by (simp add: accepted_def length_serialize)
  ultimately have "datagram_actions os' cb (serialize m, sender, p) =
      [Udp_message cb (wire_view m) (os_ntop os' sender) p]"
    using wire_message_serialize(1) [OF assms(1), of "[]"] by (simp add: datagram_actions_def)
  then show ?thesis
    by (auto simp: udp_send_to_def udp_send_bytes_def Let_def split: option.splits prod.splits)
qed

theorem udp_send_delivers_witness:
  "datagram_actions queue_os 5 (serialize sample_message, [127, 0, 0, 1], 9) =
     [Udp_message 5 (wire_view sample_message) ''127.0.0.1'' 9]"
proof -
  have "length (payload_bytes sample_message) \<le> 65535 - 16"
    by (simp add: sample_message_def payload_bytes_def payload_of_def)
  from udp_send_delivers [OF sample_message_ok this,
      where os = queue_os and os' = queue_os and cb = 5 and sender = "[127, 0, 0, 1]" and p = 9
        and w = "[]" and address = "[]" and port = 0 and ut = demo_udp]
  show ?thesis by (simp add: queue_os_ntop)
qed

end
