(* ===== verification/Tcp.thy ===== *)
theory Tcp
  imports Udp Interfaces "HOL-Library.List_Lexorder" "HOL-Library.Char_ord"
begin

text \<open>
  \<open>transport/tcp_transport.cpp\<close>: the connection table and the table from endpoints to
  connections, connecting, accepting and closing, and the framing of messages by a length
  prefix. The threads are modelled by what they do per accepted socket and per frame; the
  receive thread is a partial function, since it may run for ever. The flags \<open>conn->running\<close> and
  \<open>running_\<close>, which other threads may clear, are what \<open>alive\<close> and \<open>serving\<close> observe in the world.
\<close>

section \<open>State\<close>

record connection =
  cn_socket_fd :: int
  cn_remote_address :: string
  cn_remote_port :: u16
  cn_running :: bool

record tcp_transport =
  tt_listen_socket :: int
  tt_local_address :: string
  tt_local_port :: u16
  tt_running :: bool
  tt_next_connection_id :: u32
  tt_connections :: "u32 \<rightharpoonup> connection"
  tt_endpoint_to_connection :: "(string \<times> u16, u32) omap"
  tt_message_callback :: "nat option"
  tt_connection_callback :: "nat option"

datatype tcp_action =
    Tcp_message nat message u32
  | Tcp_connection nat u32 bool

definition MAX_MESSAGE_SIZE :: nat where
  "MAX_MESSAGE_SIZE = 4096"

definition TcpTransport :: tcp_transport where
  "TcpTransport = \<lparr>tt_listen_socket = -1, tt_local_address = '''', tt_local_port = 0,
     tt_running = False, tt_next_connection_id = 1, tt_connections = Map.empty,
     tt_endpoint_to_connection = om_empty, tt_message_callback = None,
     tt_connection_callback = None\<rparr>"

definition connection_event :: "tcp_transport \<Rightarrow> u32 \<Rightarrow> bool \<Rightarrow> tcp_action list" where
  "connection_event tt cid connected =
     (case tt_connection_callback tt of None \<Rightarrow> [] | Some cb \<Rightarrow> [Tcp_connection cb cid connected])"

section \<open>Listening and accepting\<close>

definition tcp_listen ::
    "'w os \<Rightarrow> string \<Rightarrow> u16 \<Rightarrow> tcp_transport \<Rightarrow> 'w \<Rightarrow> bool \<times> tcp_transport \<times> 'w" where
  "tcp_listen os local_address port tt w =
     (let (fd, w) = os_socket os True w;
          tt = tt\<lparr>tt_listen_socket := fd\<rparr>
      in if fd < 0 then (False, tt, w)
         else
           let (r, w) = os_reuseaddr os fd w in
           if r < 0 then (False, tt\<lparr>tt_listen_socket := -1\<rparr>, os_close os fd w)
           else
             let (b, w) = os_bind os fd (pton_or_any os local_address) port w in
             if b < 0 then (False, tt\<lparr>tt_listen_socket := -1\<rparr>, os_close os fd w)
             else
               let (l, w) = os_listen os fd 10 w in
               if l < 0 then (False, tt\<lparr>tt_listen_socket := -1\<rparr>, os_close os fd w)
               else
                 let (bound, w) = os_getsockname os fd w in
                 (True, tt\<lparr>tt_local_port := (case bound of Some p \<Rightarrow> p | None \<Rightarrow> port),
                           tt_local_address := local_address\<rparr>, w))"

definition add_connection :: "u32 \<Rightarrow> connection \<Rightarrow> tcp_transport \<Rightarrow> tcp_transport" where
  "add_connection cid conn tt = tt\<lparr>tt_connections := hm_put cid conn (tt_connections tt)\<rparr>"

text \<open>One turn of the accept thread; a failed \<open>accept\<close> is tried again.\<close>

definition tcp_accept_turn ::
    "'w os \<Rightarrow> tcp_transport \<Rightarrow> 'w \<Rightarrow> tcp_transport \<times> tcp_action list \<times> 'w" where
  "tcp_accept_turn os tt w =
     (if \<not> tt_running tt then (tt, [], w)
      else
        let ((client_sock, address, port), w) = os_accept os (tt_listen_socket tt) w in
        if client_sock < 0 then (tt, [], w)
        else
          let cid = tt_next_connection_id tt;
              conn = \<lparr>cn_socket_fd = client_sock, cn_remote_address = os_ntop os address,
                cn_remote_port = port, cn_running = True\<rparr>;
              tt = add_connection cid conn (tt\<lparr>tt_next_connection_id := cid + 1\<rparr>)
          in (tt, connection_event tt cid True, w))"

section \<open>Connecting and closing\<close>

text \<open>The new socket of \<open>connect\<close>; \<open>Some cid\<close> is the connection id of a success.\<close>

definition connect_new ::
    "'w os \<Rightarrow> string \<Rightarrow> u16 \<Rightarrow> tcp_transport \<Rightarrow> 'w \<Rightarrow>
     u32 option \<times> tcp_transport \<times> tcp_action list \<times> 'w" where
  "connect_new os address port tt w =
     (let (sock, w) = os_socket os True w in
      if sock < 0 then (None, tt, [], w)
      else
        (case os_pton os address of
           None \<Rightarrow> (None, tt, [], os_close os sock w)
         | Some a \<Rightarrow>
             let (r, w) = os_connect os sock a port w in
             if r < 0 then (None, tt, [], os_close os sock w)
             else
               let cid = tt_next_connection_id tt;
                   conn = \<lparr>cn_socket_fd = sock, cn_remote_address = address,
                     cn_remote_port = port, cn_running = True\<rparr>;
                   tt = add_connection cid conn (tt\<lparr>tt_next_connection_id := cid + 1\<rparr>);
                   tt = tt\<lparr>tt_endpoint_to_connection :=
                     om_put (address, port) cid (tt_endpoint_to_connection tt)\<rparr>
               in (Some cid, tt, connection_event tt cid True, w)))"

definition tcp_connect ::
    "'w os \<Rightarrow> string \<Rightarrow> u16 \<Rightarrow> tcp_transport \<Rightarrow> 'w \<Rightarrow>
     u32 option \<times> tcp_transport \<times> tcp_action list \<times> 'w" where
  "tcp_connect os address port tt w =
     (case om_get (tt_endpoint_to_connection tt) (address, port) of
        None \<Rightarrow> connect_new os address port tt w
      | Some cid \<Rightarrow>
          if tt_connections tt cid \<noteq> None then (Some cid, tt, [], w)
          else connect_new os address port
            (tt\<lparr>tt_endpoint_to_connection :=
              om_del (address, port) (tt_endpoint_to_connection tt)\<rparr>) w)"

definition close_connection ::
    "'w os \<Rightarrow> u32 \<Rightarrow> tcp_transport \<Rightarrow> 'w \<Rightarrow> tcp_transport \<times> 'w" where
  "close_connection os cid tt w =
     (case tt_connections tt cid of
        None \<Rightarrow> (tt, w)
      | Some conn \<Rightarrow>
          (tt\<lparr>tt_connections := hm_del cid (tt_connections tt),
              tt_endpoint_to_connection :=
                om_del (cn_remote_address conn, cn_remote_port conn)
                  (tt_endpoint_to_connection tt)\<rparr>,
           if 0 \<le> cn_socket_fd conn then os_close os (cn_socket_fd conn) w else w))"

definition tcp_disconnect ::
    "'w os \<Rightarrow> u32 \<Rightarrow> tcp_transport \<Rightarrow> 'w \<Rightarrow> tcp_transport \<times> 'w" where
  "tcp_disconnect os cid tt w = close_connection os cid tt w"

text \<open>\<open>start\<close> says whether an accept thread was made.\<close>

definition tcp_start :: "tcp_transport \<Rightarrow> bool \<times> tcp_transport" where
  "tcp_start tt = (if tt_running tt then (False, tt)
     else (0 \<le> tt_listen_socket tt, tt\<lparr>tt_running := True\<rparr>))"

text \<open>
  \<open>stop\<close> shuts down the sockets of the connections, in the \<open>order\<close> of the table, and joins their receive
  threads. This is what it leaves when it returns. It returns only from an empty table: the join of the
  receive thread of a connection in the table waits for ever (\<open>stop_deadlock\<close> in \<open>TcpStop\<close>).
\<close>

fun shutdown_connections :: "'w os \<Rightarrow> tcp_transport \<Rightarrow> u32 list \<Rightarrow> 'w \<Rightarrow> 'w" where
  "shutdown_connections os tt [] w = w"
| "shutdown_connections os tt (cid # cids) w = shutdown_connections os tt cids
     (case tt_connections tt cid of
        None \<Rightarrow> w
      | Some conn \<Rightarrow> if 0 \<le> cn_socket_fd conn then os_shutdown os (cn_socket_fd conn) w else w)"

definition tcp_stop ::
    "'w os \<Rightarrow> u32 list \<Rightarrow> tcp_transport \<Rightarrow> 'w \<Rightarrow> tcp_transport \<times> 'w" where
  "tcp_stop os order tt w =
     (tt\<lparr>tt_running := False, tt_connections := Map.empty\<rparr>,
      shutdown_connections os tt order
        (if 0 \<le> tt_listen_socket tt then os_shutdown os (tt_listen_socket tt) w else w))"

definition tcp_stop_returns :: "tcp_transport \<Rightarrow> bool" where
  "tcp_stop_returns tt \<longleftrightarrow> tt_connections tt = Map.empty"

definition has_connection :: "string \<Rightarrow> u16 \<Rightarrow> tcp_transport \<Rightarrow> bool" where
  "has_connection address port tt \<longleftrightarrow>
     om_get (tt_endpoint_to_connection tt) (address, port) \<noteq> None"

definition tcp_set_message_received_callback :: "nat option \<Rightarrow> tcp_transport \<Rightarrow> tcp_transport" where
  [simp]: "tcp_set_message_received_callback cb tt = tt\<lparr>tt_message_callback := cb\<rparr>"

definition tcp_set_connection_callback :: "nat option \<Rightarrow> tcp_transport \<Rightarrow> tcp_transport" where
  [simp]: "tcp_set_connection_callback cb tt = tt\<lparr>tt_connection_callback := cb\<rparr>"

section \<open>Sending\<close>

definition tcp_send_bytes ::
    "'w os \<Rightarrow> u32 \<Rightarrow> bytes \<Rightarrow> tcp_transport \<Rightarrow> 'w \<Rightarrow> bool \<times> 'w" where
  "tcp_send_bytes os cid data tt w =
     (case tt_connections tt cid of
        None \<Rightarrow> (False, w)
      | Some conn \<Rightarrow>
          let (sent, w) = os_send os (cn_socket_fd conn) (bytes32 (of_nat (length data))) w in
          if sent \<noteq> 4 then (False, w)
          else
            let (sent, w) = os_send os (cn_socket_fd conn) data w in
            (sent = int (length data), w))"

definition tcp_send_to :: "'w os \<Rightarrow> u32 \<Rightarrow> message \<Rightarrow> tcp_transport \<Rightarrow> 'w \<Rightarrow> bool \<times> 'w" where
  "tcp_send_to os cid m tt w = tcp_send_bytes os cid (serialize m) tt w"

definition get_or_create_connection ::
    "'w os \<Rightarrow> string \<Rightarrow> u16 \<Rightarrow> tcp_transport \<Rightarrow> 'w \<Rightarrow>
     u32 \<times> tcp_transport \<times> tcp_action list \<times> 'w" where
  "get_or_create_connection os address port tt w =
     (let (result, tt, actions, w) = tcp_connect os address port tt w
      in (case result of Some cid \<Rightarrow> cid | None \<Rightarrow> 0, tt, actions, w))"

definition tcp_send_to_endpoint ::
    "'w os \<Rightarrow> string \<Rightarrow> u16 \<Rightarrow> message \<Rightarrow> tcp_transport \<Rightarrow> 'w \<Rightarrow>
     bool \<times> tcp_transport \<times> tcp_action list \<times> 'w" where
  "tcp_send_to_endpoint os address port m tt w =
     (let data = serialize m;
          (conn_id, tt, actions, w) = get_or_create_connection os address port tt w
      in if conn_id = 0 then (False, tt, actions, w)
         else let (ok, w) = tcp_send_bytes os conn_id data tt w in (ok, tt, actions, w))"

section \<open>Receiving\<close>

text \<open>
  The loop that reads the body: \<open>buf\<close> is the part of the receive buffer filled so far. The buffer has
  MAX_MESSAGE_SIZE bytes, and \<open>recv\<close> writes behind the filled part: past the end of the buffer is a
  fault. An error or the end of the stream stops it short.
\<close>

function read_body ::
    "(nat \<Rightarrow> bool \<Rightarrow> 'w \<Rightarrow> bytes option \<times> 'w) \<Rightarrow> nat \<Rightarrow> bytes \<Rightarrow> 'w \<Rightarrow> fault + bytes option \<times> 'w" where
  "read_body recv msg_length buf w =
     (if length buf < msg_length then
        (case recv (msg_length - length buf) False w of
           (None, w) \<Rightarrow> Inr (None, w)
         | (Some chunk, w) \<Rightarrow>
             if chunk = [] then Inr (None, w)
             else if MAX_MESSAGE_SIZE < length buf + length chunk then Inl Out_of_bounds
             else read_body recv msg_length (buf @ chunk) w)
      else Inr (Some buf, w))"
  by pat_completeness auto
termination
  by (relation "measure (\<lambda>(recv, n, buf, w). n - length buf)") (auto intro!: diff_less_mono2)

declare read_body.simps [simp del]

text \<open>
  One frame: whether the loop goes on, what was called, and the world. A body that is cut short
  clears \<open>conn->running\<close>, which ends the loop; a message is handed on only if nobody else has cleared
  it meanwhile.
\<close>

definition receive_frame ::
    "'w os \<Rightarrow> ('w \<Rightarrow> bool) \<Rightarrow> int \<Rightarrow> nat option \<Rightarrow> u32 \<Rightarrow> 'w \<Rightarrow> fault + bool \<times> tcp_action list \<times> 'w" where
  "receive_frame os alive fd callback cid w =
     (case os_recv os fd 4 True w of
        (None, w) \<Rightarrow> Inr (False, [], w)
      | (Some header, w) \<Rightarrow>
          if length header \<noteq> 4 then Inr (False, [], w)
          else
            rbind (rd32 header 0) (\<lambda>msg_length.
              if MAX_MESSAGE_SIZE < unat msg_length then Inr (False, [], w)
              else
                rbind (read_body (os_recv os fd) (unat msg_length) [] w) (\<lambda>(body, w).
                  case body of
                    None \<Rightarrow> Inr (False, [], w)
                  | Some data \<Rightarrow>
                      (case callback of
                         None \<Rightarrow> Inr (True, [], w)
                       | Some cb \<Rightarrow>
                           if \<not> alive w \<or> length data \<noteq> unat msg_length then Inr (True, [], w)
                           else
                             rbind (deserialize data (length data)) (\<lambda>msg.
                               Inr (True, (case msg of None \<Rightarrow> []
                                 | Some m \<Rightarrow> [Tcp_message cb m cid]), w))))))"

partial_function (option) receive_loop ::
    "'w os \<Rightarrow> ('w \<Rightarrow> bool) \<Rightarrow> ('w \<Rightarrow> bool) \<Rightarrow> int \<Rightarrow> nat option \<Rightarrow> u32 \<Rightarrow> 'w \<Rightarrow>
     (fault + tcp_action list \<times> 'w) option"
where
  "receive_loop os alive serving fd callback cid w =
     (if \<not> (alive w \<and> serving w) then Some (Inr ([], w))
      else
        (case receive_frame os alive fd callback cid w of
           Inl f \<Rightarrow> Some (Inl f)
         | Inr (go_on, actions, w) \<Rightarrow>
             if \<not> go_on then Some (Inr (actions, w))
             else Option.bind (receive_loop os alive serving fd callback cid w) (\<lambda>rest.
               Some (rbind rest (\<lambda>(actions', w). Inr (actions @ actions', w))))))"

text \<open>The whole receive thread: the loop, the callback and the removal of the connection.\<close>

definition connection_receive_thread ::
    "'w os \<Rightarrow> ('w \<Rightarrow> bool) \<Rightarrow> ('w \<Rightarrow> bool) \<Rightarrow> u32 \<Rightarrow> tcp_transport \<Rightarrow> 'w \<Rightarrow>
     (fault + tcp_transport \<times> tcp_action list \<times> 'w) option" where
  "connection_receive_thread os alive serving cid tt w =
     (case tt_connections tt cid of
        None \<Rightarrow> Some (Inr (tt, [], w))
      | Some conn \<Rightarrow>
          map_option (\<lambda>r. rbind r (\<lambda>(actions, w).
              let (tt', w) = close_connection os cid tt w
              in Inr (tt', actions @ connection_event tt cid False, w)))
            (receive_loop os alive serving (cn_socket_fd conn) (tt_message_callback tt) cid w))"


section \<open>Streams\<close>

text \<open>
  A stream socket: the bytes \<open>rest w\<close> arrive in order; a call that waits for all of \<open>n\<close> bytes
  gets as many as there are up to \<open>n\<close>, any other call at least one and at most \<open>n\<close> of them,
  and none at the end. A sending socket appends to the \<open>log\<close> of bytes sent.
\<close>

definition stream_recv :: "'w os \<Rightarrow> int \<Rightarrow> ('w \<Rightarrow> bytes) \<Rightarrow> bool" where
  "stream_recv os fd rest \<longleftrightarrow>
     (\<forall>n w. \<exists>w'. os_recv os fd n True w = (Some (take n (rest w)), w') \<and> rest w' = drop n (rest w)) \<and>
     (\<forall>n w. 0 < n \<longrightarrow> (\<exists>k w'. 1 \<le> k \<and> k \<le> n \<and>
        os_recv os fd n False w = (Some (take k (rest w)), w') \<and> rest w' = drop k (rest w)))"

definition stream_send :: "'w os \<Rightarrow> int \<Rightarrow> ('w \<Rightarrow> bytes) \<Rightarrow> bool" where
  "stream_send os fd log \<longleftrightarrow>
     (\<forall>d w. \<exists>w'. os_send os fd d w = (int (length d), w') \<and> log w' = log w @ d)"

definition frame :: "message \<Rightarrow> bytes" where
  "frame m = bytes32 (of_nat (length (serialize m))) @ serialize m"

definition framable :: "message \<Rightarrow> bool" where
  "framable m \<longleftrightarrow> wire_ok m \<and> length (serialize m) \<le> MAX_MESSAGE_SIZE"

lemma stream_recv_all:
  assumes "stream_recv os fd rest"
  obtains w' where "os_recv os fd n True w = (Some (take n (rest w)), w')" "rest w' = drop n (rest w)"
  using assms that unfolding stream_recv_def by meson

lemma take_drop_prefix:
  "take (length (take k xs) + j) xs = take k xs @ take j (drop k xs)"
  "drop (length (take k xs) + j) xs = drop j (drop k xs)"
proof -
  show "take (length (take k xs) + j) xs = take k xs @ take j (drop k xs)"
    by (cases "k \<le> length xs") (simp_all add: take_add min_absorb2)
  show "drop (length (take k xs) + j) xs = drop j (drop k xs)"
    by (cases "k \<le> length xs") (simp_all add: min_absorb2 add.commute)
qed

lemma read_body_stream:
  assumes "stream_recv os fd rest" and "length buf \<le> n" and "n \<le> MAX_MESSAGE_SIZE"
  shows "\<exists>w'. read_body (os_recv os fd) n buf w =
      Inr (if n - length buf \<le> length (rest w) then Some (buf @ take (n - length buf) (rest w))
       else None, w') \<and> rest w' = drop (n - length buf) (rest w)"
  using assms
proof (induction "n - length buf" arbitrary: buf w rule: less_induct)
  case less
  show ?case
  proof (cases "length buf < n")
    case False
    then show ?thesis using less.prems(2) by (simp add: read_body.simps)
  next
    case True
    then have "0 < n - length buf" by simp
    then obtain k w' where k: "1 \<le> k" "k \<le> n - length buf"
      "os_recv os fd (n - length buf) False w = (Some (take k (rest w)), w')"
      "rest w' = drop k (rest w)"
      using less.prems(1) unfolding stream_recv_def by blast
    show ?thesis
    proof (cases "rest w = []")
      case empty: True
      then show ?thesis using True k by (simp add: read_body.simps)
    next
      case False
      let ?buf = "buf @ take k (rest w)"
      have ne: "take k (rest w) \<noteq> []" using False k(1) by simp
      have "length (take k (rest w)) \<le> n - length buf" using k(2) by simp
      then have "\<not> MAX_MESSAGE_SIZE < length buf + length (take k (rest w))"
        using True less.prems(3) by linarith
      then have step: "read_body (os_recv os fd) n buf w = read_body (os_recv os fd) n ?buf w'"
        using True k(3) ne by (simp add: read_body.simps [of _ n buf])
      have "n - length ?buf < n - length buf"
        using True ne by (intro diff_less_mono2) auto
      moreover have "length ?buf \<le> n" using k(2) True by (auto simp: min_def)
      ultimately obtain w'' where w'': "read_body (os_recv os fd) n ?buf w' =
          Inr (if n - length ?buf \<le> length (rest w') then Some (?buf @ take (n - length ?buf) (rest w'))
           else None, w'') \<and> rest w'' = drop (n - length ?buf) (rest w')"
        using less.hyps [of ?buf w'] less.prems(1,3) by blast
      have sum: "n - length buf = length (take k (rest w)) + (n - length ?buf)"
        using \<open>length ?buf \<le> n\<close> by simp
      have "take (n - length buf) (rest w) = take k (rest w) @ take (n - length ?buf) (rest w')"
        and "drop (n - length buf) (rest w) = drop (n - length ?buf) (rest w')"
        unfolding sum k(4) by (rule take_drop_prefix)+
      moreover have "n - length buf \<le> length (rest w) \<longleftrightarrow> n - length ?buf \<le> length (rest w')"
        using k(4) \<open>length ?buf \<le> n\<close> k(2) by (auto simp: min_def)
      ultimately show ?thesis unfolding step using w'' by auto
    qed
  qed
qed

text \<open>One frame of a stream, whatever follows it.\<close>

lemma receive_frame_stream:
  assumes "stream_recv os fd rest" and "framable m" and "rest w = frame m @ more_bytes"
    and "\<And>w. alive w"
  shows "\<exists>w'. receive_frame os alive fd (Some cb) cid w =
      Inr (True, [Tcp_message cb (wire_view m) cid], w') \<and> rest w' = more_bytes"
proof -
  let ?n = "length (serialize m)"
  have "?n \<le> 4096" using assms(2) by (simp add: framable_def MAX_MESSAGE_SIZE_def)
  then have un: "unat (of_nat ?n :: u32) = ?n" by (intro unat_of_nat_u32) simp
  obtain w1 where w1: "os_recv os fd 4 True w = (Some (bytes32 (of_nat ?n)), w1)"
    "rest w1 = serialize m @ more_bytes"
    using stream_recv_all [OF assms(1), of 4 w] assms(3) by (auto simp: frame_def)
  obtain w2 where w2: "read_body (os_recv os fd) ?n [] w1 = Inr (Some (serialize m), w2)"
    "rest w2 = more_bytes"
    using read_body_stream [OF assms(1), of "[]" ?n w1] w1(2) \<open>?n \<le> 4096\<close>
    by (auto simp: MAX_MESSAGE_SIZE_def)
  have "rd32 (bytes32 (of_nat ?n)) 0 = Inr (of_nat ?n)"
    using rd32_bytes32 [of "[]" "of_nat ?n" "[]"] by simp
  moreover have "deserialize (serialize m) ?n = Inr (Some (wire_view m))"
    by (rule msg_codec.dec_enc_exact) (use assms(2) in \<open>simp add: framable_def\<close>)
  ultimately show ?thesis
    using w1 w2 \<open>?n \<le> 4096\<close> assms(4)
    by (simp add: receive_frame_def un MAX_MESSAGE_SIZE_def)
qed

text \<open>A frame that is cut off ends the loop; so does one that announces too much.\<close>

lemma receive_frame_cut:
  assumes "stream_recv os fd rest" and "framable m" and "rest w = take k (frame m)"
    and "k < length (frame m)"
  shows "\<exists>w'. receive_frame os alive fd cb cid w = Inr (False, [], w')"
proof -
  let ?n = "length (serialize m)"
  have "?n \<le> 4096" using assms(2) by (simp add: framable_def MAX_MESSAGE_SIZE_def)
  then have un: "unat (of_nat ?n :: u32) = ?n" by (intro unat_of_nat_u32) simp
  obtain w1 where w1: "os_recv os fd 4 True w = (Some (take 4 (rest w)), w1)"
    "rest w1 = drop 4 (rest w)"
    by (rule stream_recv_all [OF assms(1)])
  show ?thesis
  proof (cases "k < 4")
    case True
    then show ?thesis using w1(1) assms(3,4) by (simp add: receive_frame_def)
  next
    case False
    then have "take 4 (rest w) = bytes32 (of_nat ?n)" and "rest w1 = take (k - 4) (serialize m)"
      using assms(3) w1(2) by (simp_all add: frame_def)
    moreover have "rd32 (bytes32 (of_nat ?n)) 0 = Inr (of_nat ?n)"
      using rd32_bytes32 [of "[]" "of_nat ?n" "[]"] by simp
    moreover have "\<not> ?n \<le> length (rest w1)"
      using calculation(2) assms(4) False by (auto simp: frame_def)
    then obtain w2 where "read_body (os_recv os fd) ?n [] w1 = Inr (None, w2)"
      using read_body_stream [OF assms(1), of "[]" ?n w1] \<open>?n \<le> 4096\<close>
      by (auto simp: MAX_MESSAGE_SIZE_def)
    ultimately show ?thesis
      using w1(1) \<open>?n \<le> 4096\<close> by (simp add: receive_frame_def un MAX_MESSAGE_SIZE_def)
  qed
qed

lemma receive_frame_oversized:
  assumes "stream_recv os fd rest" and "rest w = bytes32 n @ more_bytes" and "4096 < unat n"
  shows "\<exists>w'. receive_frame os alive fd cb cid w = Inr (False, [], w')"
proof -
  obtain w1 where "os_recv os fd 4 True w = (Some (bytes32 n), w1)"
    using stream_recv_all [OF assms(1), of 4 w] assms(2) by auto
  then show ?thesis
    using rd32_bytes32 [of "[]" n "[]"] assms(3) by (simp add: receive_frame_def MAX_MESSAGE_SIZE_def)
qed

text \<open>The loop by its first frame.\<close>

lemma receive_loop_stop:
  "receive_frame os alive fd cb cid w = Inr (False, actions, w') \<Longrightarrow> alive w \<Longrightarrow> serving w \<Longrightarrow>
     receive_loop os alive serving fd cb cid w = Some (Inr (actions, w'))"
  by (simp add: receive_loop.simps [of os alive serving fd cb cid w])

lemma receive_loop_step:
  "receive_frame os alive fd cb cid w = Inr (True, actions, w') \<Longrightarrow> alive w \<Longrightarrow> serving w \<Longrightarrow>
     receive_loop os alive serving fd cb cid w' = Some (Inr (actions', w'')) \<Longrightarrow>
     receive_loop os alive serving fd cb cid w = Some (Inr (actions @ actions', w''))"
  by (simp add: receive_loop.simps [of os alive serving fd cb cid w])

lemma receive_loop_frames:
  assumes "stream_recv os fd rest" and "\<And>w. alive w" and "\<And>w. serving w"
    and "\<forall>m \<in> set ms. framable m" and "framable m'" and "k < length (frame m')"
    and "rest w = concat (map frame ms) @ take k (frame m')"
  shows "\<exists>w'. receive_loop os alive serving fd (Some cb) cid w =
      Some (Inr (map (\<lambda>m. Tcp_message cb (wire_view m) cid) ms, w'))"
  using assms(4,7)
proof (induction ms arbitrary: w)
  case Nil
  then obtain w' where "receive_frame os alive fd (Some cb) cid w = Inr (False, [], w')"
    using receive_frame_cut [OF assms(1,5) _ assms(6), of w alive "Some cb" cid] by auto
  from receive_loop_stop [where serving = serving, OF this assms(2,3)] show ?case by auto
next
  case (Cons m ms)
  have "rest w = frame m @ (concat (map frame ms) @ take k (frame m'))"
    using Cons.prems(2) by simp
  then obtain w1 where w1: "receive_frame os alive fd (Some cb) cid w =
      Inr (True, [Tcp_message cb (wire_view m) cid], w1)"
    "rest w1 = concat (map frame ms) @ take k (frame m')"
    using receive_frame_stream [OF assms(1), of m w _ alive cb cid] Cons.prems(1) assms(2) by auto
  then obtain w2 where "receive_loop os alive serving fd (Some cb) cid w1 =
      Some (Inr (map (\<lambda>m. Tcp_message cb (wire_view m) cid) ms, w2))"
    using Cons.IH [of w1] Cons.prems(1) by auto
  from receive_loop_step [where serving = serving, OF w1(1) assms(2,3) this] show ?case by auto
qed

text \<open>Any frame of any stream: no fault, and either the end or four bytes of progress.\<close>

lemma receive_frame_any:
  assumes "stream_recv os fd rest"
  obtains actions w' where "receive_frame os alive fd cb cid w = Inr (False, actions, w')"
  | actions w' where "receive_frame os alive fd cb cid w = Inr (True, actions, w')"
      "length (rest w') < length (rest w)"
proof -
  obtain w1 where w1: "os_recv os fd 4 True w = (Some (take 4 (rest w)), w1)"
    "rest w1 = drop 4 (rest w)"
    by (rule stream_recv_all [OF assms])
  show thesis
  proof (cases "length (take 4 (rest w)) = 4")
    case False
    then have "receive_frame os alive fd cb cid w = Inr (False, [], w1)"
      using w1(1) unfolding receive_frame_def by (auto simp: min_def split: if_splits)
    then show ?thesis by (rule that(1))
  next
    case True
    then obtain n where n: "rd32 (take 4 (rest w)) 0 = Inr n"
      using rd32_ok [of 0 "take 4 (rest w)"] by auto
    show ?thesis
    proof (cases "MAX_MESSAGE_SIZE < unat n")
      case big: True
      show ?thesis using w1(1) True n big by (intro that(1)) (simp add: receive_frame_def)
    next
      case small: False
      obtain w2 where w2: "read_body (os_recv os fd) (unat n) [] w1 =
          Inr (if unat n \<le> length (rest w1) then Some (take (unat n) (rest w1)) else None, w2)"
        "rest w2 = drop (unat n) (rest w1)"
        using read_body_stream [OF assms, of "[]" "unat n" w1] small by auto
      have shorter: "length (rest w2) < length (rest w)"
        using w1(2) w2(2) True by simp
      have des: "\<exists>r. deserialize d (length d) = Inr r" for d
        by (subst deserialize_eq) (auto simp: accepted_def)
      show ?thesis
      proof (cases "unat n \<le> length (rest w1)")
        case False
        then show ?thesis using w1(1) True n small w2(1)
          by (intro that(1)) (simp add: receive_frame_def)
      next
        case fits: True
        have "length (take (unat n) (rest w1)) = unat n" using fits by simp
        then obtain r where "deserialize (take (unat n) (rest w1)) (unat n) = Inr r"
          using des [of "take (unat n) (rest w1)"] by auto
        then have "\<exists>actions. receive_frame os alive fd cb cid w = Inr (True, actions, w2)"
          using w1(1) True n small w2(1) fits
          by (cases cb; cases "alive w2") (simp_all add: receive_frame_def min_def)
        then show ?thesis using that(2) shorter by blast
      qed
    qed
  qed
qed


section \<open>The tables\<close>

text \<open>
  Endpoints map to connections in the table that go to these endpoints, and the ids in use are below
  the next one, which is not 0.
\<close>

definition tcp_ok :: "tcp_transport \<Rightarrow> bool" where
  "tcp_ok tt \<longleftrightarrow> om_ok (tt_endpoint_to_connection tt) \<and> 0 < tt_next_connection_id tt \<and>
     (\<forall>cid conn. tt_connections tt cid = Some conn \<longrightarrow> 0 < cid \<and> cid < tt_next_connection_id tt) \<and>
     (\<forall>ep cid. om_get (tt_endpoint_to_connection tt) ep = Some cid \<longrightarrow>
        (\<exists>conn. tt_connections tt cid = Some conn \<and>
           ep = (cn_remote_address conn, cn_remote_port conn)))"

definition ids_left :: "tcp_transport \<Rightarrow> nat" where
  "ids_left tt = 2 ^ 32 - 1 - unat (tt_next_connection_id tt)"

lemma next_id_less: "0 < ids_left tt \<Longrightarrow> tt_next_connection_id tt < tt_next_connection_id tt + 1"
proof -
  assume "0 < ids_left tt"
  then have "unat (tt_next_connection_id tt) + unat (1 :: u32) < 2 ^ 32"
    by (simp add: ids_left_def)
  then have "unat (tt_next_connection_id tt + 1) = unat (tt_next_connection_id tt) + 1"
    by (subst unat_plus_simple [THEN iffD1]) (simp_all add: no_olen_add_nat)
  then show ?thesis by (simp add: word_less_nat_alt)
qed

lemma ids_left_next:
  "0 < ids_left tt \<Longrightarrow> unat (tt_next_connection_id tt + 1) = unat (tt_next_connection_id tt) + 1"
  by (subst unat_plus_simple [THEN iffD1]) (simp_all add: no_olen_add_nat ids_left_def)

lemma tcp_ok_new [inv_intros]: "tcp_ok TcpTransport"
  by (simp add: tcp_ok_def TcpTransport_def om_empty_def om_get_def)

text \<open>A new connection under the next id, with or without an entry for its endpoint.\<close>

lemma tcp_ok_add:
  assumes "tcp_ok tt" and "0 < ids_left tt"
  shows "tcp_ok (add_connection (tt_next_connection_id tt) conn
    (tt\<lparr>tt_next_connection_id := tt_next_connection_id tt + 1\<rparr>))"
proof -
  note lt = next_id_less [OF assms(2)]
  have "cid < tt_next_connection_id tt + 1" if "cid < tt_next_connection_id tt" for cid
    using that lt by (rule order.strict_trans)
  moreover have "0 < tt_next_connection_id tt + 1"
    using assms(1) lt by (auto simp: tcp_ok_def intro: order.strict_trans)
  moreover have "om_get (tt_endpoint_to_connection tt) ep \<noteq> Some (tt_next_connection_id tt)" for ep
    using assms(1) unfolding tcp_ok_def by (metis order_less_irrefl)
  ultimately show ?thesis
    using assms(1) lt by (auto simp: tcp_ok_def add_connection_def hm_put_def)
qed

lemma connect_new_cases:
  assumes "connect_new os address port tt w = (result, tt', actions, w')"
  obtains "result = None" "tt' = tt" "actions = []"
  | cid conn where "result = Some cid" "cid = tt_next_connection_id tt"
      "cn_remote_address conn = address" "cn_remote_port conn = port"
      "tt' = (add_connection cid conn (tt\<lparr>tt_next_connection_id := cid + 1\<rparr>))
         \<lparr>tt_endpoint_to_connection :=
            om_put (address, port) cid (tt_endpoint_to_connection tt)\<rparr>"
      "actions = connection_event tt cid True"
proof -
  obtain sock w1 where s: "os_socket os True w = (sock, w1)" by (metis surj_pair)
  show thesis
  proof (cases "sock < 0")
    case True
    then show ?thesis using assms s by (intro that(1)) (simp_all add: connect_new_def)
  next
    case sock: False
    show ?thesis
    proof (cases "os_pton os address")
      case None
      then show ?thesis using assms s sock by (intro that(1)) (simp_all add: connect_new_def)
    next
      case (Some a)
      obtain r w2 where r: "os_connect os sock a port w1 = (r, w2)" by (metis surj_pair)
      let ?conn = "\<lparr>cn_socket_fd = sock, cn_remote_address = address, cn_remote_port = port,
        cn_running = True\<rparr>"
      show ?thesis
      proof (cases "r < 0")
        case True
        then show ?thesis
          using assms s sock Some r by (intro that(1)) (simp_all add: connect_new_def)
      next
        case False
        then show ?thesis
          using assms s sock Some r
          by (intro that(2) [of "tt_next_connection_id tt" ?conn])
            (simp_all add: connect_new_def Let_def add_connection_def connection_event_def)
      qed
    qed
  qed
qed

lemma connect_new_ok:
  assumes "tcp_ok tt" and "0 < ids_left tt"
    and "connect_new os address port tt w = (result, tt', actions, w')"
  shows "tcp_ok tt' \<and> ids_left tt \<le> ids_left tt' + 1"
  using assms(3)
proof (cases rule: connect_new_cases)
  case 1
  then show ?thesis using assms(1) by simp
next
  case (2 cid conn)
  let ?tt = "add_connection cid conn (tt\<lparr>tt_next_connection_id := cid + 1\<rparr>)"
  have "tcp_ok ?tt" unfolding 2(2) by (rule tcp_ok_add [OF assms(1,2)])
  moreover have "tt_connections ?tt cid = Some conn" "tt_next_connection_id ?tt = cid + 1"
    "tt_endpoint_to_connection ?tt = tt_endpoint_to_connection tt"
    by (simp_all add: add_connection_def hm_put_def)
  moreover have "0 < cid" using assms(1) 2(2) by (simp add: tcp_ok_def)
  ultimately have "tcp_ok tt'"
    using 2(3,4) next_id_less [OF assms(2)] unfolding 2(2,5)
    by (auto simp: tcp_ok_def om_ok_put om_get_put split: if_splits)
  moreover have "ids_left tt \<le> ids_left tt' + 1"
    using ids_left_next [OF assms(2)] by (simp add: 2(2,5) ids_left_def add_connection_def)
  ultimately show ?thesis by simp
qed

lemma tcp_ok_drop_endpoint:
  "tcp_ok tt \<Longrightarrow> tcp_ok (tt\<lparr>tt_endpoint_to_connection := om_del ep (tt_endpoint_to_connection tt)\<rparr>)"
  by (auto simp: tcp_ok_def om_ok_del om_get_del)

lemma connect_ok [inv_intros]:
  assumes "tcp_ok tt" and "0 < ids_left tt"
    and "tcp_connect os address port tt w = (result, tt', actions, w')"
  shows "tcp_ok tt' \<and> ids_left tt \<le> ids_left tt' + 1"
proof (cases "om_get (tt_endpoint_to_connection tt) (address, port)")
  case None
  then show ?thesis
    using connect_new_ok [OF assms(1,2)] assms(3) by (simp add: tcp_connect_def)
next
  case (Some cid)
  show ?thesis
  proof (cases "tt_connections tt cid")
    case None
    let ?tt = "tt\<lparr>tt_endpoint_to_connection :=
      om_del (address, port) (tt_endpoint_to_connection tt)\<rparr>"
    have "tcp_ok ?tt" and "ids_left ?tt = ids_left tt"
      using assms(1) by (simp_all add: tcp_ok_drop_endpoint ids_left_def)
    then show ?thesis
      using connect_new_ok [of ?tt os address port w] assms(2,3) Some None
      by (simp add: tcp_connect_def)
  next
    case (Some conn)
    then show ?thesis
      using assms \<open>om_get _ _ = Some cid\<close> by (simp add: tcp_connect_def)
  qed
qed

lemma close_ok [inv_intros]:
  assumes "tcp_ok tt"
  shows "tcp_ok (fst (close_connection os cid tt w))"
proof (cases "tt_connections tt cid")
  case (Some conn)
  have "k \<noteq> cid" if "om_get (tt_endpoint_to_connection tt) ep = Some k"
    "ep \<noteq> (cn_remote_address conn, cn_remote_port conn)" for ep k
    using assms that Some unfolding tcp_ok_def by (metis option.inject)
  then show ?thesis
    using assms Some by (auto simp: close_connection_def tcp_ok_def hm_del_def om_ok_del om_get_del)
qed (use assms in \<open>simp add: close_connection_def\<close>)

section \<open>Runs\<close>

datatype tcp_event =
    Tev_listen string u16
  | Tev_connect string u16
  | Tev_accept
  | Tev_close u32
  | Tev_start
  | Tev_stop "u32 list"

text \<open>The operations, each taken as a whole; \<open>None\<close> is a stop that does not return.\<close>

fun tcp_step :: "'w os \<Rightarrow> tcp_event \<Rightarrow> tcp_transport \<times> 'w \<Rightarrow> (tcp_transport \<times> 'w) option" where
  "tcp_step os (Tev_listen a p) (tt, w) = Some (snd (tcp_listen os a p tt w))"
| "tcp_step os (Tev_connect a p) (tt, w) =
     (let (result, tt, actions, w) = tcp_connect os a p tt w in Some (tt, w))"
| "tcp_step os Tev_accept (tt, w) =
     (let (tt, actions, w) = tcp_accept_turn os tt w in Some (tt, w))"
| "tcp_step os (Tev_close cid) (tt, w) = Some (close_connection os cid tt w)"
| "tcp_step os Tev_start (tt, w) = Some (snd (tcp_start tt), w)"
| "tcp_step os (Tev_stop order) (tt, w) =
     (if tcp_stop_returns tt then Some (tcp_stop os order tt w) else None)"

fun tcp_run :: "'w os \<Rightarrow> tcp_event list \<Rightarrow> tcp_transport \<times> 'w \<Rightarrow> (tcp_transport \<times> 'w) option" where
  "tcp_run os [] c = Some c"
| "tcp_run os (e # es) c = Option.bind (tcp_step os e c) (tcp_run os es)"

lemma tcp_listen_ok:
  "tcp_ok (fst (snd (tcp_listen os a p tt w))) = tcp_ok tt"
  "ids_left (fst (snd (tcp_listen os a p tt w))) = ids_left tt"
  by (auto simp: tcp_listen_def Let_def tcp_ok_def ids_left_def split: prod.split)

lemma tcp_accept_ok:
  assumes "tcp_ok tt" and "0 < ids_left tt"
  shows "tcp_ok (fst (tcp_accept_turn os tt w)) \<and>
    ids_left tt \<le> ids_left (fst (tcp_accept_turn os tt w)) + 1"
proof -
  obtain sock a p w' where acc: "os_accept os (tt_listen_socket tt) w = ((sock, a, p), w')"
    by (metis prod_cases3 surj_pair)
  show ?thesis
  proof (cases "tt_running tt \<and> \<not> sock < 0")
    case False
    then show ?thesis using assms(1) acc by (auto simp: tcp_accept_turn_def Let_def)
  next
    case True
    let ?tt = "fst (tcp_accept_turn os tt w)"
    have "?tt = add_connection (tt_next_connection_id tt)
        \<lparr>cn_socket_fd = sock, cn_remote_address = os_ntop os a, cn_remote_port = p,
         cn_running = True\<rparr> (tt\<lparr>tt_next_connection_id := tt_next_connection_id tt + 1\<rparr>)"
      using True acc by (simp add: tcp_accept_turn_def Let_def)
    then show ?thesis
      using tcp_ok_add [OF assms] ids_left_next [OF assms(2)]
      by (simp add: ids_left_def add_connection_def)
  qed
qed

lemma tcp_step_ok:
  assumes "tcp_ok (fst c)" and "0 < ids_left (fst c)" and "tcp_step os e c = Some c'"
  shows "tcp_ok (fst c') \<and> ids_left (fst c) \<le> ids_left (fst c') + 1"
proof -
  obtain tt w where c: "c = (tt, w)" by (cases c)
  show ?thesis
  proof (cases e)
    case (Tev_listen a p)
    then show ?thesis using assms by (auto simp: c tcp_listen_ok)
  next
    case (Tev_connect a p)
    then show ?thesis
      using connect_ok [of tt os a p w] assms by (auto simp: c split: prod.splits)
  next
    case Tev_accept
    then show ?thesis
      using tcp_accept_ok [of tt os w] assms by (auto simp: c split: prod.splits)
  next
    case (Tev_close cid)
    then have "c' = close_connection os cid tt w" using assms(3) by (simp add: c)
    moreover have "ids_left (fst (close_connection os cid tt w)) = ids_left tt"
      by (auto simp: ids_left_def close_connection_def split: option.split)
    ultimately show ?thesis using close_ok [of tt os cid w] assms(1) by (simp add: c)
  next
    case (Tev_stop order)
    then show ?thesis
      using assms
      by (auto simp: c tcp_stop_def tcp_stop_returns_def tcp_ok_def ids_left_def split: if_splits)
  next
    case Tev_start
    have "tcp_ok (snd (tcp_start tt))" "ids_left (snd (tcp_start tt)) = ids_left tt"
      using assms(1) by (auto simp: c tcp_start_def tcp_ok_def ids_left_def)
    then show ?thesis using Tev_start assms(3) by (auto simp: c)
  qed
qed

lemma tcp_run_ok:
  assumes "tcp_run os es c = Some c'" and "tcp_ok (fst c)" and "length es \<le> ids_left (fst c)"
  shows "tcp_ok (fst c')"
  using assms
proof (induction es arbitrary: c)
  case (Cons e es)
  then obtain d where d: "tcp_step os e c = Some d" "tcp_run os es d = Some c'"
    by (auto simp del: tcp_step.simps simp: bind_eq_Some_conv)
  have "tcp_ok (fst d)" "ids_left (fst c) \<le> ids_left (fst d) + 1"
    using tcp_step_ok [OF Cons.prems(2) _ d(1)] Cons.prems(3) by auto
  then show ?case using Cons.IH [OF d(2)] Cons.prems(3) by simp
qed simp

section \<open>Properties\<close>

text \<open>Sending several messages on one connection, one after the other.\<close>

fun tcp_send_all ::
    "'w os \<Rightarrow> u32 \<Rightarrow> message list \<Rightarrow> tcp_transport \<Rightarrow> 'w \<Rightarrow> bool \<times> 'w" where
  "tcp_send_all os cid [] tt w = (True, w)"
| "tcp_send_all os cid (m # ms) tt w =
     (let (ok, w) = tcp_send_to os cid m tt w; (oks, w) = tcp_send_all os cid ms tt w
      in (ok \<and> oks, w))"

lemma tcp_send_all_frames:
  assumes "stream_send os (cn_socket_fd conn) log" and "tt_connections tt cid = Some conn"
  shows "\<exists>w'. tcp_send_all os cid ms tt w = (True, w') \<and>
    log w' = log w @ concat (map frame ms)"
proof (induction ms arbitrary: w)
  case (Cons m ms)
  obtain w1 where w1: "os_send os (cn_socket_fd conn) (bytes32 (of_nat (length (serialize m)))) w =
      (4, w1)" "log w1 = log w @ bytes32 (of_nat (length (serialize m)))"
    using assms(1) unfolding stream_send_def by (metis length_bytes32 of_nat_numeral)
  obtain w2 where w2: "os_send os (cn_socket_fd conn) (serialize m) w1 =
      (int (length (serialize m)), w2)" "log w2 = log w1 @ serialize m"
    using assms(1) unfolding stream_send_def by blast
  have "tcp_send_to os cid m tt w = (True, w2)"
    using assms(2) w1(1) w2(1) by (simp add: tcp_send_to_def tcp_send_bytes_def)
  then show ?case
    using Cons.IH [of w2] w1(2) w2(2) by (auto simp: frame_def)
qed simp

text \<open> C4: messages sent over a TCP connection arrive, in order, however the stream is cut
  into reads. If the receiver's stream is what the sender wrote for the messages \<open>ms\<close> (each
  of at most 4096 bytes), then any sizes of the reads reassemble the frames: the receive
  loop terminates and calls back with exactly these messages, in this order; a last frame
  cut off by the end of the connection is dropped. \<close>
theorem tcp_end_to_end:
  assumes "stream_send os (cn_socket_fd conn) log" and "tt_connections tt cid = Some conn"
    and "stream_recv os' fd rest" and "\<And>w. alive w" and "\<And>w. serving w"
    and "\<forall>m \<in> set ms. framable m" and "framable m'" and "k < length (frame m')"
  shows "\<exists>w'. tcp_send_all os cid ms tt w = (True, w') \<and>
    (\<forall>v. log w @ rest v = log w' @ take k (frame m') \<longrightarrow>
       (\<exists>v'. receive_loop os' alive serving fd (Some cb) cid' v =
          Some (Inr (map (\<lambda>m. Tcp_message cb (wire_view m) cid') ms, v'))))"
proof -
  obtain w' where "tcp_send_all os cid ms tt w = (True, w')"
    and log: "log w' = log w @ concat (map frame ms)"
    using tcp_send_all_frames [OF assms(1,2)] by blast
  moreover have "\<exists>v'. receive_loop os' alive serving fd (Some cb) cid' v =
      Some (Inr (map (\<lambda>m. Tcp_message cb (wire_view m) cid') ms, v'))"
    if "log w @ rest v = log w' @ take k (frame m')" for v
    by (rule receive_loop_frames [OF assms(3-8)]) (use that log in simp)
  ultimately show ?thesis by blast
qed

text \<open>An operating system whose world is a byte stream, read one byte at a time.\<close>

definition stream_os :: "bytes os" where
  "stream_os = \<lparr>os_socket = \<lambda>stream w. (3, w), os_reuseaddr = \<lambda>fd w. (0, w),
     os_add_membership = \<lambda>fd g i w. (0, w), os_bind = \<lambda>fd a p w. (0, w),
     os_getsockname = \<lambda>fd w. (None, w), os_listen = \<lambda>fd n w. (0, w),
     os_connect = \<lambda>fd a p w. (0, w), os_accept = \<lambda>fd w. ((4, [127, 0, 0, 1], 9), w),
     os_shutdown = \<lambda>fd w. w, os_close = \<lambda>fd w. w,
     os_sendto = \<lambda>fd d a p w. (-1, w), os_send = \<lambda>fd d w. (int (length d), w @ d),
     os_recvfrom = \<lambda>fd n w. (None, w),
     os_recv = \<lambda>fd n all w. (let k = if all then n else 1 in (Some (take k w), drop k w)),
     os_pton = \<lambda>s. Some [127, 0, 0, 1], os_ntop = \<lambda>a. ''127.0.0.1''\<rparr>"

lemma stream_os_recv: "stream_recv stream_os fd (\<lambda>w. w)"
  by (auto simp: stream_recv_def stream_os_def)

lemma stream_os_send: "stream_send stream_os fd (\<lambda>w. w)"
  by (simp add: stream_send_def stream_os_def)

lemma sample_framable: "framable sample_message"
  using sample_message_ok sample_message_length by (simp add: framable_def MAX_MESSAGE_SIZE_def)

definition demo_tcp :: tcp_transport where
  "demo_tcp = snd (tcp_start (TcpTransport\<lparr>tt_connections := [1 \<mapsto>
     \<lparr>cn_socket_fd = 3, cn_remote_address = ''127.0.0.1'', cn_remote_port = 9, cn_running = True\<rparr>],
     tt_next_connection_id := 2\<rparr>))"

lemma demo_tcp_connection: "tt_connections demo_tcp 1 =
    Some \<lparr>cn_socket_fd = 3, cn_remote_address = ''127.0.0.1'', cn_remote_port = 9, cn_running = True\<rparr>"
  by (simp add: demo_tcp_def tcp_start_def TcpTransport_def)

theorem tcp_end_to_end_witness:
  "\<exists>w'. tcp_send_all stream_os 1 [sample_message, sample_message] demo_tcp [] = (True, w') \<and>
    (\<exists>v'. receive_loop stream_os (\<lambda>_. True) (\<lambda>_. True) 4 (Some 6) 2 (w' @ [0, 0, 0]) =
       Some (Inr ([Tcp_message 6 (wire_view sample_message) 2,
         Tcp_message 6 (wire_view sample_message) 2], v')))"
proof -
  have "take 3 (frame sample_message) = [0, 0, 0]"
    by (simp add: frame_def sample_message_length bytes32_def drop_bit_eq_div)
  moreover have "3 < length (frame sample_message)" by (simp add: frame_def)
  moreover have "\<forall>m \<in> set [sample_message, sample_message]. framable m"
    by (simp add: sample_framable)
  ultimately show ?thesis
    using tcp_end_to_end [OF stream_os_send demo_tcp_connection stream_os_recv TrueI TrueI
        _ sample_framable, of "[sample_message, sample_message]" 3 "[]" 4 6 2]
    by auto
qed



text \<open> A message that is too large kills the connection. If a peer sends a valid message
  whose payload exceeds 4080 bytes, as no code on the sending side prevents, the receive
  loop ends at its length prefix: neither this message nor anything behind it on the stream
  is delivered. In particular a full TP segment of 4095 bytes behind its TP header. \<close>
theorem tcp_oversized_ends:
  assumes "stream_recv os fd rest" and "\<And>w. alive w" and "\<And>w. serving w"
    and "rest w = frame m @ more_bytes"
    and "4080 < length (payload_bytes m)" and "length (payload_bytes m) < 2 ^ 32 - 16"
  shows "\<exists>w'. receive_loop os alive serving fd cb cid w = Some (Inr ([], w'))"
proof -
  have "unat (of_nat (length (serialize m)) :: u32) = length (serialize m)"
    by (rule unat_of_nat_u32) (use assms(6) in \<open>simp add: length_serialize\<close>)
  then have "4096 < unat (of_nat (length (serialize m)) :: u32)"
    using assms(5) by (simp add: length_serialize)
  moreover have "rest w = bytes32 (of_nat (length (serialize m))) @ serialize m @ more_bytes"
    using assms(4) by (simp add: frame_def)
  ultimately obtain w' where "receive_frame os alive fd cb cid w = Inr (False, [], w')"
    using receive_frame_oversized [OF assms(1)] by blast
  from receive_loop_stop [where serving = serving, OF this assms(2,3)] show ?thesis by blast
qed

definition large_message :: message where
  "large_message = set_payload (replicate 4099 0) new_message"

theorem tcp_oversized_ends_witness:
  "\<exists>w'. receive_loop stream_os (\<lambda>_. True) (\<lambda>_. True) 4 (Some 6) 2
     (frame large_message @ frame sample_message) = Some (Inr ([], w'))"
proof -
  have len: "length (payload_bytes large_message) = 4099"
    by (simp add: large_message_def set_payload_def payload_bytes_def payload_of_def)
  show ?thesis
    by (rule tcp_oversized_ends [OF stream_os_recv TrueI TrueI refl]) (simp_all only: len, simp_all)
qed

text \<open> C34: the connection tables stay consistent. After any sequence of listens, connects,
  accepts, closes, starts and stops that return, one operation after the other and at most 2^32 - 2
  of them, ids in use are not 0 and below the next id, so a new connection never takes over a live
  one, and an endpoint is only mapped to a live connection that goes to that endpoint. \<close>
theorem tcp_tables_invariant:
  assumes "tcp_run os es (TcpTransport, w) = Some (tt, w')" and "length es \<le> 2 ^ 32 - 2"
  shows "om_ok (tt_endpoint_to_connection tt) \<and> tt_connections tt (tt_next_connection_id tt) = None \<and>
    (\<forall>cid conn. tt_connections tt cid = Some conn \<longrightarrow> 0 < cid \<and> cid < tt_next_connection_id tt) \<and>
    (\<forall>ep cid. om_get (tt_endpoint_to_connection tt) ep = Some cid \<longrightarrow>
      (\<exists>conn. tt_connections tt cid = Some conn \<and>
         ep = (cn_remote_address conn, cn_remote_port conn)))"
proof -
  have "length es \<le> ids_left (fst (TcpTransport, w))"
    using assms(2) by (simp add: ids_left_def TcpTransport_def)
  then have ok: "tcp_ok tt" using tcp_run_ok [OF assms(1)] tcp_ok_new by simp
  then have "tt_connections tt (tt_next_connection_id tt) = None"
    by (cases "tt_connections tt (tt_next_connection_id tt)") (auto simp: tcp_ok_def)
  then show ?thesis using ok unfolding tcp_ok_def by blast
qed

theorem tcp_tables_invariant_witness:
  "\<exists>tt w'. tcp_run stream_os [Tev_start, Tev_connect ''10.0.0.1'' 9, Tev_accept, Tev_close 1]
     (TcpTransport, []) = Some (tt, w') \<and> tt_connections tt (tt_next_connection_id tt) = None"
proof -
  let ?es = "[Tev_start, Tev_connect ''10.0.0.1'' 9, Tev_accept, Tev_close 1]"
  have "\<exists>c. tcp_run stream_os ?es c0 = Some c" for c0
    by (cases c0) (auto split: prod.split)
  then obtain tt w' where r: "tcp_run stream_os ?es (TcpTransport, []) = Some (tt, w')"
    by (metis surj_pair)
  then show ?thesis using tcp_tables_invariant [OF r] by auto
qed

text \<open> Connections are reused while they live. After a successful \<open>connect\<close> the endpoint has
  its connection: connecting again gives the same id without any system call or change,
  and sends on the id reach its socket. After \<open>disconnect\<close> the endpoint has no connection,
  sending on the old id fails without a system call, and a new connect that succeeds gives
  a different id. \<close>
theorem connect_reuse:
  assumes "tcp_ok tt" and "1 < ids_left tt"
    and "tcp_connect os address port tt w = (Some cid, tt', actions, w')"
    and "close_connection os cid tt' w' = (tt'', w'')"
  shows "cid \<noteq> 0 \<and> has_connection address port tt' \<and>
    tcp_connect os address port tt' v = (Some cid, tt', [], v) \<and>
    \<not> has_connection address port tt'' \<and> tcp_send_to os cid m tt'' v = (False, v) \<and>
    fst (tcp_connect os address port tt'' v) \<noteq> Some cid"
proof -
  have ok: "tcp_ok tt'" and left: "0 < ids_left tt'"
    using connect_ok [OF assms(1) _ assms(3)] assms(2) by auto
  have live: "om_get (tt_endpoint_to_connection tt') (address, port) = Some cid \<and>
      tt_connections tt' cid \<noteq> None"
  proof (cases "om_get (tt_endpoint_to_connection tt) (address, port)")
    case None
    then have "connect_new os address port tt w = (Some cid, tt', actions, w')"
      using assms(3) by (simp add: tcp_connect_def)
    then show ?thesis
      using assms(1)
      by (cases rule: connect_new_cases)
        (auto simp: add_connection_def hm_put_def om_get_put tcp_ok_def)
  next
    case (Some cid0)
    show ?thesis
    proof (cases "tt_connections tt cid0")
      case None
      let ?tt = "tt\<lparr>tt_endpoint_to_connection :=
        om_del (address, port) (tt_endpoint_to_connection tt)\<rparr>"
      have "connect_new os address port ?tt w = (Some cid, tt', actions, w')"
        using assms(3) Some None by (simp add: tcp_connect_def)
      then show ?thesis
        using assms(1)
        by (cases rule: connect_new_cases)
          (auto simp: add_connection_def hm_put_def om_get_put om_ok_del tcp_ok_def)
    next
      case (Some conn)
      then show ?thesis using assms(3) \<open>om_get _ _ = Some cid0\<close> by (simp add: tcp_connect_def)
    qed
  qed
  then obtain conn where conn: "tt_connections tt' cid = Some conn"
    and ep: "(address, port) = (cn_remote_address conn, cn_remote_port conn)"
    and pos: "0 < cid" and lt: "cid < tt_next_connection_id tt'"
    using ok unfolding tcp_ok_def by blast
  have tt'': "tt'' = tt'\<lparr>tt_connections := hm_del cid (tt_connections tt'),
      tt_endpoint_to_connection := om_del (address, port) (tt_endpoint_to_connection tt')\<rparr>"
    using assms(4) conn ep by (simp add: close_connection_def)
  obtain result tt3 actions3 v3 where c3: "connect_new os address port tt'' v =
      (result, tt3, actions3, v3)" by (metis prod_cases4)
  have nx: "tt_next_connection_id tt'' = tt_next_connection_id tt'" by (simp add: tt'')
  have "result \<noteq> Some cid"
    using c3 nx lt by (cases rule: connect_new_cases) auto
  moreover have "tcp_connect os address port tt'' v = connect_new os address port tt'' v"
    by (simp add: tcp_connect_def tt'' om_get_del)
  ultimately have "fst (tcp_connect os address port tt'' v) \<noteq> Some cid" using c3 by simp
  then show ?thesis
    using live pos
    by (auto simp: has_connection_def tcp_connect_def tt'' om_get_del hm_del_def tcp_send_to_def
        tcp_send_bytes_def)
qed

theorem connect_reuse_witness:
  "fst (tcp_connect stream_os ''10.0.0.1'' 9
      (fst (close_connection stream_os 1
        (fst (snd (tcp_connect stream_os ''10.0.0.1'' 9 TcpTransport []))) [])) []) \<noteq> Some 1"
proof -
  have c: "tcp_connect stream_os ''10.0.0.1'' 9 TcpTransport [] =
      (Some 1, fst (snd (tcp_connect stream_os ''10.0.0.1'' 9 TcpTransport [])), [], [])"
    by (simp add: tcp_connect_def TcpTransport_def om_get_def om_empty_def connect_new_def
        stream_os_def Let_def connection_event_def add_connection_def)
  have "1 < ids_left TcpTransport" by (simp add: ids_left_def TcpTransport_def)
  from connect_reuse [OF tcp_ok_new this c surjective_pairing] show ?thesis by blast
qed

end
