(* ===== verification/TcpStop.thy ===== *)
theory TcpStop
  imports Tcp
begin

text \<open>
  \<open>TcpTransport::stop\<close> against the receive thread of a connection: both take
  \<open>connections_mutex_\<close>, \<open>stop\<close> for the whole loop that shuts the sockets down and joins the
  threads, \<open>close_connection\<close> at the end of the receive thread. The two threads are a step
  relation on their program counters, the owner of the mutex and the fields they share, for
  one connection of the table. The thread that opens the connection stores the thread object, without
  the mutex, and only then it can be joined; what \<open>stop\<close> does to a connection before that is in
  \<open>TcpRace\<close>.
\<close>

datatype stop_pc =
    Stop_called
  | Stop_locked
  | Stop_joining
  | Stop_joined
  | Stop_returned

datatype receive_pc =
    Receiving
  | Receive_ended
  | Closing
  | Close_locked
  | Receive_exited

datatype mutex_owner = Nobody | Stopper | Receiver

record stop_state =
  ss_stop :: stop_pc
  ss_receive :: receive_pc
  ss_mutex :: mutex_owner
  ss_conn_running :: bool
  ss_registered :: bool
  ss_stored :: bool

text \<open>
  Steps of \<open>stop\<close>: lock; per connection clear \<open>running\<close> and shut the socket down; if the thread
  object is joinable, join the thread, possible once it has exited; clear the table and unlock. A
  step of the opening thread: store the thread object. Steps of the receive
  thread: leave the loop (the peer closes, or the shutdown shows); run the callback; lock in
  \<open>close_connection\<close>; erase the connection and unlock. A connection that is not in the table
  any more is not joined.
\<close>

inductive stop_step :: "stop_state \<Rightarrow> stop_state \<Rightarrow> bool" where
  stop_lock: "ss_stop s = Stop_called \<Longrightarrow> ss_mutex s = Nobody \<Longrightarrow>
    stop_step s (s\<lparr>ss_stop := (if ss_registered s then Stop_locked else Stop_joined),
      ss_mutex := Stopper\<rparr>)"
| stop_shutdown: "ss_stop s = Stop_locked \<Longrightarrow>
    stop_step s (s\<lparr>ss_stop := (if ss_stored s then Stop_joining else Stop_joined),
      ss_conn_running := False\<rparr>)"
| stop_join: "ss_stop s = Stop_joining \<Longrightarrow> ss_receive s = Receive_exited \<Longrightarrow>
    stop_step s (s\<lparr>ss_stop := Stop_joined\<rparr>)"
| stop_clear: "ss_stop s = Stop_joined \<Longrightarrow>
    stop_step s (s\<lparr>ss_stop := Stop_returned, ss_registered := False, ss_mutex := Nobody\<rparr>)"
| open_stores: "\<not> ss_stored s \<Longrightarrow> ss_registered s \<Longrightarrow> stop_step s (s\<lparr>ss_stored := True\<rparr>)"
| receive_end: "ss_receive s = Receiving \<Longrightarrow>
    stop_step s (s\<lparr>ss_receive := Receive_ended\<rparr>)"
| receive_callback: "ss_receive s = Receive_ended \<Longrightarrow>
    stop_step s (s\<lparr>ss_receive := Closing\<rparr>)"
| close_lock: "ss_receive s = Closing \<Longrightarrow> ss_mutex s = Nobody \<Longrightarrow>
    stop_step s (s\<lparr>ss_receive := Close_locked, ss_mutex := Receiver\<rparr>)"
| close_erase: "ss_receive s = Close_locked \<Longrightarrow>
    stop_step s (s\<lparr>ss_receive := Receive_exited, ss_conn_running := False,
      ss_registered := False, ss_mutex := Nobody\<rparr>)"

inductive_cases stop_stepE: "stop_step s s'"

definition stop_start :: stop_state where
  "stop_start = \<lparr>ss_stop = Stop_called, ss_receive = Receiving, ss_mutex = Nobody,
     ss_conn_running = True, ss_registered = True, ss_stored = True\<rparr>"

definition stop_reach :: "stop_state \<Rightarrow> stop_state \<Rightarrow> bool" where
  "stop_reach = stop_step\<^sup>*\<^sup>*"

text \<open>
  Who holds the mutex can be read off the program counters, and a connection whose receive
  thread has not erased it is still in the table.
\<close>

definition stop_inv :: "stop_state \<Rightarrow> bool" where
  "stop_inv s \<longleftrightarrow>
     (ss_mutex s = Stopper \<longleftrightarrow> ss_stop s \<in> {Stop_locked, Stop_joining, Stop_joined}) \<and>
     (ss_mutex s = Receiver \<longleftrightarrow> ss_receive s = Close_locked) \<and>
     (ss_registered s \<longleftrightarrow> ss_receive s \<noteq> Receive_exited \<and> ss_stop s \<noteq> Stop_returned) \<and>
     (ss_stop s \<in> {Stop_locked, Stop_joining} \<longrightarrow>
        ss_receive s \<in> {Receiving, Receive_ended, Closing})"

text \<open>
  While \<open>stop\<close> holds the mutex on behalf of a registered connection whose thread is stored, it never
  joins.
\<close>

definition stuck :: "stop_state \<Rightarrow> bool" where
  "stuck s \<longleftrightarrow> ss_mutex s = Stopper \<and> ss_stored s \<and> ss_stop s \<in> {Stop_locked, Stop_joining} \<and>
     ss_receive s \<in> {Receiving, Receive_ended, Closing}"

lemma stuck_step: "stuck s \<Longrightarrow> stop_step s s' \<Longrightarrow> stuck s'"
  by (erule stop_stepE) (auto simp: stuck_def)

lemma stuck_reach: "stuck s \<Longrightarrow> stop_reach s s' \<Longrightarrow> stuck s'"
  unfolding stop_reach_def
  by (rotate_tac, induction rule: rtranclp_induct) (auto intro: stuck_step)

section \<open>Properties\<close>

text \<open>From a stuck state both threads go on to where they wait for each other.\<close>

lemma stuck_joining:
  assumes "stuck s"
  shows "stop_reach s (s\<lparr>ss_stop := Stop_joining, ss_conn_running :=
    (if ss_stop s = Stop_locked then False else ss_conn_running s)\<rparr>)" (is "stop_reach s ?a")
proof (cases "ss_stop s = Stop_locked")
  case True
  then show ?thesis using stop_shutdown [of s] assms by (simp add: stop_reach_def r_into_rtranclp stuck_def)
next
  case False
  then have "?a = s" using assms by (cases s) (auto simp: stuck_def)
  then show ?thesis by (simp add: stop_reach_def)
qed

lemma receive_closing:
  assumes "ss_receive s \<in> {Receiving, Receive_ended, Closing}"
  shows "stop_reach s (s\<lparr>ss_receive := Closing\<rparr>)"
proof -
  consider "ss_receive s = Receiving" | "ss_receive s = Receive_ended" | "ss_receive s = Closing"
    using assms by blast
  then show ?thesis
  proof cases
    case 1
    have "stop_step s (s\<lparr>ss_receive := Receive_ended\<rparr>)" using 1 by (rule receive_end)
    moreover have "stop_step (s\<lparr>ss_receive := Receive_ended\<rparr>) (s\<lparr>ss_receive := Closing\<rparr>)"
      using receive_callback [of "s\<lparr>ss_receive := Receive_ended\<rparr>"] by simp
    ultimately show ?thesis unfolding stop_reach_def by (meson r_into_rtranclp rtranclp_trans)
  next
    case 2
    then show ?thesis unfolding stop_reach_def by (intro r_into_rtranclp receive_callback)
  next
    case 3
    then have "s\<lparr>ss_receive := Closing\<rparr> = s" by (cases s) simp
    then show ?thesis by (simp add: stop_reach_def)
  qed
qed

text \<open> C32: \<open>stop\<close> deadlocks on a live connection. Once \<open>stop\<close> has locked the connection table
  while the receive thread of a connection in it, which is stored and so joinable, has not got as far as locking it in
  \<open>close_connection\<close>, no continuation returns from \<open>stop\<close>: it waits for the thread, and the
  thread waits for the mutex. In particular every run in which \<open>stop\<close> gets the mutex first
  ends like that, with both threads blocked for ever. \<close>
theorem stop_deadlock:
  assumes "stop_step s s1" and "ss_stop s = Stop_called" and "ss_stop s1 = Stop_locked"
    and "ss_receive s \<in> {Receiving, Receive_ended, Closing}" and "ss_stored s" and "stop_reach s1 s2"
  shows "ss_stop s2 \<noteq> Stop_returned \<and> ss_receive s2 \<noteq> Receive_exited \<and>
    (\<exists>s3. stop_reach s2 s3 \<and> ss_stop s3 = Stop_joining \<and> ss_receive s3 = Closing \<and>
       (\<nexists>s4. stop_step s3 s4))"
proof -
  have "stuck s1"
    using assms(1-5) by (cases rule: stop_stepE) (auto simp: stuck_def split: if_splits)
  then have st: "stuck s2" using assms(6) by (rule stuck_reach)
  let ?a = "s2\<lparr>ss_stop := Stop_joining, ss_conn_running :=
      (if ss_stop s2 = Stop_locked then False else ss_conn_running s2)\<rparr>"
  have "stop_reach ?a (?a\<lparr>ss_receive := Closing\<rparr>)"
    by (rule receive_closing) (use st in \<open>simp add: stuck_def\<close>)
  with stuck_joining [OF st] have "stop_reach s2 (?a\<lparr>ss_receive := Closing\<rparr>)"
    unfolding stop_reach_def by (rule rtranclp_trans)
  moreover have "\<nexists>s4. stop_step (?a\<lparr>ss_receive := Closing\<rparr>) s4"
    using st by (auto simp: stuck_def elim!: stop_stepE)
  ultimately show ?thesis
    using st by (intro conjI exI [of _ "?a\<lparr>ss_receive := Closing\<rparr>"]) (auto simp: stuck_def)
qed

definition stop_first :: stop_state where
  "stop_first = stop_start\<lparr>ss_stop := Stop_locked, ss_mutex := Stopper\<rparr>"

lemma stop_first_step: "stop_step stop_start stop_first"
  using stop_lock [of stop_start] by (simp add: stop_start_def stop_first_def)

theorem stop_deadlock_witness:
  "\<exists>s3. stop_reach stop_first s3 \<and> ss_stop s3 = Stop_joining \<and> (\<nexists>s4. stop_step s3 s4)"
  using stop_deadlock [OF stop_first_step, of stop_first]
  by (auto simp: stop_start_def stop_first_def stop_reach_def)

lemma stop_inv_step: "stop_inv s \<Longrightarrow> stop_step s s' \<Longrightarrow> stop_inv s'"
  by (cases "ss_receive s"; erule stop_stepE) (auto simp: stop_inv_def split: if_splits)

text \<open> Mutual exclusion, and the one way \<open>stop\<close> returns. In every state reachable from a
  running connection the mutex is held exactly by the thread whose program counter is in
  its critical section, so never by both; and if \<open>stop\<close> has returned, the receive thread had
  erased its connection before \<open>stop\<close> looked at the table. \<close>
theorem stop_mutual_exclusion:
  assumes "stop_reach stop_start s"
  shows "stop_inv s \<and> ss_stored s \<and>
    (ss_stop s \<in> {Stop_joined, Stop_returned} \<longrightarrow> ss_receive s = Receive_exited)"
  using assms unfolding stop_reach_def
proof (induction rule: rtranclp_induct)
  case base
  show ?case by (simp add: stop_inv_def stop_start_def)
next
  case (step s s')
  then have inv: "stop_inv s'" using stop_inv_step by blast
  from step(2) step.IH have "ss_stored s' \<and> (ss_stop s' \<in> {Stop_joined, Stop_returned} \<longrightarrow>
      ss_receive s' = Receive_exited)"
    by (cases rule: stop_step.cases) (auto simp: stop_inv_def split: if_splits)
  with inv show ?case by blast
qed

theorem stop_mutual_exclusion_witness: "stop_inv stop_first"
proof -
  have "stop_reach stop_start stop_first"
    using stop_first_step by (simp add: stop_reach_def r_into_rtranclp)
  from stop_mutual_exclusion [OF this] show ?thesis by blast
qed

end
