(* ===== verification/TcpRace.thy ===== *)
theory TcpRace
  imports Prelude
begin

text \<open>
  The life of one \<open>Connection\<close> of \<open>TcpTransport\<close>, as three threads share it: the one that opens it
  (\<open>connect\<close>, or \<open>accept_thread\<close>), its receive thread, which fetches a raw pointer under the lock and
  uses it without, a thread that calls \<open>disconnect\<close>, and one that calls \<open>stop\<close>. The steps are the
  pieces of the code between which the threads can interleave; what happens on a message is left out.
\<close>

section \<open>State and steps\<close>

text \<open>
  The entry of the connection in the table: missing, or holding the connection, with its
  \<open>receive_thread\<close> set or not. \<open>lc_alive\<close> is the object itself, which the entry owns.
\<close>

datatype conn_entry = No_entry | Entry bool

datatype opener_pc = Inserting | Mapping | Starting | Assigning | Reporting | Opened

datatype receiver_pc = Not_started | Finding | In_loop | Left_loop | Closing_own | Exited

record life =
  lc_entry :: conn_entry
  lc_alive :: bool
  lc_running :: bool
  lc_opener :: opener_pc
  lc_receiver :: receiver_pc
  lc_fault :: "fault option"

definition life_start :: life where
  "life_start = \<lparr>lc_entry = No_entry, lc_alive = True, lc_running = True, lc_opener = Inserting,
     lc_receiver = Not_started, lc_fault = None\<rparr>"

text \<open>
  Opening: the entry is inserted under its lock, the endpoint mapped under its own; then the
  assignment of the thread starts it (the right side of an assignment is evaluated first) and
  looks the entry up again, without a lock: \<open>operator[]\<close> makes a missing entry a null pointer.
\<close>

fun open_step :: "life \<Rightarrow> life option" where
  "open_step s = (case lc_opener s of
     Inserting \<Rightarrow> Some (s\<lparr>lc_entry := Entry False, lc_opener := Mapping\<rparr>)
   | Mapping \<Rightarrow> Some (s\<lparr>lc_opener := Starting\<rparr>)
   | Starting \<Rightarrow> Some (s\<lparr>lc_receiver := Finding, lc_opener := Assigning\<rparr>)
   | Assigning \<Rightarrow> (case lc_entry s of
       No_entry \<Rightarrow> Some (s\<lparr>lc_fault := Some Null_dereference\<rparr>)
     | Entry _ \<Rightarrow> Some (s\<lparr>lc_entry := Entry True, lc_opener := Reporting\<rparr>))
   | Reporting \<Rightarrow> Some (s\<lparr>lc_opener := Opened\<rparr>)
   | Opened \<Rightarrow> None)"

text \<open>\<open>close_connection\<close>, under the lock of the table: clear \<open>running\<close>, erase the entry.\<close>

definition life_close :: "life \<Rightarrow> life" where
  "life_close s = (case lc_entry s of
     No_entry \<Rightarrow> s
   | Entry _ \<Rightarrow> s\<lparr>lc_entry := No_entry, lc_running := False, lc_alive := False\<rparr>)"

text \<open>
  The receive thread: find the connection; in the loop read \<open>running\<close>, the socket and the buffer
  through the pointer, and go on or leave (\<open>broken\<close>: the peer has closed, or sends nonsense, or the
  transport has stopped running); report; close.
\<close>

fun receive_step :: "bool \<Rightarrow> life \<Rightarrow> life option" where
  "receive_step broken s = (case lc_receiver s of
     Not_started \<Rightarrow> None
   | Finding \<Rightarrow> Some (case lc_entry s of
       No_entry \<Rightarrow> s\<lparr>lc_receiver := Exited\<rparr>
     | Entry _ \<Rightarrow> s\<lparr>lc_receiver := In_loop\<rparr>)
   | In_loop \<Rightarrow> Some (if \<not> lc_alive s then s\<lparr>lc_fault := Some Use_after_free\<rparr>
       else if lc_running s \<and> \<not> broken then s
       else s\<lparr>lc_receiver := Left_loop\<rparr>)
   | Left_loop \<Rightarrow> Some (s\<lparr>lc_receiver := Closing_own\<rparr>)
   | Closing_own \<Rightarrow> Some (life_close s\<lparr>lc_receiver := Exited\<rparr>)
   | Exited \<Rightarrow> None)"

datatype life_event = Open_on | Receive_on bool | Disconnect

text \<open>A fault ends the run. The identifier to disconnect is known once the entry is there.\<close>

fun life_event_step :: "life_event \<Rightarrow> life \<Rightarrow> life option" where
  "life_event_step e s = (if lc_fault s \<noteq> None then None else case e of
     Open_on \<Rightarrow> open_step s
   | Receive_on broken \<Rightarrow> receive_step broken s
   | Disconnect \<Rightarrow> if lc_opener s = Inserting then None else Some (life_close s))"

fun life_run :: "life_event list \<Rightarrow> life \<Rightarrow> life option" where
  "life_run [] s = Some s"
| "life_run (e # es) s = (case life_event_step e s of None \<Rightarrow> None | Some t \<Rightarrow> life_run es t)"

lemma life_run_append:
  "life_run (es @ es') s = (case life_run es s of None \<Rightarrow> None | Some t \<Rightarrow> life_run es' t)"
  by (induction es arbitrary: s) (simp_all del: life_event_step.simps split: option.split)

section \<open>Without disconnect\<close>

text \<open>
  The entry and the object go together, and while the receive thread has the pointer and nobody
  else closes, both are there.
\<close>

definition life_ok :: "life \<Rightarrow> bool" where
  "life_ok s \<longleftrightarrow>
     (lc_receiver s = Not_started \<longleftrightarrow> lc_opener s \<in> {Inserting, Mapping, Starting}) \<and>
     (lc_entry s = No_entry \<longleftrightarrow> lc_opener s = Inserting \<or> lc_receiver s = Exited) \<and>
     (lc_alive s \<longleftrightarrow> lc_receiver s \<noteq> Exited) \<and>
     (lc_fault s = None \<or> lc_fault s = Some Null_dereference \<and>
        lc_opener s = Assigning \<and> lc_receiver s = Exited)"

lemma life_ok_start: "life_ok life_start"
  by (simp add: life_ok_def life_start_def)

lemma life_ok_step:
  assumes "life_ok s" and "life_event_step e s = Some t" and "e \<noteq> Disconnect"
  shows "life_ok t"
proof (cases e)
  case Open_on
  then show ?thesis using assms(1,2)
    by (cases "lc_opener s"; cases "lc_entry s")
      (auto simp: life_ok_def split: if_splits)
next
  case (Receive_on b)
  then show ?thesis using assms(1,2)
    by (cases "lc_receiver s"; cases "lc_entry s")
      (auto simp: life_ok_def life_close_def split: if_splits)
qed (use assms(3) in simp)

lemma life_ok_run: "life_ok s \<Longrightarrow> life_run es s = Some t \<Longrightarrow> Disconnect \<notin> set es \<Longrightarrow> life_ok t"
  by (induction es arbitrary: s) (auto split: option.splits dest: life_ok_step)

section \<open>With stop\<close>

text \<open>
  \<open>stop\<close> clears \<open>running_\<close> and joins the accept thread; then it locks the table to its end. Under the
  lock it looks at the connection, if the table has one: clears \<open>running\<close>, shuts the socket down, and
  joins the receive thread if its handle is there already (\<open>joinable\<close>). In the end it clears the
  table, which destroys the connection; a thread object that is still joinable terminates the program.
\<close>

datatype stop_place = Not_stopping | Stop_joins_accept | Stop_looks | Stop_joins | Stop_clears

record stopped_life =
  sl_life :: life
  sl_stop :: stop_place
  sl_terminated :: bool

definition stopped_start :: stopped_life where
  "stopped_start = \<lparr>sl_life = life_start, sl_stop = Not_stopping, sl_terminated = False\<rparr>"

text \<open>The steps of the other threads that take the lock of the table.\<close>

fun takes_lock :: "life_event \<Rightarrow> life \<Rightarrow> bool" where
  "takes_lock Open_on s \<longleftrightarrow> lc_opener s = Inserting"
| "takes_lock (Receive_on broken) s \<longleftrightarrow> lc_receiver s \<in> {Finding, Closing_own}"
| "takes_lock Disconnect s \<longleftrightarrow> True"

definition stop_on :: "bool \<Rightarrow> stopped_life \<Rightarrow> stopped_life option" where
  "stop_on accepted s = (let c = sl_life s in case sl_stop s of
     Not_stopping \<Rightarrow> Some (s\<lparr>sl_stop := Stop_joins_accept\<rparr>)
   | Stop_joins_accept \<Rightarrow>
       if accepted \<and> lc_opener c \<noteq> Opened then None else Some (s\<lparr>sl_stop := Stop_looks\<rparr>)
   | Stop_looks \<Rightarrow> (case lc_entry c of
       No_entry \<Rightarrow> Some (s\<lparr>sl_stop := Stop_clears\<rparr>)
     | Entry joinable \<Rightarrow> Some (s\<lparr>sl_life := c\<lparr>lc_running := False\<rparr>,
         sl_stop := (if joinable then Stop_joins else Stop_clears)\<rparr>))
   | Stop_joins \<Rightarrow> if lc_receiver c = Exited
       then Some (s\<lparr>sl_life := c\<lparr>lc_entry := Entry False\<rparr>, sl_stop := Stop_clears\<rparr>) else None
   | Stop_clears \<Rightarrow> (case lc_entry c of
       No_entry \<Rightarrow> Some (s\<lparr>sl_stop := Not_stopping\<rparr>)
     | Entry joinable \<Rightarrow> Some (s\<lparr>sl_life := c\<lparr>lc_entry := No_entry, lc_alive := False\<rparr>,
         sl_stop := Not_stopping, sl_terminated := joinable\<rparr>)))"

text \<open>
  The opener is the accept thread (\<open>accepted\<close>), which \<open>stop\<close> joins, or a caller of \<open>connect\<close>. While
  \<open>stop\<close> has the lock nobody else takes it.
\<close>

datatype stop_event = On life_event | Stop_on

definition stop_event_step :: "bool \<Rightarrow> stop_event \<Rightarrow> stopped_life \<Rightarrow> stopped_life option" where
  "stop_event_step accepted e s = (if sl_terminated s \<or> lc_fault (sl_life s) \<noteq> None then None else case e of
     Stop_on \<Rightarrow> stop_on accepted s
   | On e \<Rightarrow>
       if sl_stop s \<in> {Stop_looks, Stop_joins, Stop_clears} \<and> takes_lock e (sl_life s) then None
       else map_option (\<lambda>c. s\<lparr>sl_life := c\<rparr>) (life_event_step e (sl_life s)))"

fun stop_run :: "bool \<Rightarrow> stop_event list \<Rightarrow> stopped_life \<Rightarrow> stopped_life option" where
  "stop_run accepted [] s = Some s"
| "stop_run accepted (e # es) s =
     (case stop_event_step accepted e s of None \<Rightarrow> None | Some t \<Rightarrow> stop_run accepted es t)"

text \<open>
  A connection whose thread object is not stored yet: the one thing \<open>stop\<close> must not look at. It
  never does when it has joined the thread that opens the connection.
\<close>

fun looks_too_early :: "bool \<Rightarrow> stop_event list \<Rightarrow> stopped_life \<Rightarrow> bool" where
  "looks_too_early accepted [] s \<longleftrightarrow> False"
| "looks_too_early accepted (e # es) s \<longleftrightarrow>
     e = Stop_on \<and> sl_stop s = Stop_looks \<and> lc_entry (sl_life s) = Entry False \<or>
     (case stop_event_step accepted e s of None \<Rightarrow> False | Some t \<Rightarrow> looks_too_early accepted es t)"

text \<open>
  The handle is stored when the opener has done so, and under the lock the table holds the
  connection while \<open>stop\<close> waits for its thread, and nothing when it clears it.
\<close>

fun stop_fits :: "bool \<Rightarrow> stop_place \<Rightarrow> conn_entry \<Rightarrow> opener_pc \<Rightarrow> bool" where
  "stop_fits accepted place entry pc \<longleftrightarrow>
     (entry = Entry True \<longrightarrow> pc \<in> {Reporting, Opened}) \<and>
     (entry = Entry False \<longrightarrow> pc \<in> {Mapping, Starting, Assigning}) \<and>
     (place = Stop_joins \<longrightarrow> entry = Entry True) \<and> (place = Stop_clears \<longrightarrow> entry = No_entry) \<and>
     (accepted \<and> place \<in> {Stop_looks, Stop_joins, Stop_clears} \<longrightarrow> pc = Opened)"

definition stopped_ok :: "bool \<Rightarrow> stopped_life \<Rightarrow> bool" where
  "stopped_ok accepted s \<longleftrightarrow> life_ok (sl_life s) \<and> \<not> sl_terminated s \<and>
     stop_fits accepted (sl_stop s) (lc_entry (sl_life s)) (lc_opener (sl_life s))"

lemma stopped_ok_start: "stopped_ok accepted stopped_start"
  by (simp add: stopped_ok_def stopped_start_def life_ok_start) (simp add: life_start_def)

lemma open_fits:
  assumes "open_step c = Some c'" and "stop_fits accepted place (lc_entry c) (lc_opener c)"
    and "place \<in> {Stop_looks, Stop_joins, Stop_clears} \<longrightarrow> lc_opener c \<noteq> Inserting"
  shows "stop_fits accepted place (lc_entry c') (lc_opener c')"
  using assms
  by (cases "lc_opener c"; cases "lc_entry c"; cases place) (simp_all, auto)

lemma receive_fits:
  assumes "receive_step b c = Some c'" and "stop_fits accepted place (lc_entry c) (lc_opener c)"
    and "place \<in> {Stop_looks, Stop_joins, Stop_clears} \<longrightarrow> lc_receiver c \<noteq> Closing_own"
  shows "stop_fits accepted place (lc_entry c') (lc_opener c')"
proof (cases "lc_receiver c = Closing_own \<and> lc_entry c \<noteq> No_entry")
  case True
  then have "lc_entry c' = No_entry" "lc_opener c' = lc_opener c"
    using assms(1) by (cases "lc_entry c"; auto simp: life_close_def)+
  then show ?thesis using assms(2,3) True by (cases place) simp_all
next
  case False
  then have "lc_entry c' = lc_entry c" "lc_opener c' = lc_opener c"
    using assms(1)
    by (cases "lc_receiver c"; cases "lc_entry c"; auto simp: life_close_def split: if_splits)+
  then show ?thesis using assms(2) by simp
qed

lemma stopped_ok_life:
  assumes "stopped_ok accepted s" and "stop_event_step accepted (On e) s = Some t" and "e \<noteq> Disconnect"
  shows "stopped_ok accepted t"
proof -
  obtain c where c: "life_event_step e (sl_life s) = Some c" "t = s\<lparr>sl_life := c\<rparr>"
    and free: "sl_stop s \<in> {Stop_looks, Stop_joins, Stop_clears} \<longrightarrow> \<not> takes_lock e (sl_life s)"
    using assms(2)
    by (auto simp del: life_event_step.simps simp: stop_event_step_def split: if_splits)
  have "life_ok c" using life_ok_step [OF _ c(1) assms(3)] assms(1) by (simp add: stopped_ok_def)
  moreover have "stop_fits accepted (sl_stop s) (lc_entry c) (lc_opener c)"
  proof (cases e)
    case Open_on
    then show ?thesis using open_fits [of "sl_life s" c accepted "sl_stop s"] c(1) free assms(1)
      by (simp del: stop_fits.simps open_step.simps add: stopped_ok_def split: if_splits)
  next
    case (Receive_on b)
    then show ?thesis using receive_fits [of b "sl_life s" c accepted "sl_stop s"] c(1) free assms(1)
      by (simp del: stop_fits.simps receive_step.simps add: stopped_ok_def split: if_splits)
  qed (use assms(3) in simp)
  ultimately show ?thesis using assms(1) c(2) by (simp add: stopped_ok_def)
qed

lemma stopped_ok_stop:
  assumes "stopped_ok accepted s" and "stop_event_step accepted Stop_on s = Some t"
    and "\<not> (sl_stop s = Stop_looks \<and> lc_entry (sl_life s) = Entry False)"
  shows "stopped_ok accepted t"
proof -
  let ?c = "sl_life s"
  have ok: "life_ok ?c" "\<not> sl_terminated s" "stop_fits accepted (sl_stop s) (lc_entry ?c) (lc_opener ?c)"
    using assms(1) by (simp_all add: stopped_ok_def)
  have run: "stop_on accepted s = Some t"
    using assms(2) by (simp add: stop_event_step_def split: if_splits)
  have stay: "life_ok (?c\<lparr>lc_running := False\<rparr>)" using ok(1) by (simp add: life_ok_def)
  have there: "lc_receiver ?c \<noteq> Exited" if "lc_entry ?c = Entry j" for j
    using ok(1) that by (simp add: life_ok_def)
  note eval = stop_on_def Let_def
  have same: ?thesis if "t = s\<lparr>sl_stop := place\<rparr>"
    "stop_fits accepted place (lc_entry ?c) (lc_opener ?c)" for place
    using that ok by (simp del: stop_fits.simps add: stopped_ok_def)
  show ?thesis
  proof (cases "sl_stop s")
    case Not_stopping
    then show ?thesis using run ok(3) by (intro same [of Stop_joins_accept]) (simp_all add: eval)
  next
    case Stop_joins_accept
    then show ?thesis using run ok(3)
      by (intro same [of Stop_looks]) (simp_all add: eval split: if_splits)
  next
    case Stop_looks
    show ?thesis
    proof (cases "lc_entry ?c")
      case No_entry
      then show ?thesis using run ok(3) Stop_looks
        by (intro same [of Stop_clears]) (simp_all add: eval)
    next
      case (Entry joinable)
      then have j: joinable using assms(3) Stop_looks by simp
      then have "t = s\<lparr>sl_life := ?c\<lparr>lc_running := False\<rparr>, sl_stop := Stop_joins\<rparr>"
        using run Stop_looks Entry by (simp add: eval)
      then show ?thesis using ok(2,3) stay Stop_looks Entry j by (simp add: stopped_ok_def)
    qed
  next
    case Stop_joins
    then have "lc_entry ?c = Entry True" using ok(3) by simp
    then show ?thesis using run Stop_joins there by (simp add: eval)
  next
    case Stop_clears
    then have "lc_entry ?c = No_entry" using ok(3) by simp
    then show ?thesis using run ok(3) Stop_clears
      by (intro same [of Not_stopping]) (simp_all add: eval)
  qed
qed

lemma stopped_ok_run:
  "stopped_ok accepted s \<Longrightarrow> stop_run accepted es s = Some t \<Longrightarrow> On Disconnect \<notin> set es \<Longrightarrow>
     \<not> looks_too_early accepted es s \<Longrightarrow> stopped_ok accepted t"
proof (induction es arbitrary: s)
  case (Cons e es)
  then obtain u where u: "stop_event_step accepted e s = Some u" "stop_run accepted es u = Some t"
    by (auto split: option.splits)
  have "stopped_ok accepted u"
  proof (cases e)
    case (On e')
    then show ?thesis
      using u(1) Cons.prems(1,3) stopped_ok_life [of accepted s e' u] by auto
  next
    case Stop_on
    then show ?thesis using u(1) Cons.prems(1,4) stopped_ok_stop [of accepted s u] by simp
  qed
  moreover have "On Disconnect \<notin> set es" "\<not> looks_too_early accepted es u"
    using Cons.prems(3,4) u(1) by simp_all
  ultimately show ?case using Cons.IH u(2) by blast
qed simp

text \<open>An accepted connection has its thread object when \<open>stop\<close> gets to it.\<close>

lemma accepted_never_too_early:
  "stopped_ok True s \<Longrightarrow> On Disconnect \<notin> set es \<Longrightarrow> \<not> looks_too_early True es s"
proof (induction es arbitrary: s)
  case (Cons e es)
  have now: "\<not> (sl_stop s = Stop_looks \<and> lc_entry (sl_life s) = Entry False)"
    using Cons.prems(1) by (cases "lc_entry (sl_life s)") (simp_all add: stopped_ok_def, auto)
  have "\<not> looks_too_early True es u" if "stop_event_step True e s = Some u" for u
  proof -
    have "stop_run True [e] s = Some u" "\<not> looks_too_early True [e] s" using that now by simp_all
    then have "stopped_ok True u" using stopped_ok_run Cons.prems by fastforce
    then show ?thesis using Cons by simp
  qed
  then show ?case using now by (auto split: option.split)
qed simp

text \<open> C15: A connection lives as long as its receive thread uses it, as long as nobody disconnects it
  and \<open>stop\<close> does not come upon it between its entry in the table and the storing of its thread
  object, which it cannot when the accept thread opened it. Whatever the interleaving of opening,
  receiving and stopping, the thread never touches freed memory, no thread object is destroyed while
  joinable, and when the thread is in its loop the connection is alive and in the table. The one
  fault left is the opener's, and it meets it only after the receive thread has already exited. \<close>

theorem connection_outlives_receiver:
  assumes "stop_run accepted es stopped_start = Some s" and "On Disconnect \<notin> set es"
    and "accepted \<or> \<not> looks_too_early accepted es stopped_start"
  shows "lc_fault (sl_life s) \<noteq> Some Use_after_free \<and> \<not> sl_terminated s \<and>
    (lc_receiver (sl_life s) = In_loop \<longrightarrow> lc_alive (sl_life s) \<and> lc_entry (sl_life s) \<noteq> No_entry) \<and>
    (lc_fault (sl_life s) = Some Null_dereference \<longrightarrow> lc_receiver (sl_life s) = Exited)"
proof -
  have "\<not> looks_too_early accepted es stopped_start"
    using assms(3) accepted_never_too_early [OF stopped_ok_start assms(2)] by (cases accepted) auto
  then have "stopped_ok accepted s" using stopped_ok_run [OF stopped_ok_start assms(1,2)] by simp
  then have ok: "life_ok (sl_life s)" "\<not> sl_terminated s" by (simp_all add: stopped_ok_def)
  show ?thesis using ok(2) ok(1) unfolding life_ok_def by (cases "lc_receiver (sl_life s)") (simp_all, auto)
qed

definition served_run :: "life_event list" where
  "served_run = [Open_on, Open_on, Open_on, Receive_on False, Open_on, Receive_on False, Open_on,
     Receive_on False]"

theorem connection_outlives_receiver_witness:
  "\<exists>s. stop_run False (map On served_run @ [Stop_on, Stop_on, Stop_on]) stopped_start = Some s \<and>
     sl_stop s = Stop_joins \<and> lc_receiver (sl_life s) = In_loop \<and>
     lc_fault (sl_life s) \<noteq> Some Use_after_free \<and> lc_alive (sl_life s)"
proof -
  let ?es = "map On served_run @ [Stop_on, Stop_on, Stop_on]"
  obtain s where s: "stop_run False ?es stopped_start = Some s" "lc_receiver (sl_life s) = In_loop"
      "sl_stop s = Stop_joins"
    by (simp add: served_run_def stopped_start_def life_start_def stop_event_step_def stop_on_def)
  have "\<not> looks_too_early False ?es stopped_start"
    by (simp add: served_run_def stopped_start_def life_start_def stop_event_step_def stop_on_def)
  then show ?thesis
    using connection_outlives_receiver [OF s(1)] s by (simp add: served_run_def)
qed

section \<open>Races\<close>

text \<open> A peer that connects and closes at once can crash the transport: the receive thread
  finds the connection, leaves its loop and erases the entry before the thread that opened the
  connection has stored its thread object, which is then written through a null pointer. Nothing
  but the peer's closing is needed. \<close>

theorem short_connection_crashes:
  "\<exists>es s. Disconnect \<notin> set es \<and> life_run es life_start = Some s \<and>
     lc_fault s = Some Null_dereference"
  by (rule exI [of _ "[Open_on, Open_on, Open_on, Receive_on True, Receive_on True, Receive_on True,
        Receive_on True, Open_on]"])
    (simp add: life_start_def life_close_def)

text \<open> A stop in the middle of \<open>connect\<close> frees the connection under the feet of its receive thread,
  with nothing but \<open>connect\<close> and \<open>stop\<close> called: the thread has been started but its object not been
  stored, so \<open>stop\<close> finds nothing to join and clears the table. The opener then writes the thread
  object through a null pointer; if it gets there while \<open>stop\<close> clears, the program is terminated. \<close>

theorem stop_frees_in_use:
  "\<exists>es s. On Disconnect \<notin> set es \<and> stop_run False es stopped_start = Some s \<and>
     lc_fault (sl_life s) = Some Use_after_free"
  "\<exists>es s. On Disconnect \<notin> set es \<and> stop_run False es stopped_start = Some s \<and> sl_terminated s"
proof -
  let ?opening = "[On Open_on, On Open_on, On Open_on, On (Receive_on False), Stop_on, Stop_on, Stop_on]"
  note eval = stopped_start_def life_start_def stop_event_step_def stop_on_def
  show "\<exists>es s. On Disconnect \<notin> set es \<and> stop_run False es stopped_start = Some s \<and>
      lc_fault (sl_life s) = Some Use_after_free"
    by (rule exI [of _ "?opening @ [Stop_on, On (Receive_on False)]"]) (simp add: eval)
  show "\<exists>es s. On Disconnect \<notin> set es \<and> stop_run False es stopped_start = Some s \<and> sl_terminated s"
    by (rule exI [of _ "?opening @ [On Open_on, Stop_on]"]) (simp add: eval)
qed

text \<open> C20: \<open>disconnect\<close> frees the connection under the feet of its receive thread: from every state
  in which the thread is in its loop and the connection alive, disconnecting and one more turn of
  the loop reads freed memory, since the thread is detached and not waited for. \<close>

theorem disconnect_frees_in_use:
  assumes "life_run es life_start = Some s" and "Disconnect \<notin> set es"
    and "lc_receiver s = In_loop" and "lc_fault s = None"
  shows "\<exists>t. life_run (es @ [Disconnect, Receive_on broken]) life_start = Some t \<and>
    lc_fault t = Some Use_after_free"
proof -
  have ok: "life_ok s" by (rule life_ok_run [OF life_ok_start assms(1,2)])
  have "\<exists>t. life_run [Disconnect, Receive_on broken] s = Some t \<and>
      lc_fault t = Some Use_after_free"
    using ok assms(3,4) by (cases "lc_entry s") (auto simp: life_ok_def life_close_def)
  then show ?thesis using assms(1) by (simp add: life_run_append del: life_run.simps)
qed

theorem disconnect_frees_in_use_witness:
  "\<exists>t. life_run (served_run @ [Disconnect, Receive_on False]) life_start = Some t \<and>
    lc_fault t = Some Use_after_free"
proof -
  obtain s where s: "life_run served_run life_start = Some s" "lc_receiver s = In_loop" "lc_fault s = None"
    by (simp add: served_run_def life_start_def)
  have "Disconnect \<notin> set served_run" by (simp add: served_run_def)
  from disconnect_frees_in_use [OF s(1) this s(2,3)] show ?thesis .
qed

end
