(* ===== verification/Locks.thy ===== *)
theory Locks
  imports Prelude
begin

text \<open>
  Threads and mutexes. What an operation does with locks is written down as its skeleton: the scopes
  of its lock guards, its accesses of shared members, its branches, loops and calls of user code,
  in their order, and the calls of the system in which a thread may be kept waiting. Skeletons run as
  interleaved threads, and two disciplines are shown to be enough: among locks taken in ascending
  order there is no deadlock, so a thread that waits for a lock waits in the end for one that goes
  on or that the system keeps waiting; and members accessed under their guard are never raced for.
\<close>

section \<open>Skeletons and their runs\<close>

text \<open>
  \<open>Under m b\<close> is the scope of a lock guard; \<open>Attempt m b\<close> a lock with a time limit, whose scope is
  passed over when the time is up. \<open>Unlock\<close> occurs only at run time, as the end of a scope that
  has been entered. \<open>Blocks b\<close> is a call of the system that returns when others let it: a client
  that connects, a peer that takes the connection, sends or reads, a thread that ends.
\<close>

datatype blocking = Accepting | Connecting | Receiving | Sending | Joining

datatype ('m, 'v, 'h) act =
    Under 'm "('m, 'v, 'h) act list"
  | Attempt 'm "('m, 'v, 'h) act list"
  | Unlock 'm
  | Read_member 'v
  | Write_member 'v
  | Either "('m, 'v, 'h) act list" "('m, 'v, 'h) act list"
  | Repeat "('m, 'v, 'h) act list"
  | Call 'h
  | Blocks blocking

type_synonym ('m, 'v, 'h) thread = "('m, 'v, 'h) act list"

text \<open>The mutexes a thread holds are those it is still to unlock.\<close>

definition held :: "('m, 'v, 'h) thread \<Rightarrow> 'm set" where
  "held t = {m. Unlock m \<in> set t}"

lemma held_simps [simp]:
  "held [] = {}" "held (Unlock m # t) = insert m (held t)" "held (Under m b # t) = held t"
  "held (Attempt m b # t) = held t" "held (Read_member v # t) = held t"
  "held (Write_member v # t) = held t" "held (Either p q # t) = held t"
  "held (Repeat p # t) = held t" "held (Call h # t) = held t" "held (Blocks c # t) = held t"
  "held (s @ t) = held s \<union> held t"
  by (auto simp: held_def)

text \<open>
  Thread \<open>i\<close> takes a step; what the call of a handler runs is up to the user, one of \<open>calls h\<close>.
  A mutex that is held, by whatever thread, cannot be locked. A call of the system may return at
  any time, and it may never return.
\<close>

inductive lk_step ::
    "('h \<Rightarrow> ('m, 'v, 'h) thread set) \<Rightarrow> nat \<Rightarrow> ('m, 'v, 'h) thread list \<Rightarrow> ('m, 'v, 'h) thread list \<Rightarrow> bool"
  for calls and i and ts where
  Lock: "i < length ts \<Longrightarrow> ts ! i = Under m b # t \<Longrightarrow> \<forall>u \<in> set ts. m \<notin> held u \<Longrightarrow>
    lk_step calls i ts (ts[i := b @ Unlock m # t])"
| Lock_in_time: "i < length ts \<Longrightarrow> ts ! i = Attempt m b # t \<Longrightarrow> \<forall>u \<in> set ts. m \<notin> held u \<Longrightarrow>
    lk_step calls i ts (ts[i := b @ Unlock m # t])"
| Time_up: "i < length ts \<Longrightarrow> ts ! i = Attempt m b # t \<Longrightarrow> lk_step calls i ts (ts[i := t])"
| Release: "i < length ts \<Longrightarrow> ts ! i = Unlock m # t \<Longrightarrow> lk_step calls i ts (ts[i := t])"
| Reading: "i < length ts \<Longrightarrow> ts ! i = Read_member v # t \<Longrightarrow> lk_step calls i ts (ts[i := t])"
| Writing: "i < length ts \<Longrightarrow> ts ! i = Write_member v # t \<Longrightarrow> lk_step calls i ts (ts[i := t])"
| One: "i < length ts \<Longrightarrow> ts ! i = Either p q # t \<Longrightarrow> lk_step calls i ts (ts[i := p @ t])"
| Other: "i < length ts \<Longrightarrow> ts ! i = Either p q # t \<Longrightarrow> lk_step calls i ts (ts[i := q @ t])"
| Again: "i < length ts \<Longrightarrow> ts ! i = Repeat p # t \<Longrightarrow>
    lk_step calls i ts (ts[i := p @ Repeat p # t])"
| Leave: "i < length ts \<Longrightarrow> ts ! i = Repeat p # t \<Longrightarrow> lk_step calls i ts (ts[i := t])"
| Enter: "i < length ts \<Longrightarrow> ts ! i = Call h # t \<Longrightarrow> p \<in> calls h \<Longrightarrow>
    lk_step calls i ts (ts[i := p @ t])"
| Return: "i < length ts \<Longrightarrow> ts ! i = Blocks c # t \<Longrightarrow> lk_step calls i ts (ts[i := t])"

inductive lk_reach ::
    "('h \<Rightarrow> ('m, 'v, 'h) thread set) \<Rightarrow> ('m, 'v, 'h) thread list \<Rightarrow> ('m, 'v, 'h) thread list \<Rightarrow> bool"
  for calls and ts where
  Lk_start: "lk_reach calls ts ts"
| Lk_next: "lk_reach calls ts us \<Longrightarrow> lk_step calls i us vs \<Longrightarrow> lk_reach calls ts vs"

lemma lk_step_length: "lk_step calls k ts us \<Longrightarrow> length us = length ts"
  by (cases rule: lk_step.cases) auto

lemma lk_reach_length: "lk_reach calls ts us \<Longrightarrow> length us = length ts"
  by (induction rule: lk_reach.induct) (auto dest: lk_step_length)

text \<open>Which threads wait for which: the first wants a mutex that the second holds.\<close>

definition waits_for :: "('m, 'v, 'h) thread list \<Rightarrow> (nat \<times> nat) set" where
  "waits_for ts = {(i, j). i < length ts \<and> j < length ts \<and>
     (\<exists>m b t. ts ! i = Under m b # t \<and> m \<in> held (ts ! j))}"

text \<open>
  A thread that wants a mutex it holds itself waits for ever: nobody else can release it.
\<close>

lemma own_lock_step:
  assumes "lk_step calls k ts us" and "i < length ts" and "ts ! i = Under m b # t" and "m \<in> held t"
  shows "us ! i = ts ! i"
  using assms
proof (cases rule: lk_step.cases)
  case (Lock m' b' t')
  show ?thesis
  proof (cases "i = k")
    case True
    have "m \<in> held (ts ! i)" using assms(3,4) by simp
    moreover have "m' = m" using Lock(3) True assms(3) by simp
    ultimately have False using Lock(4) nth_mem [OF assms(2)] by blast
    then show ?thesis by simp
  qed (simp add: Lock(1))
qed (auto simp: nth_list_update)

lemma own_lock_blocks:
  assumes "lk_reach calls ts us" and "i < length ts" and "ts ! i = Under m b # t" and "m \<in> held t"
  shows "us ! i = ts ! i"
  using assms(1)
proof (induction rule: lk_reach.induct)
  case (Lk_next us k vs)
  have "i < length us" using lk_reach_length [OF Lk_next(1)] assms(2) by simp
  then show ?case using own_lock_step [OF Lk_next(2)] Lk_next(3) assms(3,4) by simp
qed simp

lemma own_lock_ahead_step:
  assumes "lk_step calls k ts us" and "i < length ts" and "ts ! i = z @ Under m b # t" and "m \<in> held t"
  shows "\<exists>z'. us ! i = z' @ Under m b # t"
proof (cases "z = [] \<or> i \<noteq> k")
  case True
  have "us ! i = ts ! i" if "i \<noteq> k" using assms(1) that by (cases rule: lk_step.cases) auto
  then have "us ! i = ts ! i" using True own_lock_step [OF assms(1,2) _ assms(4), of b] assms(3) by auto
  then show ?thesis using assms(3) by (intro exI [of _ z]) simp
next
  case False
  then obtain a z' where z: "ts ! k = a # z' @ Under m b # t" "i = k"
    using assms(3) by (cases z) auto
  have "\<exists>p. us = ts[k := p @ z' @ Under m b # t]"
    using assms(1) z(1) by (cases rule: lk_step.cases) (force intro: exI [of _ "[]"] exI [of _ "_ @ [_]"])+
  then obtain p where "us = ts[k := p @ z' @ Under m b # t]" ..
  then show ?thesis using assms(2) z(2) by (intro exI [of _ "p @ z'"]) simp
qed

lemma own_lock_ahead:
  assumes "lk_reach calls ts us" and "i < length ts" and "ts ! i = z @ Under m b # t" and "m \<in> held t"
  shows "\<exists>z'. us ! i = z' @ Under m b # t"
  using assms(1)
proof (induction rule: lk_reach.induct)
  case (Lk_next us k vs)
  then show ?case
    using own_lock_ahead_step [OF Lk_next(2)] lk_reach_length [OF Lk_next(1)] assms(2,4) by auto
qed (use assms(3) in \<open>intro exI [of _ z], simp\<close>)

text \<open>Whoever wants a mutex that some thread holds cannot go on.\<close>

lemma held_blocks:
  assumes "vs ! j = Under m b # s" and "i < length vs" and "m \<in> held (vs ! i)"
  shows "\<nexists>ws. lk_step calls j vs ws"
proof
  assume "\<exists>ws. lk_step calls j vs ws"
  then obtain ws where "lk_step calls j vs ws" ..
  then show False
    using assms nth_mem [OF assms(2)] by (cases rule: lk_step.cases) auto
qed

text \<open>
  A run can be computed from a schedule: the thread that goes next, with the alternative it takes
  (to lock in time, the first branch, another turn), and what each call runs.
\<close>

definition lk_do ::
    "('h \<rightharpoonup> ('m, 'v, 'h) thread) \<Rightarrow> nat \<times> bool \<Rightarrow> ('m, 'v, 'h) thread list \<Rightarrow> ('m, 'v, 'h) thread list option"
  where
  "lk_do body c ts = (case c of (i, first) \<Rightarrow> if i < length ts then case ts ! i of
       [] \<Rightarrow> None
     | Under m b # t \<Rightarrow>
         if list_all (\<lambda>u. m \<notin> held u) ts then Some (ts[i := b @ Unlock m # t]) else None
     | Attempt m b # t \<Rightarrow>
         if first then if list_all (\<lambda>u. m \<notin> held u) ts then Some (ts[i := b @ Unlock m # t]) else None
         else Some (ts[i := t])
     | Unlock m # t \<Rightarrow> Some (ts[i := t])
     | Read_member v # t \<Rightarrow> Some (ts[i := t])
     | Write_member v # t \<Rightarrow> Some (ts[i := t])
     | Either p q # t \<Rightarrow> Some (ts[i := (if first then p else q) @ t])
     | Repeat p # t \<Rightarrow> Some (ts[i := if first then p @ Repeat p # t else t])
     | Call h # t \<Rightarrow> map_option (\<lambda>p. ts[i := p @ t]) (body h)
     | Blocks c # t \<Rightarrow> Some (ts[i := t])
     else None)"

fun lk_exec ::
    "('h \<rightharpoonup> ('m, 'v, 'h) thread) \<Rightarrow> (nat \<times> bool) list \<Rightarrow> ('m, 'v, 'h) thread list \<Rightarrow> ('m, 'v, 'h) thread list option"
  where
  "lk_exec body [] ts = Some ts"
| "lk_exec body (c # cs) ts = (case lk_do body c ts of None \<Rightarrow> None | Some us \<Rightarrow> lk_exec body cs us)"

lemma lk_do_step:
  assumes "lk_do body (i, first) ts = Some us" and "\<forall>h p. body h = Some p \<longrightarrow> p \<in> calls h"
  shows "lk_step calls i ts us"
proof -
  have i: "i < length ts" using assms(1) by (simp add: lk_do_def split: if_splits)
  obtain a t where a: "ts ! i = a # t"
    using assms(1) by (cases "ts ! i") (auto simp: lk_do_def split: if_splits)
  show ?thesis
    using assms i a
    by (cases a) (auto simp: lk_do_def list_all_iff intro: lk_step.intros split: if_splits)
qed

lemma lk_reach_trans:
  assumes "lk_reach calls us vs" and "lk_reach calls ts us"
  shows "lk_reach calls ts vs"
  using assms(1) by (induction rule: lk_reach.induct) (use assms(2) lk_reach.intros in blast)+

lemma lk_step_reach: "lk_step calls i ts us \<Longrightarrow> lk_reach calls us vs \<Longrightarrow> lk_reach calls ts vs"
  by (blast intro: lk_reach_trans lk_reach.intros)

lemma lk_exec_reach:
  "lk_exec body cs ts = Some us \<Longrightarrow> \<forall>h p. body h = Some p \<longrightarrow> p \<in> calls h \<Longrightarrow> lk_reach calls ts us"
proof (induction cs arbitrary: ts)
  case Nil
  then show ?case by (simp add: Lk_start)
next
  case (Cons c cs)
  then obtain vs where "lk_do body c ts = Some vs" "lk_exec body cs vs = Some us"
    by (auto split: option.splits)
  then show ?case
    using Cons.IH [of vs] Cons.prems(2) lk_do_step [of body "fst c" "snd c" ts vs calls]
    by (auto intro: lk_step_reach)
qed

text \<open>What one thread does alone it does beside threads that hold nothing.\<close>

lemma lk_do_beside:
  assumes "lk_do body c [t] = Some us" and "\<forall>u \<in> set others. held u = {}"
  shows "\<exists>v. us = [v] \<and> lk_do body c (t # others) = Some (v # others)"
proof -
  obtain first where c: "c = (0, first)"
    using assms(1) by (cases c) (auto simp: lk_do_def split: if_splits)
  obtain a s where t: "t = a # s"
    using assms(1) c by (cases t) (auto simp: lk_do_def)
  show ?thesis
    using assms unfolding c t
    by (cases a) (auto simp: lk_do_def list_all_iff split: if_splits)
qed

lemma lk_exec_beside:
  assumes "lk_exec body cs [t] = Some us" and "\<forall>u \<in> set others. held u = {}"
  shows "\<exists>v. us = [v] \<and> lk_exec body cs (t # others) = Some (v # others)"
  using assms(1)
proof (induction cs arbitrary: t)
  case (Cons c cs)
  then obtain vs where "lk_do body c [t] = Some vs" "lk_exec body cs vs = Some us"
    by (auto split: option.splits)
  then show ?case using lk_do_beside [of body c t vs others] assms(2) Cons.IH by auto
qed simp

text \<open>
  A run of one thread that ends at its own lock ends there whatever others do that hold nothing
  when it begins.
\<close>

lemma run_to_own_lock:
  assumes "lk_exec body cs [s] = Some [Under m b # t]" and "m \<in> held t"
    and "\<forall>h p. body h = Some p \<longrightarrow> p \<in> calls h" and "\<forall>u \<in> set others. held u = {}"
  shows "\<exists>us. lk_reach calls (s # others) us \<and> {vs ! 0 |vs. lk_reach calls us vs} = {Under m b # t}"
proof -
  let ?us = "(Under m b # t) # others"
  have "lk_reach calls (s # others) ?us"
    using lk_exec_beside [OF assms(1,4)] lk_exec_reach [OF _ assms(3)] by auto
  moreover have "vs ! 0 = Under m b # t" if "lk_reach calls ?us vs" for vs
    using own_lock_blocks [OF that, of 0 m b t] assms(2) by simp
  moreover have "lk_reach calls ?us ?us \<and> ?us ! 0 = Under m b # t" by (simp add: Lk_start)
  ultimately show ?thesis by (intro exI [of _ ?us]) force
qed

section \<open>Ascending order\<close>

text \<open>
  Every mutex has a rank, and a callback a floor: the highest rank its callers hold. A skeleton
  is ascending above \<open>r\<close> if each mutex it takes ranks above \<open>r\<close> and above those it holds, and
  waits for clients and for data only where it holds nothing.
\<close>

fun under_lock :: "blocking \<Rightarrow> bool" where
  "under_lock Accepting \<longleftrightarrow> False"
| "under_lock Receiving \<longleftrightarrow> False"
| "under_lock Connecting \<longleftrightarrow> True"
| "under_lock Sending \<longleftrightarrow> True"
| "under_lock Joining \<longleftrightarrow> True"

fun ascends :: "('m \<Rightarrow> nat) \<Rightarrow> ('h \<Rightarrow> nat) \<Rightarrow> nat \<Rightarrow> ('m, 'v, 'h) act \<Rightarrow> bool" where
  "ascends rank floor r (Under m b) \<longleftrightarrow> r < rank m \<and> list_all (ascends rank floor (rank m)) b"
| "ascends rank floor r (Attempt m b) \<longleftrightarrow> r < rank m \<and> list_all (ascends rank floor (rank m)) b"
| "ascends rank floor r (Unlock m) \<longleftrightarrow> False"
| "ascends rank floor r (Read_member v) \<longleftrightarrow> True"
| "ascends rank floor r (Write_member v) \<longleftrightarrow> True"
| "ascends rank floor r (Either p q) \<longleftrightarrow>
     list_all (ascends rank floor r) p \<and> list_all (ascends rank floor r) q"
| "ascends rank floor r (Repeat p) \<longleftrightarrow> list_all (ascends rank floor r) p"
| "ascends rank floor r (Call h) \<longleftrightarrow> r \<le> floor h"
| "ascends rank floor r (Blocks c) \<longleftrightarrow> r = 0 \<or> under_lock c"

lemma ascends_mono: "ascends rank floor r a \<Longrightarrow> r' \<le> r \<Longrightarrow> ascends rank floor r' a"
proof (induction rank floor r a arbitrary: r' rule: ascends.induct)
  case (6 rank floor r p q)
  then show ?case by (auto simp: list_all_iff)
next
  case (7 rank floor r p)
  then show ?case by (auto simp: list_all_iff)
qed auto

text \<open>The rank of the innermost mutex a thread holds, and the shape of what is left to run.\<close>

fun level :: "('m \<Rightarrow> nat) \<Rightarrow> ('m, 'v, 'h) thread \<Rightarrow> nat" where
  "level rank [] = 0"
| "level rank (a # t) = (case a of Unlock m \<Rightarrow> rank m | _ \<Rightarrow> level rank t)"

fun rest_ok :: "('m \<Rightarrow> nat) \<Rightarrow> ('h \<Rightarrow> nat) \<Rightarrow> ('m, 'v, 'h) thread \<Rightarrow> bool" where
  "rest_ok rank floor [] \<longleftrightarrow> True"
| "rest_ok rank floor (a # t) \<longleftrightarrow> rest_ok rank floor t \<and>
     (case a of Unlock m \<Rightarrow> level rank t < rank m | _ \<Rightarrow> ascends rank floor (level rank t) a)"

lemma level_append: "list_all (ascends rank floor r) p \<Longrightarrow> level rank (p @ t) = level rank t"
  by (induction p) (auto split: act.split)

lemma rest_ok_append:
  "list_all (ascends rank floor (level rank t)) p \<Longrightarrow> rest_ok rank floor t \<Longrightarrow>
     rest_ok rank floor (p @ t)"
proof (induction p)
  case (Cons a p)
  then show ?case using level_append [of rank floor "level rank t" p t] by (cases a) auto
qed simp

lemma held_level: "rest_ok rank floor t \<Longrightarrow> m \<in> held t \<Longrightarrow> rank m \<le> level rank t"
proof (induction t)
  case (Cons a t)
  then show ?case by (cases a) auto
qed simp

lemma ascends_held: "list_all (ascends rank floor r) p \<Longrightarrow> held p = {}"
  by (induction p) (auto simp: held_def)

text \<open>
  The contract: user code called at a floor is ascending above it, and a callback runs something.
\<close>

locale lock_order =
  fixes rank :: "'m \<Rightarrow> nat" and floor :: "'h \<Rightarrow> nat"
    and calls :: "'h \<Rightarrow> ('m, 'v, 'h) thread set"
  assumes calls_ascend: "p \<in> calls h \<Longrightarrow> list_all (ascends rank floor (floor h)) p"
    and calls_some: "\<exists>p. p \<in> calls h"
begin

lemma step_rest_ok:
  assumes "lk_step calls k ts us" and "\<forall>t \<in> set ts. rest_ok rank floor t"
  shows "\<forall>t \<in> set us. rest_ok rank floor t"
proof -
  have upd: "\<forall>t \<in> set (ts[i := t']). rest_ok rank floor t" if "rest_ok rank floor t'" for i t'
    using assms(2) that set_update_subset_insert [of ts i t'] by blast
  have nth: "i < length ts \<Longrightarrow> rest_ok rank floor (ts ! i)" for i using assms(2) by simp
  have tail: "rest_ok rank floor t" if "i < length ts" "ts ! i = a # t" for i a t
    using nth [OF that(1)] that(2) by simp
  show ?thesis
    using assms(1)
  proof (cases rule: lk_step.cases)
    case (Lock m b t)
    then show ?thesis using nth [of k] by (auto intro!: upd rest_ok_append)
  next
    case (Lock_in_time m b t)
    then show ?thesis using nth [of k] by (auto intro!: upd rest_ok_append)
  next
    case (One p q t)
    then show ?thesis using nth [of k] by (auto intro!: upd rest_ok_append)
  next
    case (Other p q t)
    then show ?thesis using nth [of k] by (auto intro!: upd rest_ok_append)
  next
    case (Again p t)
    then show ?thesis using nth [of k] by (auto intro!: upd rest_ok_append)
  next
    case (Enter h t p)
    then have "list_all (ascends rank floor (level rank t)) p"
      using nth [of k] calls_ascend [of p h] by (auto simp: list_all_iff intro: ascends_mono)
    then show ?thesis using Enter nth [of k] by (auto intro!: upd rest_ok_append)
  qed (use tail in \<open>auto intro!: upd\<close>)
qed

lemma reach_rest_ok:
  assumes "lk_reach calls ts us" and "\<forall>t \<in> set ts. list_all (ascends rank floor 0) t"
  shows "\<forall>t \<in> set us. rest_ok rank floor t"
  using assms(1)
proof (induction rule: lk_reach.induct)
  case Lk_start
  show ?case using assms(2) rest_ok_append [of rank floor "[]"] by fastforce
next
  case (Lk_next us k vs)
  then show ?case using step_rest_ok by blast
qed

text \<open>
  A thread that cannot go on waits for a mutex that ranks above all it holds, so the holder, if
  it waits too, waits for one that ranks higher still.
\<close>

lemma waits:
  assumes "\<nexists>us. lk_step calls i ts us" and "i < length ts" and "ts ! i \<noteq> []"
  shows "\<exists>m b t. ts ! i = Under m b # t \<and> (\<exists>j < length ts. m \<in> held (ts ! j))"
proof -
  obtain a t where a: "ts ! i = a # t" using assms(3) by (cases "ts ! i") auto
  show ?thesis
  proof (cases a)
    case (Under m b)
    then obtain u where "u \<in> set ts" "m \<in> held u"
      using assms(1,2) a lk_step.Lock [of i ts m b t calls] by blast
    then show ?thesis using a Under by (auto simp: in_set_conv_nth)
  next
    case (Attempt m b)
    then show ?thesis using lk_step.Time_up [of i ts m b t calls] a assms(1,2) by blast
  next
    case (Unlock m)
    then show ?thesis using lk_step.Release [of i ts m t calls] a assms(1,2) by blast
  next
    case (Read_member v)
    then show ?thesis using lk_step.Reading [of i ts v t calls] a assms(1,2) by blast
  next
    case (Write_member v)
    then show ?thesis using lk_step.Writing [of i ts v t calls] a assms(1,2) by blast
  next
    case (Either p q)
    then show ?thesis using lk_step.One [of i ts p q t calls] a assms(1,2) by blast
  next
    case (Repeat p)
    then show ?thesis using lk_step.Leave [of i ts p t calls] a assms(1,2) by blast
  next
    case (Call h)
    then show ?thesis
      using lk_step.Enter [of i ts h t _ calls] a assms(1,2) calls_some [of h] by blast
  next
    case (Blocks c)
    then show ?thesis using lk_step.Return [of i ts c t calls] a assms(1,2) by blast
  qed
qed

lemma wanted_ranks_higher:
  assumes "lk_reach calls ts0 ts" and "\<forall>t \<in> set ts0. list_all (ascends rank floor 0) t"
    and "j < length ts" and "m \<in> held (ts ! j)" and "ts ! j = Under m' b # u"
  shows "rank m < rank m'"
proof -
  have "rest_ok rank floor (ts ! j)" using reach_rest_ok [OF assms(1,2)] assms(3) by simp
  then show ?thesis using held_level [of rank floor u m] assms(4,5) by auto
qed

text \<open>A thread that holds a mutex is not kept waiting for a client or for data.\<close>

lemma held_under_lock:
  assumes "lk_reach calls ts0 ts" and "\<forall>t \<in> set ts0. list_all (ascends rank floor 0) t"
    and "j < length ts" and "m \<in> held (ts ! j)" and "ts ! j = Blocks c # u" and "0 < rank m"
  shows "under_lock c"
proof -
  have "rest_ok rank floor (ts ! j)" using reach_rest_ok [OF assms(1,2)] assms(3) by simp
  then show ?thesis using held_level [of rank floor u m] assms(4-6) by auto
qed

text \<open>
  Follow the waiting threads: the chain ends at one that goes on, unless the system keeps it
  waiting.
\<close>

lemma chain_ends:
  assumes "lk_reach calls ts0 ts" and "\<forall>t \<in> set ts0. list_all (ascends rank floor 0) t"
    and "i < length ts" and "ts ! i \<noteq> []"
  shows "\<exists>j. (i, j) \<in> (waits_for ts)\<^sup>* \<and> (\<exists>us. lk_step calls j ts us)"
proof (rule ccontr)
  assume stuck: "\<not> ?thesis"
  define wants where "wants j = (case ts ! j of Under m b # t \<Rightarrow> rank m | _ \<Rightarrow> 0)" for j
  define W where "W = {j. (i, j) \<in> (waits_for ts)\<^sup>* \<and> j < length ts \<and> ts ! j \<noteq> []}"
  have "i \<in> W" "finite W" using assms(3,4) by (simp_all add: W_def)
  then have "Max (wants ` W) \<in> wants ` W" by (intro Max_in) auto
  then obtain k where k: "k \<in> W" and top: "wants k = Max (wants ` W)" by auto
  obtain m b t j where w: "ts ! k = Under m b # t" "j < length ts" "m \<in> held (ts ! j)"
    using waits [of k ts] stuck k unfolding W_def by blast
  have "(k, j) \<in> waits_for ts" using w k by (auto simp: waits_for_def W_def)
  then have j: "j \<in> W" using k w by (auto simp: W_def intro: rtrancl_into_rtrancl)
  then obtain m' b' t' where w': "ts ! j = Under m' b' # t'"
    using waits [of j ts] stuck unfolding W_def by blast
  have "rank m < rank m'" using wanted_ranks_higher [OF assms(1,2) w(2,3) w'] .
  moreover have "wants j \<le> wants k" using j \<open>finite W\<close> by (simp add: top)
  ultimately show False using w(1) w' by (simp add: wants_def)
qed

lemma no_deadlock:
  assumes "lk_reach calls ts0 ts" and "\<forall>t \<in> set ts0. list_all (ascends rank floor 0) t"
    and "\<forall>m. 0 < rank m" and "i < length ts" and "ts ! i \<noteq> []"
  shows "\<exists>j. (i, j) \<in> (waits_for ts)\<^sup>* \<and>
    ((\<exists>us. lk_step calls j ts us) \<and> (\<nexists>c u. ts ! j = Blocks c # u) \<or>
     (\<exists>c u. ts ! j = Blocks c # u \<and> (j = i \<or> under_lock c)))"
proof -
  obtain j where j: "(i, j) \<in> (waits_for ts)\<^sup>*" "\<exists>us. lk_step calls j ts us"
    using chain_ends [OF assms(1,2,4,5)] by blast
  have "under_lock c" if c: "ts ! j = Blocks c # u" and "j \<noteq> i" for c u
  proof -
    obtain k where "(k, j) \<in> waits_for ts" using j(1) \<open>j \<noteq> i\<close> by (auto elim: rtranclE)
    then show ?thesis
      using held_under_lock [OF assms(1,2) _ _ c] assms(3) by (auto simp: waits_for_def)
  qed
  then show ?thesis using j by (intro exI [of _ j]) auto
qed

end

section \<open>Guards\<close>

text \<open>A member with a guard is accessed only while the guard is held.\<close>

fun guarded :: "('v \<Rightarrow> 'm option) \<Rightarrow> 'm list \<Rightarrow> ('m, 'v, 'h) act \<Rightarrow> bool" where
  "guarded guard ms (Under m b) \<longleftrightarrow> list_all (guarded guard (m # ms)) b"
| "guarded guard ms (Attempt m b) \<longleftrightarrow> list_all (guarded guard (m # ms)) b"
| "guarded guard ms (Unlock m) \<longleftrightarrow> False"
| "guarded guard ms (Read_member v) \<longleftrightarrow> (case guard v of None \<Rightarrow> True | Some m \<Rightarrow> m \<in> set ms)"
| "guarded guard ms (Write_member v) \<longleftrightarrow> (case guard v of None \<Rightarrow> True | Some m \<Rightarrow> m \<in> set ms)"
| "guarded guard ms (Either p q) \<longleftrightarrow> list_all (guarded guard ms) p \<and> list_all (guarded guard ms) q"
| "guarded guard ms (Repeat p) \<longleftrightarrow> list_all (guarded guard ms) p"
| "guarded guard ms (Call h) \<longleftrightarrow> True"
| "guarded guard ms (Blocks c) \<longleftrightarrow> True"

lemma guarded_mono: "guarded guard ms a \<Longrightarrow> set ms \<subseteq> set ms' \<Longrightarrow> guarded guard ms' a"
proof (induction guard ms a arbitrary: ms' rule: guarded.induct)
  case (1 guard ms m b)
  have "guarded guard (m # ms') a" if "a \<in> set b" for a
    using "1.IH" [of a "m # ms'"] "1.prems" that by (auto simp: list_all_iff)
  then show ?case by (simp add: list_all_iff)
next
  case (2 guard ms m b)
  have "guarded guard (m # ms') a" if "a \<in> set b" for a
    using "2.IH" [of a "m # ms'"] "2.prems" that by (auto simp: list_all_iff)
  then show ?case by (simp add: list_all_iff)
next
  case (6 guard ms p q)
  then show ?case by (auto simp: list_all_iff)
next
  case (7 guard ms p)
  then show ?case by (auto simp: list_all_iff)
qed (auto split: option.splits)

text \<open>The mutexes held, as a list, and the shape of what is left to run.\<close>

fun locks_of :: "('m, 'v, 'h) thread \<Rightarrow> 'm list" where
  "locks_of [] = []"
| "locks_of (a # t) = (case a of Unlock m \<Rightarrow> m # locks_of t | _ \<Rightarrow> locks_of t)"

fun rest_guarded :: "('v \<Rightarrow> 'm option) \<Rightarrow> ('m, 'v, 'h) thread \<Rightarrow> bool" where
  "rest_guarded guard [] \<longleftrightarrow> True"
| "rest_guarded guard (a # t) \<longleftrightarrow> rest_guarded guard t \<and>
     (case a of Unlock m \<Rightarrow> True | _ \<Rightarrow> guarded guard (locks_of t) a)"

lemma set_locks_of: "set (locks_of t) = held t"
  by (induction t) (auto simp: held_def split: act.splits)

lemma locks_of_append: "list_all (guarded guard ms) p \<Longrightarrow> locks_of (p @ t) = locks_of t"
  by (induction p) (auto split: act.split)

lemma guarded_held: "list_all (guarded guard ms) p \<Longrightarrow> held p = {}"
  by (induction p) (auto simp: held_def)

lemma rest_guarded_append:
  "list_all (guarded guard (locks_of t)) p \<Longrightarrow> rest_guarded guard t \<Longrightarrow> rest_guarded guard (p @ t)"
proof (induction p)
  case (Cons a p)
  then show ?case using locks_of_append [of guard "locks_of t" p t] by (cases a) auto
qed simp

locale lock_guards =
  fixes guard :: "'v \<Rightarrow> 'm option" and calls :: "'h \<Rightarrow> ('m, 'v, 'h) thread set"
  assumes calls_guarded: "p \<in> calls h \<Longrightarrow> list_all (guarded guard []) p"
begin

text \<open>What holds of all threads: guards are kept, and no mutex is held twice.\<close>

definition threads_ok :: "('m, 'v, 'h) thread list \<Rightarrow> bool" where
  "threads_ok ts \<longleftrightarrow> (\<forall>t \<in> set ts. rest_guarded guard t) \<and>
     (\<forall>i < length ts. \<forall>j < length ts. i \<noteq> j \<longrightarrow> held (ts ! i) \<inter> held (ts ! j) = {})"

lemma threads_ok_update:
  assumes "threads_ok ts" and "rest_guarded guard t'"
    and "\<forall>m \<in> held t'. m \<in> held (ts ! i) \<or> (\<forall>u \<in> set ts. m \<notin> held u)"
  shows "threads_ok (ts[i := t'])"
proof -
  have "\<forall>t \<in> set (ts[i := t']). rest_guarded guard t"
    using assms(1,2) set_update_subset_insert [of ts i t'] by (auto simp: threads_ok_def)
  moreover have "held (ts[i := t'] ! j) \<inter> held (ts[i := t'] ! k) = {}"
    if "j < length ts" "k < length ts" "j \<noteq> k" for j k
  proof -
    have apart: "held (ts ! p) \<inter> held (ts ! q) = {}" if "p < length ts" "q < length ts" "p \<noteq> q" for p q
      using that assms(1) by (simp add: threads_ok_def)
    have new: "held t' \<inter> held (ts ! q) = {}" if "i < length ts" "q < length ts" "i \<noteq> q" for q
      using apart [OF that] assms(3) nth_mem [OF that(2)] by blast
    show ?thesis
      using that apart [of j k] new [of j] new [of k] by (cases "j = i"; cases "k = i") auto
  qed
  ultimately show ?thesis by (simp add: threads_ok_def)
qed

lemma threads_ok_step:
  assumes "lk_step calls k ts us" and "threads_ok ts"
  shows "threads_ok us"
proof -
  have nth: "i < length ts \<Longrightarrow> rest_guarded guard (ts ! i)" for i
    using assms(2) by (simp add: threads_ok_def)
  have tail: "rest_guarded guard t" if "i < length ts" "ts ! i = a # t" for i a t
    using nth [OF that(1)] that(2) by simp
  note upd = threads_ok_update [OF assms(2)]
  show ?thesis
    using assms(1)
  proof (cases rule: lk_step.cases)
    case (Lock m b t)
    then show ?thesis using nth [of k]
      by (auto intro!: upd rest_guarded_append dest: guarded_held)
  next
    case (Lock_in_time m b t)
    then show ?thesis using nth [of k]
      by (auto intro!: upd rest_guarded_append dest: guarded_held)
  next
    case (One p q t)
    then show ?thesis using nth [of k]
      by (auto intro!: upd rest_guarded_append dest: guarded_held)
  next
    case (Other p q t)
    then show ?thesis using nth [of k]
      by (auto intro!: upd rest_guarded_append dest: guarded_held)
  next
    case (Again p t)
    then show ?thesis using nth [of k]
      by (auto intro!: upd rest_guarded_append dest: guarded_held)
  next
    case (Enter h t p)
    then have "list_all (guarded guard (locks_of t)) p"
      using calls_guarded [of p h] by (auto simp: list_all_iff intro: guarded_mono)
    then show ?thesis using Enter nth [of k]
      by (auto intro!: upd rest_guarded_append dest: guarded_held)
  qed (use tail in \<open>auto intro!: upd\<close>)
qed

lemma threads_ok_reach:
  assumes "lk_reach calls ts us" and "\<forall>t \<in> set ts. list_all (guarded guard []) t"
  shows "threads_ok us"
  using assms(1)
proof (induction rule: lk_reach.induct)
  case Lk_start
  have "held t = {}" "rest_guarded guard t" if "t \<in> set ts" for t
    using that assms(2) guarded_held [of guard "[]" t] rest_guarded_append [of guard "[]" t]
    by auto
  then show ?case by (auto simp: threads_ok_def)
next
  case (Lk_next us k vs)
  then show ?case using threads_ok_step by blast
qed

lemma no_race:
  assumes "lk_reach calls ts0 ts" and "\<forall>t \<in> set ts0. list_all (guarded guard []) t"
    and "i < length ts" and "j < length ts" and "i \<noteq> j" and "guard v = Some m"
    and "ts ! i = a # t" and "a \<in> {Read_member v, Write_member v}"
  shows "ts ! j \<noteq> Read_member v # u \<and> ts ! j \<noteq> Write_member v # u"
proof -
  have ok: "threads_ok ts" by (rule threads_ok_reach [OF assms(1,2)])
  have use: "m \<in> held (ts ! k)" if "k < length ts" "ts ! k = Read_member v # s \<or> ts ! k = Write_member v # s" for k s
  proof -
    have "rest_guarded guard (ts ! k)" using ok that(1) by (simp add: threads_ok_def)
    then show ?thesis using that(2) assms(6) by (auto simp: set_locks_of)
  qed
  have "m \<in> held (ts ! i)" using use [of i t] assms(3,7,8) by auto
  moreover have "held (ts ! i) \<inter> held (ts ! j) = {}" using ok assms(3-5) by (simp add: threads_ok_def)
  ultimately show ?thesis using use [of j u] assms(4) by auto
qed

end

end
