(* ===== verification/Locking.thy ===== *)
theory Locking
  imports Locks
begin

text \<open>
  The locks of the library. Each function that takes a lock, accesses a shared member, calls user
  code or waits for a peer or a thread has here the skeleton of what it does with them, composed the
  way the functions call each other; one runtime with its transports, one application with one
  skeleton, one proxy and one shared-memory agent stand for the process. Branches are not
  correlated, so a skeleton has every run of its function and perhaps more. Atomic members, the
  members of one message or connection and what is set while no other thread is to run (the
  transports' callbacks and sockets, the handle and address of the shared memory) are left out, and
  so are pauses and waits with a time limit, which end. A join appears as a call of the system that
  may not return; that \<open>TcpTransport::stop\<close> joins threads that want the mutex it holds is shown in
  \<open>TcpStop\<close>.

  The mutexes are ranked, and every function and thread of the library is shown to take them in
  ascending order and to touch the members that have a guard only under it; user code that calls
  the library from a callback keeps to the order if it calls only what ranks above the callback.
\<close>

section \<open>Mutexes, members and callbacks\<close>

datatype mutex =
    Runtime_mutex | Handlers_mutex
  | Session_mutex | Requests_mutex | Methods_mutex | Events_mutex | Fields_mutex
  | Event_configs_mutex
  | Skeleton_mutex | Proxy_events_mutex
  | Services_mutex | Subscriptions_mutex | Cv_mutex
  | Reassembler_mutex
  | Endpoint_map_mutex | Connections_mutex
  | Shm_lock | Pending_mutex | Response_mutex

datatype member =
    Default_runtime | Service_handlers
  | Session_id | Pending_requests | Method_handlers | Event_handlers | App_fields | Event_configs
  | App_availability_handler
  | Skeleton_methods | Field_getters | Field_setters | Skeleton_events | Skeleton_fields
  | Proxy_event_handlers | Proxy_availability_handler
  | Local_services | Discovered_services | Find_requests | Eventgroups | Pending_subscriptions
  | Sd_availability_handler | Sd_subscription_handler | Sd_send_callback
  | Reassembly_buffers
  | Endpoint_map | Connections_map
  | Shm_area | Shm_pending_requests | Response_queue
  | Shm_availability_handler | Shm_subscription_handler

text \<open>What the library calls without knowing what it is: user code, or a function of its own.\<close>

datatype callback =
    Service_handler | Method_handler | Event_handler | App_availability
  | Skeleton_method | Field_getter | Field_setter | Proxy_event_handler | Proxy_availability
  | Sd_availability | Sd_subscription | Sd_send
  | Shm_availability | Shm_subscription
  | Udp_message | Tcp_message | Tcp_connection

type_synonym code = "(mutex, member, callback) thread"

section \<open>Service discovery\<close>

definition lk_sd_send_offer :: code where [lk_code]:
  "lk_sd_send_offer = [Read_member Sd_send_callback, Either [Call Sd_send] []]"

definition lk_sd_send_find :: code where [lk_code]:
  "lk_sd_send_find = [Read_member Sd_send_callback, Either [Call Sd_send] []]"

definition lk_sd_send_subscribe :: code where [lk_code]:
  "lk_sd_send_subscribe =
     [Read_member Sd_send_callback, Either [Read_member Eventgroups, Call Sd_send] []]"

definition lk_sd_send_ack :: code where [lk_code]:
  "lk_sd_send_ack = [Read_member Sd_send_callback, Either [Call Sd_send] []]"

definition lk_sd_send_nack :: code where [lk_code]:
  "lk_sd_send_nack = [Read_member Sd_send_callback, Either [Call Sd_send] []]"

definition lk_sd_offer_service :: code where [lk_code]:
  "lk_sd_offer_service = [Under Services_mutex (Write_member Local_services # lk_sd_send_offer)]"

definition lk_sd_stop_offer_service :: code where [lk_code]:
  "lk_sd_stop_offer_service = [Under Services_mutex [Read_member Local_services,
     Either (Write_member Local_services # lk_sd_send_offer @ [Write_member Local_services]) []]]"

definition lk_sd_find_service :: code where [lk_code]:
  "lk_sd_find_service = [Under Services_mutex (Write_member Find_requests # lk_sd_send_find)]"

definition lk_sd_stop_find_service :: code where [lk_code]:
  "lk_sd_stop_find_service = [Under Services_mutex [Write_member Find_requests]]"

definition lk_sd_subscribe_eventgroup :: code where [lk_code]:
  "lk_sd_subscribe_eventgroup = [Under Subscriptions_mutex [Write_member Pending_subscriptions]]"

definition lk_sd_unsubscribe_eventgroup :: code where [lk_code]:
  "lk_sd_unsubscribe_eventgroup = [Under Subscriptions_mutex [Write_member Pending_subscriptions]]"

definition lk_sd_offer_eventgroup :: code where [lk_code]:
  "lk_sd_offer_eventgroup = [Under Services_mutex [Write_member Eventgroups]]"

definition lk_sd_stop_offer_eventgroup :: code where [lk_code]:
  "lk_sd_stop_offer_eventgroup = [Under Services_mutex [Write_member Eventgroups]]"

definition lk_sd_set_available_handler :: code where [lk_code]:
  "lk_sd_set_available_handler = [Write_member Sd_availability_handler]"

definition lk_sd_set_subscription_handler :: code where [lk_code]:
  "lk_sd_set_subscription_handler = [Write_member Sd_subscription_handler]"

definition lk_sd_set_send_callback :: code where [lk_code]:
  "lk_sd_set_send_callback = [Write_member Sd_send_callback]"

definition lk_sd_get_discovered :: code where [lk_code]:
  "lk_sd_get_discovered = [Under Services_mutex [Read_member Discovered_services]]"

definition lk_sd_get_info :: code where [lk_code]:
  "lk_sd_get_info = [Under Services_mutex [Read_member Discovered_services]]"

definition lk_sd_get_endpoints :: code where [lk_code]:
  "lk_sd_get_endpoints = [Under Services_mutex [Read_member Discovered_services]]"

definition lk_sd_get_subscribers :: code where [lk_code]:
  "lk_sd_get_subscribers = [Under Services_mutex [Read_member Eventgroups]]"

definition lk_sd_update_info :: code where [lk_code]:
  "lk_sd_update_info = [Under Services_mutex [Write_member Discovered_services]]"

definition lk_sd_handle_find :: code where [lk_code]:
  "lk_sd_handle_find = [Under Services_mutex [Read_member Local_services,
     Repeat [Either lk_sd_send_offer []]]]"

definition lk_sd_handle_offer :: code where [lk_code]:
  "lk_sd_handle_offer = lk_sd_update_info @
     [Read_member Sd_availability_handler, Either [Call Sd_availability] []]"

definition lk_sd_handle_subscribe :: code where [lk_code]:
  "lk_sd_handle_subscribe = [Under Services_mutex [Read_member Local_services, Either
     [Read_member Sd_subscription_handler, Either [Call Sd_subscription] [],
      Either (Write_member Eventgroups # lk_sd_send_ack) lk_sd_send_nack] []]]"

definition lk_sd_handle_ack :: code where [lk_code]:
  "lk_sd_handle_ack = [Under Subscriptions_mutex [Write_member Pending_subscriptions]]"

definition lk_sd_process :: code where [lk_code]:
  "lk_sd_process = [Repeat [Either lk_sd_handle_subscribe
     [Either lk_sd_handle_find [Either lk_sd_handle_offer lk_sd_handle_ack]]]]"

definition lk_sd_check_ttl :: code where [lk_code]:
  "lk_sd_check_ttl = [Under Services_mutex [Read_member Discovered_services, Repeat [Either
     [Read_member Sd_availability_handler, Either [Call Sd_availability] [],
      Write_member Discovered_services] []]]]"

definition lk_sd_periodic_offers :: code where [lk_code]:
  "lk_sd_periodic_offers = [Under Services_mutex [Read_member Local_services,
     Repeat [Either lk_sd_send_offer []]]]"

definition lk_sd_retry :: code where [lk_code]:
  "lk_sd_retry = [Under Subscriptions_mutex [Read_member Pending_subscriptions,
     Repeat [Either lk_sd_send_subscribe []]]]"

text \<open>\<open>wait_for\<close> unlocks its mutex to wait and locks it again.\<close>

definition lk_sd_worker :: code where [lk_code]:
  "lk_sd_worker = [Repeat [Under Cv_mutex [],
     Under Cv_mutex [Either (lk_sd_check_ttl @ [Either lk_sd_periodic_offers []] @ lk_sd_retry) []]]]"

definition lk_sd_stop :: code where [lk_code]:
  "lk_sd_stop = [Either [Blocks Joining] []]"

section \<open>TCP transport\<close>

text \<open>
  \<open>operator[]\<close> of the connection map, with which the receive thread of a new connection is set
  outside of the lock, may insert: it writes. The connection callback is the runtime's.
\<close>

definition lk_tcp_open :: code where [lk_code]:
  "lk_tcp_open = [Under Connections_mutex [Write_member Connections_map],
     Under Endpoint_map_mutex [Write_member Endpoint_map],
     Write_member Connections_map, Either [Call Tcp_connection] []]"

definition lk_tcp_connect :: code where [lk_code]:
  "lk_tcp_connect = [Under Endpoint_map_mutex [Read_member Endpoint_map,
       Either [Under Connections_mutex [Read_member Connections_map,
         Either [Write_member Endpoint_map] []]] []],
     Either [Blocks Connecting, Either lk_tcp_open []] []]"

definition lk_tcp_close :: code where [lk_code]:
  "lk_tcp_close = [Under Connections_mutex [Read_member Connections_map,
       Either [Write_member Connections_map] []],
     Either [Under Endpoint_map_mutex [Write_member Endpoint_map]] []]"

definition lk_tcp_disconnect :: code where [lk_code]:
  "lk_tcp_disconnect = lk_tcp_close"

text \<open>Both sends, of the length and of the message, wait with the mutex locked until the peer reads.\<close>

definition lk_tcp_send_to :: code where [lk_code]:
  "lk_tcp_send_to = [Under Connections_mutex [Read_member Connections_map,
     Either [Blocks Sending, Either [Blocks Sending] []] []]]"

definition lk_tcp_send_to_endpoint :: code where [lk_code]:
  "lk_tcp_send_to_endpoint = lk_tcp_connect @ [Either lk_tcp_send_to []]"

definition lk_tcp_has_connection :: code where [lk_code]:
  "lk_tcp_has_connection = [Under Endpoint_map_mutex [Read_member Endpoint_map]]"

definition lk_tcp_stop :: code where [lk_code]:
  "lk_tcp_stop = [Either [Blocks Joining] [], Under Connections_mutex [Read_member Connections_map,
     Repeat [Either [Blocks Joining] []], Write_member Connections_map]]"

definition lk_tcp_accept :: code where [lk_code]:
  "lk_tcp_accept = [Repeat [Blocks Accepting, Either
     [Under Connections_mutex [Write_member Connections_map],
      Write_member Connections_map, Either [Call Tcp_connection] []] []]]"

definition lk_tcp_receive :: code where [lk_code]:
  "lk_tcp_receive = [Under Connections_mutex [Read_member Connections_map],
     Either ([Repeat [Blocks Receiving, Either
         [Repeat [Blocks Receiving], Either [Call Tcp_message] []] []],
       Either [Call Tcp_connection] []] @ lk_tcp_close) []]"

section \<open>Reassembler, UDP transport and runtime\<close>

definition lk_add_segment :: code where [lk_code]:
  "lk_add_segment = [Either [Under Reassembler_mutex [Write_member Reassembly_buffers]] []]"

definition lk_reassemble :: code where [lk_code]:
  "lk_reassemble = [Under Reassembler_mutex [Read_member Reassembly_buffers,
     Either [Write_member Reassembly_buffers] []]]"

definition lk_tp_is_complete :: code where [lk_code]:
  "lk_tp_is_complete = [Under Reassembler_mutex [Read_member Reassembly_buffers]]"

definition lk_tp_cleanup_expired :: code where [lk_code]:
  "lk_tp_cleanup_expired = [Under Reassembler_mutex [Read_member Reassembly_buffers,
     Repeat [Either [Write_member Reassembly_buffers] []]]]"

definition lk_tp_pending_count :: code where [lk_code]:
  "lk_tp_pending_count = [Under Reassembler_mutex [Read_member Reassembly_buffers]]"

definition lk_udp_receive :: code where [lk_code]:
  "lk_udp_receive = [Repeat [Blocks Receiving, Either [Call Udp_message] []]]"

definition lk_udp_send_to :: code where [lk_code]:
  "lk_udp_send_to = [Either [Blocks Sending] []]"

definition lk_udp_stop :: code where [lk_code]:
  "lk_udp_stop = [Either [Blocks Joining] []]"

definition lk_route :: code where [lk_code]:
  "lk_route = [Under Handlers_mutex [Read_member Service_handlers,
     Either [Call Service_handler] []]]"

definition lk_on_udp_message :: code where [lk_code]:
  "lk_on_udp_message =
     (let rest = [Either lk_route [Either lk_sd_process []]]
      in [Either rest (lk_add_segment @ [Either (lk_reassemble @ [Either rest []]) []])])"

definition lk_on_tcp_message :: code where [lk_code]:
  "lk_on_tcp_message =
     [Either lk_route (lk_add_segment @ [Either (lk_reassemble @ [Either lk_route []]) []])]"

definition lk_send_message :: code where [lk_code]:
  "lk_send_message = [Either [Repeat [Either lk_tcp_send_to_endpoint lk_udp_send_to]]
     [Either lk_tcp_send_to_endpoint lk_udp_send_to]]"

definition lk_register_service_handler :: code where [lk_code]:
  "lk_register_service_handler = [Under Handlers_mutex [Write_member Service_handlers]]"

definition lk_unregister_service_handler :: code where [lk_code]:
  "lk_unregister_service_handler = [Under Handlers_mutex [Write_member Service_handlers]]"

section \<open>Shared-memory agent\<close>

text \<open>\<open>shm_lock\<close> has a time limit and is taken to exclude others until \<open>shm_unlock\<close>.\<close>

definition lk_shm_send_command :: code where [lk_code]:
  "lk_shm_send_command = [Either [Attempt Shm_lock [Read_member Shm_area,
     Either [Write_member Shm_area] []]] []]"

definition lk_shm_lookup_endpoints :: code where [lk_code]:
  "lk_shm_lookup_endpoints = [Either [Attempt Shm_lock [Read_member Shm_area]] []]"

definition lk_shm_lookup_subscribers :: code where [lk_code]:
  "lk_shm_lookup_subscribers = [Either
     (Under Pending_mutex [Write_member Shm_pending_requests] # lk_shm_send_command @
      [Either [Under Pending_mutex [Write_member Shm_pending_requests]]
        [Repeat [Under Response_mutex [Read_member Response_queue]],
         Either [Under Response_mutex [Read_member Response_queue, Write_member Response_queue]]
           [Under Response_mutex [Read_member Response_queue],
            Under Pending_mutex [Write_member Shm_pending_requests]]]]) []]"

definition lk_shm_process_responses :: code where [lk_code]:
  "lk_shm_process_responses = [Either [Attempt Shm_lock [Read_member Shm_area, Repeat
     [Write_member Shm_area, Either
       [Read_member Shm_availability_handler, Either [Call Shm_availability] []]
       [Either [Read_member Shm_subscription_handler, Either [Call Shm_subscription] []] []]]]] []]"

definition lk_shm_worker :: code where [lk_code]:
  "lk_shm_worker = [Repeat [Either lk_shm_process_responses []]]"

definition lk_shm_set_available_handler :: code where [lk_code]:
  "lk_shm_set_available_handler = [Write_member Shm_availability_handler]"

definition lk_shm_set_subscription_handler :: code where [lk_code]:
  "lk_shm_set_subscription_handler = [Write_member Shm_subscription_handler]"

definition lk_shm_disconnect :: code where [lk_code]:
  "lk_shm_disconnect = [Either [Blocks Joining] []]"

section \<open>Making and destroying runtimes\<close>

definition lk_runtime_stop :: code where [lk_code]:
  "lk_runtime_stop = [Either (Either lk_sd_stop [] # lk_udp_stop @ lk_tcp_stop) []]"

text \<open>
  The destructor stops the runtime and then destroys its parts, those that have been made, the last
  first; each of them stops in its own destructor.
\<close>

definition lk_runtime_destroy :: code where [lk_code]:
  "lk_runtime_destroy = lk_runtime_stop @
     [Either lk_shm_disconnect [], Either lk_sd_stop [], Either lk_tcp_stop [], Either lk_udp_stop []]"

text \<open>A runtime whose \<open>init\<close> fails is destroyed where it was made.\<close>

definition lk_runtime_create :: code where [lk_code]:
  "lk_runtime_create = [Either lk_runtime_destroy []]"

definition lk_runtime_get :: code where [lk_code]:
  "lk_runtime_get = [Under Runtime_mutex [Read_member Default_runtime,
     Either (lk_runtime_create @ [Write_member Default_runtime]) []]]"

text \<open>
  The new runtime is stored as a weak pointer only, so it is destroyed before the mutex is unlocked
  unless another thread has got hold of it.
\<close>

definition lk_runtime_set_default :: code where [lk_code]:
  "lk_runtime_set_default = [Under Runtime_mutex
     (lk_runtime_create @ [Either [Write_member Default_runtime, Either lk_runtime_destroy []] []])]"

section \<open>Application\<close>

definition lk_app_init :: code where [lk_code]:
  "lk_app_init = [Either lk_register_service_handler []]"

definition lk_app_stop :: code where [lk_code]:
  "lk_app_stop = [Either [Under Requests_mutex [Read_member Pending_requests,
     Write_member Pending_requests]] []]"

definition lk_send_request :: code where [lk_code]:
  "lk_send_request = [Under Session_mutex
     ([Write_member Session_id, Under Requests_mutex [Write_member Pending_requests]] @
      lk_sd_get_endpoints @ [Repeat [Either lk_send_message []]])]"

definition lk_send_request_no_return :: code where [lk_code]:
  "lk_send_request_no_return = [Under Session_mutex
     (Write_member Session_id # lk_sd_get_endpoints @ [Repeat [Either lk_send_message []]])]"

definition lk_app_subscribe_event :: code where [lk_code]:
  "lk_app_subscribe_event = [Under Event_configs_mutex
     [Write_member Event_configs, Either lk_shm_send_command [],
      Either [] lk_sd_subscribe_eventgroup]]"

definition lk_app_unsubscribe_event :: code where [lk_code]:
  "lk_app_unsubscribe_event = Either lk_shm_send_command [] # lk_sd_unsubscribe_eventgroup"

definition lk_set_event_handler :: code where [lk_code]:
  "lk_set_event_handler = [Under Events_mutex [Write_member Event_handlers]]"

definition lk_app_offer_service :: code where [lk_code]:
  "lk_app_offer_service = lk_sd_offer_service @ [Either lk_shm_send_command []]"

definition lk_app_stop_offer_service :: code where [lk_code]:
  "lk_app_stop_offer_service = lk_sd_stop_offer_service @ [Either lk_shm_send_command []]"

definition lk_register_method_handler :: code where [lk_code]:
  "lk_register_method_handler = [Under Methods_mutex [Write_member Method_handlers]]"

definition lk_unregister_method_handler :: code where [lk_code]:
  "lk_unregister_method_handler = [Under Methods_mutex [Write_member Method_handlers]]"

definition lk_send_response :: code where [lk_code]:
  "lk_send_response = lk_sd_get_endpoints @ [Either lk_send_message []]"

definition lk_send_error_response :: code where [lk_code]:
  "lk_send_error_response = lk_sd_get_endpoints @ [Either lk_send_message []]"

definition lk_offer_event :: code where [lk_code]:
  "lk_offer_event = [Under Event_configs_mutex (Write_member Event_configs # lk_sd_offer_eventgroup)]"

definition lk_stop_offer_event :: code where [lk_code]:
  "lk_stop_offer_event = [Under Event_configs_mutex [Read_member Event_configs,
     Either (lk_sd_stop_offer_eventgroup @ [Write_member Event_configs]) []]]"

definition lk_notify_event :: code where [lk_code]:
  "lk_notify_event = [Under Event_configs_mutex [Read_member Event_configs,
     Either (lk_sd_get_subscribers @ [Repeat lk_send_message]) []]]"

definition lk_offer_field :: code where [lk_code]:
  "lk_offer_field = [Under Fields_mutex (Write_member App_fields # lk_offer_event)]"

definition lk_set_field_value :: code where [lk_code]:
  "lk_set_field_value = Under Fields_mutex [Read_member App_fields,
     Either [Write_member App_fields] []] # lk_notify_event"

definition lk_app_on_available :: code where [lk_code]:
  "lk_app_on_available = [Read_member App_availability_handler, Either [Call App_availability] []]"

definition lk_app_set_availability_handler :: code where [lk_code]:
  "lk_app_set_availability_handler = [Write_member App_availability_handler]"

definition lk_cleanup_expired :: code where [lk_code]:
  "lk_cleanup_expired = [Under Requests_mutex [Read_member Pending_requests,
     Repeat [Either [Write_member Pending_requests] []]]]"

definition lk_handle_message :: code where [lk_code]:
  "lk_handle_message = Either
       [Under Requests_mutex [Read_member Pending_requests,
         Either [Write_member Pending_requests] []]]
       [Either
         [Under Events_mutex [Read_member Event_handlers, Either [Call Event_handler] []]]
         [Either
           [Under Methods_mutex [Read_member Method_handlers,
             Either [Call Method_handler] lk_send_error_response]]
           []]]
     # lk_cleanup_expired"

section \<open>Skeleton and proxy of a service\<close>

definition lk_skeleton_init :: code where [lk_code]:
  "lk_skeleton_init = [Either lk_register_method_handler []]"

definition lk_skeleton_offer :: code where [lk_code]:
  "lk_skeleton_offer = [Either (lk_app_offer_service @
     [Read_member Skeleton_events, Repeat lk_offer_event,
      Read_member Skeleton_fields, Repeat lk_offer_event]) []]"

definition lk_skeleton_stop_offer :: code where [lk_code]:
  "lk_skeleton_stop_offer = [Either (lk_app_stop_offer_service @
     [Read_member Skeleton_events, Repeat lk_stop_offer_event,
      Read_member Skeleton_fields, Repeat lk_stop_offer_event]) []]"

definition lk_skeleton_notify :: code where [lk_code]:
  "lk_skeleton_notify = [Either lk_notify_event []]"

definition lk_register_method :: code where [lk_code]:
  "lk_register_method = [Under Skeleton_mutex [Write_member Skeleton_methods]]"

definition lk_register_field_getter :: code where [lk_code]:
  "lk_register_field_getter = [Under Skeleton_mutex [Write_member Field_getters]]"

definition lk_register_field_setter :: code where [lk_code]:
  "lk_register_field_setter = [Under Skeleton_mutex [Write_member Field_setters]]"

definition lk_register_event :: code where [lk_code]:
  "lk_register_event = [Under Skeleton_mutex [Write_member Skeleton_events]]"

definition lk_register_field :: code where [lk_code]:
  "lk_register_field = lk_register_field_getter @ lk_register_field_setter @
     [Under Skeleton_mutex [Write_member Skeleton_fields]]"

definition lk_handle_method_call :: code where [lk_code]:
  "lk_handle_method_call = [Under Skeleton_mutex [Read_member Skeleton_methods, Either
     [Call Skeleton_method, Either lk_send_response []] [Either lk_send_error_response []]]]"

definition lk_handle_field_get :: code where [lk_code]:
  "lk_handle_field_get = [Under Skeleton_mutex [Read_member Field_getters, Either
     [Call Field_getter, Either lk_send_response []] [Either lk_send_error_response []]]]"

definition lk_handle_field_set :: code where [lk_code]:
  "lk_handle_field_set = [Under Skeleton_mutex [Read_member Field_setters, Either
     [Call Field_setter,
      Either (Either lk_send_response [] # lk_skeleton_notify) [Either lk_send_error_response []]]
     [Either lk_send_error_response []]]]"

definition lk_skeleton_on_message :: code where [lk_code]:
  "lk_skeleton_on_message = [Either lk_handle_method_call
     [Either lk_handle_field_get [Either lk_handle_field_set []]]]"

definition lk_proxy_on_available :: code where [lk_code]:
  "lk_proxy_on_available =
     [Either [Read_member Proxy_availability_handler, Either [Call Proxy_availability] []] []]"

definition lk_proxy_init :: code where [lk_code]:
  "lk_proxy_init = [Either (lk_app_set_availability_handler @ lk_app_init) []]"

definition lk_proxy_set_availability_handler :: code where [lk_code]:
  "lk_proxy_set_availability_handler = [Write_member Proxy_availability_handler]"

definition lk_call_method :: code where [lk_code]:
  "lk_call_method = [Either lk_send_request []]"

definition lk_call_method_no_return :: code where [lk_code]:
  "lk_call_method_no_return = [Either lk_send_request_no_return []]"

definition lk_proxy_subscribe_event :: code where [lk_code]:
  "lk_proxy_subscribe_event = [Either
     (Under Proxy_events_mutex [Write_member Proxy_event_handlers]
       # lk_set_event_handler @ lk_app_subscribe_event) []]"

definition lk_proxy_unsubscribe_event :: code where [lk_code]:
  "lk_proxy_unsubscribe_event = [Either
     (Under Proxy_events_mutex [Write_member Proxy_event_handlers] # lk_app_unsubscribe_event) []]"

definition lk_get_field :: code where [lk_code]:
  "lk_get_field = lk_call_method"

definition lk_set_field :: code where [lk_code]:
  "lk_set_field = lk_call_method"

definition lk_proxy_on_event :: code where [lk_code]:
  "lk_proxy_on_event = [Either [Under Proxy_events_mutex [Read_member Proxy_event_handlers,
     Either [Call Proxy_event_handler] []]] []]"

end
