(* ===== verification/LockSafety.thy ===== *)
theory LockSafety
  imports Locking
begin

text \<open>
  The order of the library's mutexes, what callbacks may run, and the interpretation of
  \<open>lock_order\<close> and \<open>lock_guards\<close> on the library: its threads and what users call do not deadlock
  over its mutexes and do not race for guarded members, as long as callbacks keep to the order.
  What goes wrong otherwise, a send that keeps receive threads waiting, and which members have no
  guard, is shown by runs.
\<close>

section \<open>The order of the mutexes\<close>

fun mutex_rank :: "mutex \<Rightarrow> nat" where
  "mutex_rank Runtime_mutex = 1"
| "mutex_rank Cv_mutex = 1"
| "mutex_rank Handlers_mutex = 2"
| "mutex_rank Methods_mutex = 3"
| "mutex_rank Events_mutex = 3"
| "mutex_rank Skeleton_mutex = 4"
| "mutex_rank Proxy_events_mutex = 4"
| "mutex_rank Session_mutex = 5"
| "mutex_rank Fields_mutex = 5"
| "mutex_rank Event_configs_mutex = 6"
| "mutex_rank Requests_mutex = 7"
| "mutex_rank Services_mutex = 8"
| "mutex_rank Subscriptions_mutex = 8"
| "mutex_rank Reassembler_mutex = 8"
| "mutex_rank Shm_lock = 8"
| "mutex_rank Pending_mutex = 8"
| "mutex_rank Response_mutex = 8"
| "mutex_rank Endpoint_map_mutex = 9"
| "mutex_rank Connections_mutex = 10"

text \<open>The highest rank held where a callback is called.\<close>

fun callback_floor :: "callback \<Rightarrow> nat" where
  "callback_floor Udp_message = 0"
| "callback_floor Tcp_message = 0"
| "callback_floor Service_handler = 2"
| "callback_floor Method_handler = 3"
| "callback_floor Event_handler = 3"
| "callback_floor Skeleton_method = 4"
| "callback_floor Field_getter = 4"
| "callback_floor Field_setter = 4"
| "callback_floor Proxy_event_handler = 4"
| "callback_floor App_availability = 8"
| "callback_floor Proxy_availability = 8"
| "callback_floor Sd_availability = 8"
| "callback_floor Sd_subscription = 8"
| "callback_floor Sd_send = 8"
| "callback_floor Shm_availability = 8"
| "callback_floor Shm_subscription = 8"
| "callback_floor Tcp_connection = 8"

text \<open>The mutex that guards a member; what is accessed without a lock somewhere has none.\<close>

fun member_guard :: "member \<Rightarrow> mutex option" where
  "member_guard Default_runtime = Some Runtime_mutex"
| "member_guard Service_handlers = Some Handlers_mutex"
| "member_guard Session_id = Some Session_mutex"
| "member_guard Pending_requests = Some Requests_mutex"
| "member_guard Method_handlers = Some Methods_mutex"
| "member_guard Event_handlers = Some Events_mutex"
| "member_guard App_fields = Some Fields_mutex"
| "member_guard Event_configs = Some Event_configs_mutex"
| "member_guard Skeleton_methods = Some Skeleton_mutex"
| "member_guard Field_getters = Some Skeleton_mutex"
| "member_guard Field_setters = Some Skeleton_mutex"
| "member_guard Proxy_event_handlers = Some Proxy_events_mutex"
| "member_guard Local_services = Some Services_mutex"
| "member_guard Discovered_services = Some Services_mutex"
| "member_guard Find_requests = Some Services_mutex"
| "member_guard Pending_subscriptions = Some Subscriptions_mutex"
| "member_guard Reassembly_buffers = Some Reassembler_mutex"
| "member_guard Endpoint_map = Some Endpoint_map_mutex"
| "member_guard Shm_area = Some Shm_lock"
| "member_guard Shm_pending_requests = Some Pending_mutex"
| "member_guard Response_queue = Some Response_mutex"
| "member_guard _ = None"

section \<open>What users may run\<close>

text \<open>
  The public functions of the library that have a skeleton, with those that join threads and those
  of the transports and the reassembler. What a destructor runs is the \<open>stop\<close> of its class.
\<close>

definition api :: "code list" where
  "api = [lk_runtime_get, lk_runtime_create, lk_runtime_set_default, lk_runtime_stop,
     lk_runtime_destroy, lk_send_message,
     lk_tcp_connect, lk_tcp_disconnect, lk_tcp_send_to, lk_tcp_send_to_endpoint,
     lk_tcp_has_connection, lk_tcp_stop, lk_udp_send_to, lk_udp_stop,
     lk_add_segment, lk_tp_is_complete, lk_reassemble, lk_tp_cleanup_expired, lk_tp_pending_count,
     lk_register_service_handler, lk_unregister_service_handler,
     lk_app_init, lk_app_stop, lk_send_request, lk_send_request_no_return,
     lk_app_subscribe_event, lk_app_unsubscribe_event, lk_set_event_handler,
     lk_app_offer_service, lk_app_stop_offer_service,
     lk_register_method_handler, lk_unregister_method_handler,
     lk_send_response, lk_send_error_response,
     lk_offer_event, lk_stop_offer_event, lk_notify_event, lk_offer_field, lk_set_field_value,
     lk_app_on_available, lk_app_set_availability_handler, lk_handle_message,
     lk_skeleton_init, lk_skeleton_offer, lk_skeleton_stop_offer, lk_skeleton_notify,
     lk_register_method, lk_register_field_getter, lk_register_field_setter,
     lk_register_event, lk_register_field,
     lk_proxy_init, lk_proxy_set_availability_handler, lk_call_method, lk_call_method_no_return,
     lk_proxy_subscribe_event, lk_proxy_unsubscribe_event, lk_get_field, lk_set_field,
     lk_sd_offer_service, lk_sd_stop_offer_service, lk_sd_find_service, lk_sd_stop_find_service,
     lk_sd_subscribe_eventgroup, lk_sd_unsubscribe_eventgroup,
     lk_sd_offer_eventgroup, lk_sd_stop_offer_eventgroup,
     lk_sd_set_available_handler, lk_sd_set_subscription_handler,
     lk_sd_get_discovered, lk_sd_get_info, lk_sd_get_endpoints, lk_sd_get_subscribers,
     lk_sd_process, lk_sd_set_send_callback, lk_sd_stop,
     lk_shm_disconnect, lk_shm_send_command, lk_shm_lookup_endpoints, lk_shm_lookup_subscribers,
     lk_shm_set_available_handler, lk_shm_set_subscription_handler]"

text \<open>
  The library's own threads, the functions it registers as callbacks, and user code: calls of
  public functions, each ascending above \<open>n\<close>, one after another.
\<close>

definition library_threads :: "code list" where
  "library_threads = [lk_sd_worker, lk_udp_receive, lk_tcp_accept, lk_tcp_receive, lk_shm_worker]"

definition above :: "nat \<Rightarrow> code \<Rightarrow> bool" where
  "above n p \<longleftrightarrow> list_all (ascends mutex_rank callback_floor n) p"

inductive_set user_code :: "nat \<Rightarrow> code set" for n where
  Done: "[] \<in> user_code n"
| Use: "f \<in> set api \<Longrightarrow> above n f \<Longrightarrow> p \<in> user_code n \<Longrightarrow> f @ p \<in> user_code n"

fun runs :: "callback \<Rightarrow> code set" where
  "runs Service_handler = insert lk_handle_message (user_code 2)"
| "runs Method_handler = insert lk_skeleton_on_message (user_code 3)"
| "runs Event_handler = insert lk_proxy_on_event (user_code 3)"
| "runs App_availability = insert lk_proxy_on_available (user_code 8)"
| "runs Udp_message = insert lk_on_udp_message (user_code 0)"
| "runs Tcp_message = insert lk_on_tcp_message (user_code 0)"
| "runs h = user_code (callback_floor h)"

section \<open>The interpretation\<close>

lemmas lk_eval = above_def library_threads_def api_def Let_def lk_code

lemma library_ascends: "list_all (above 0) library_threads" "list_all (above 0) api"
  by (simp_all add: lk_eval)

lemma own_callbacks_ascend:
  "above 2 lk_handle_message" "above 3 lk_skeleton_on_message" "above 3 lk_proxy_on_event"
  "above 8 lk_proxy_on_available" "above 0 lk_on_udp_message" "above 0 lk_on_tcp_message"
  by (simp_all add: lk_eval)

lemma user_code_ascends: "p \<in> user_code n \<Longrightarrow> list_all (ascends mutex_rank callback_floor n) p"
  by (induction rule: user_code.induct) (auto simp: above_def)

lemma runs_ascend: "p \<in> runs h \<Longrightarrow> list_all (ascends mutex_rank callback_floor (callback_floor h)) p"
  using own_callbacks_ascend
  by (cases h) (auto simp: above_def dest: user_code_ascends)

lemma runs_some: "\<exists>p. p \<in> runs h"
  by (cases h) (auto intro: user_code.Done)

interpretation order: lock_order mutex_rank callback_floor runs
  by unfold_locales (rule runs_ascend, assumption, rule runs_some)

lemma library_guarded:
  "list_all (list_all (guarded member_guard [])) library_threads" "list_all (list_all (guarded member_guard [])) api"
  by (simp_all add: lk_eval)

lemma own_callbacks_guarded:
  "list_all (list_all (guarded member_guard [])) [lk_handle_message, lk_skeleton_on_message,
     lk_proxy_on_event, lk_proxy_on_available, lk_on_udp_message, lk_on_tcp_message]"
  by (simp add: lk_eval)

lemma user_code_guarded: "p \<in> user_code n \<Longrightarrow> list_all (guarded member_guard []) p"
  by (induction rule: user_code.induct)
    (use library_guarded(2) in \<open>auto simp: list_all_iff [of _ api]\<close>)

lemma runs_guarded: "p \<in> runs h \<Longrightarrow> list_all (guarded member_guard []) p"
  using own_callbacks_guarded
  by (cases h) (auto dest: user_code_guarded)

interpretation guards: lock_guards member_guard runs
  by unfold_locales (rule runs_guarded)

section \<open>Deadlock and races\<close>

definition threads :: "code set" where
  "threads = set library_threads \<union> user_code 0"

lemma threads_ascend: "set ts \<subseteq> threads \<Longrightarrow> \<forall>t \<in> set ts. list_all (ascends mutex_rank callback_floor 0) t"
  using library_ascends(1) user_code_ascends
  by (auto simp: threads_def above_def list_all_iff [of _ library_threads])

lemma threads_guarded: "set ts \<subseteq> threads \<Longrightarrow> \<forall>t \<in> set ts. list_all (guarded member_guard []) t"
  using library_guarded(1) user_code_guarded
  by (auto simp: threads_def list_all_iff [of _ library_threads])

lemma user_threads: "f \<in> set api \<Longrightarrow> f \<in> threads"
  using library_ascends(2) user_code.Use [OF _ _ user_code.Done, of f 0]
  by (auto simp: threads_def list_all_iff)

text \<open>A run of the library with empty user callbacks.\<close>

fun quiet :: "callback \<Rightarrow> code" where
  "quiet Udp_message = lk_on_udp_message"
| "quiet Tcp_message = lk_on_tcp_message"
| "quiet _ = []"

lemma quiet_runs: "\<forall>h p. Some (quiet h) = Some p \<longrightarrow> p \<in> runs h"
proof -
  have "quiet h \<in> runs h" for h by (cases h) (simp_all add: user_code.Done)
  then show ?thesis by simp
qed

text \<open>
  Two threads want the services: a user who offers a service has locked them, and the worker of
  service discovery waits for them.
\<close>

definition contention :: "code list" where
  "contention = [lk_sd_worker, lk_app_offer_service]"

lemma contention_run:
  "\<exists>ts. lk_reach runs contention ts \<and> length ts = 2 \<and> (0, 1) \<in> waits_for ts \<and>
     (\<exists>t. ts ! 1 = Write_member Local_services # t)"
proof -
  obtain ts where ts: "lk_exec (Some \<circ> quiet) ((1, True) # replicate 5 (0, True)) contention = Some ts"
      "length ts = 2" "(0, 1) \<in> waits_for ts" "\<exists>t. ts ! 1 = Write_member Local_services # t"
    by (simp add: contention_def lk_do_def lk_code numeral_eq_Suc waits_for_def)
  then show ?thesis using lk_exec_reach [OF ts(1)] quiet_runs by auto
qed

lemma contention_threads: "set contention \<subseteq> threads"
proof -
  have "lk_sd_worker \<in> set library_threads" "lk_app_offer_service \<in> set api"
    by (simp_all add: library_threads_def api_def)
  then show ?thesis using user_threads by (simp add: contention_def threads_def)
qed

lemma ranks_positive: "\<forall>m. 0 < mutex_rank m"
proof
  show "0 < mutex_rank m" for m by (cases m) simp_all
qed

text \<open> C5: The mutexes of the library do not deadlock. Start its own threads (service discovery, UDP
  and TCP reception, accepting, shared memory) and any number of user threads that call its public
  functions, with callbacks that call only functions ranked above them. Then in every reachable
  state, whoever has not finished waits, over a chain of no or more mutex holders, for a thread that
  takes a step of its own or is in a call of the system, which need not return: for one that the
  chain leads to, a connect, a send or a join, never an accept or a receive. \<close>

theorem library_never_deadlocks:
  assumes "set ts0 \<subseteq> threads" and "lk_reach runs ts0 ts" and "i < length ts" and "ts ! i \<noteq> []"
  shows "\<exists>j. (i, j) \<in> (waits_for ts)\<^sup>* \<and>
    ((\<exists>us. lk_step runs j ts us) \<and> (\<nexists>c u. ts ! j = Blocks c # u) \<or>
     (\<exists>c u. ts ! j = Blocks c # u \<and> (j = i \<or> c \<in> {Connecting, Sending, Joining})))"
proof -
  have "c \<in> {Connecting, Sending, Joining}" if "under_lock c" for c using that by (cases c) simp_all
  then show ?thesis
    using order.no_deadlock [OF assms(2) threads_ascend [OF assms(1)] ranks_positive assms(3,4)] by blast
qed

theorem library_never_deadlocks_witness:
  "\<exists>ts. lk_reach runs contention ts \<and> (0, 1) \<in> waits_for ts \<and>
     (\<exists>j. (0, j) \<in> (waits_for ts)\<^sup>* \<and>
        ((\<exists>us. lk_step runs j ts us) \<and> (\<nexists>c u. ts ! j = Blocks c # u) \<or>
         (\<exists>c u. ts ! j = Blocks c # u \<and> (j = 0 \<or> c \<in> {Connecting, Sending, Joining}))))"
proof -
  obtain ts where ts: "lk_reach runs contention ts" "length ts = 2" "(0, 1) \<in> waits_for ts"
    using contention_run by blast
  then have "ts ! 0 \<noteq> []" by (auto simp: waits_for_def)
  then show ?thesis
    using library_never_deadlocks [OF contention_threads ts(1), of 0] ts by (intro exI [of _ ts]) simp
qed

text \<open>
  A send keeps receive threads waiting: it waits, until the peer reads, with the mutex of the
  connections locked, which the receive threads of all connections want when they begin and when
  they end. Two processes whose receive threads send to each other while neither reads do not go on.
\<close>

theorem send_keeps_receivers_waiting:
  "\<exists>ts t. lk_reach runs [lk_tcp_send_to, lk_tcp_receive] ts \<and> ts ! 0 = Blocks Sending # t \<and>
     (1, 0) \<in> waits_for ts"
proof -
  obtain ts t where ts: "lk_exec (Some \<circ> quiet) [(0, True), (0, True), (0, True)]
      [lk_tcp_send_to, lk_tcp_receive] = Some ts" "ts ! 0 = Blocks Sending # t" "(1, 0) \<in> waits_for ts"
    by (simp add: lk_do_def lk_code waits_for_def)
  then show ?thesis using lk_exec_reach [OF ts(1)] quiet_runs by auto
qed

text \<open> C6: A member with a guard is never raced for: when one of those threads is about to read or
  write it, no other thread is. The guarded members are the handler tables, sessions, pending
  requests, configurations, service tables, subscriptions, reassembly buffers, the endpoint map and
  the shared-memory queues. \<close>

theorem guarded_members_race_free:
  assumes "set ts0 \<subseteq> threads" and "lk_reach runs ts0 ts" and "i < length ts" and "j < length ts"
    and "i \<noteq> j" and "member_guard v = Some m" and "ts ! i = a # t" and "a \<in> {Read_member v, Write_member v}"
  shows "\<nexists>u. ts ! j \<in> {Read_member v # u, Write_member v # u}"
  using guards.no_race [OF assms(2) threads_guarded [OF assms(1)] assms(3-8)] by simp

theorem guarded_members_race_free_witness:
  "\<exists>ts. lk_reach runs contention ts \<and> (\<exists>t. ts ! 1 = Write_member Local_services # t) \<and>
     (\<nexists>u. ts ! 0 \<in> {Read_member Local_services # u, Write_member Local_services # u})"
proof -
  obtain ts t where ts: "lk_reach runs contention ts" "length ts = 2"
      "ts ! 1 = Write_member Local_services # t"
    using contention_run by blast
  have "\<nexists>u. ts ! 0 \<in> {Read_member Local_services # u, Write_member Local_services # u}"
    using guarded_members_race_free [OF contention_threads ts(1) _ _ _ _ ts(3), of 0 Local_services]
      ts(2) by simp
  then show ?thesis using ts by blast
qed

text \<open>What a handler of a skeleton may call, and what not: everything that locks what its caller has locked.\<close>

lemma skeleton_handlers_may_call:
  "above (callback_floor Skeleton_method) lk_notify_event" "above (callback_floor Skeleton_method) lk_send_request"
  "above (callback_floor Skeleton_method) lk_app_offer_service"
  "\<not> above (callback_floor Skeleton_method) lk_register_method"
  "\<not> above (callback_floor Skeleton_method) lk_register_method_handler"
  "\<not> above (callback_floor Skeleton_method) lk_proxy_subscribe_event"
  "\<not> above (callback_floor Skeleton_method) lk_register_service_handler"
  by (simp_all add: lk_eval)

text \<open>A method handler is called with the mutex of its skeleton locked.\<close>

definition method_call_rest :: "(mutex, member, callback) thread \<Rightarrow> bool" where
  "method_call_rest t \<longleftrightarrow> t \<in> {lk_handle_method_call, []} \<or> (\<exists>z. t = z @ [Unlock Skeleton_mutex])"

lemma method_call_rest_step:
  assumes "lk_step calls k ts us" and "0 < length ts" and "method_call_rest (ts ! 0)"
  shows "method_call_rest (us ! 0)"
proof (cases "k = 0")
  case False
  have "us ! 0 = ts ! 0" using assms(1) False by (cases rule: lk_step.cases) auto
  then show ?thesis using assms(3) by simp
next
  case True
  have "ts ! 0 \<noteq> []" using assms(1) True by (cases rule: lk_step.cases) auto
  then consider "ts ! 0 = lk_handle_method_call" | z where "ts ! 0 = z @ [Unlock Skeleton_mutex]"
    using assms(3) by (auto simp: method_call_rest_def)
  then show ?thesis
  proof cases
    case 1
    show ?thesis
      using assms(1,2) True 1
      by (cases rule: lk_step.cases) (auto simp: method_call_rest_def lk_handle_method_call_def)
  next
    case (2 z)
    show ?thesis
    proof (cases z)
      case Nil
      show ?thesis
        using assms(1,2) True 2 Nil by (cases rule: lk_step.cases) (auto simp: method_call_rest_def)
    next
      case (Cons a y)
      have "\<exists>p. us = ts[0 := p @ y @ [Unlock Skeleton_mutex]]"
        using assms(1) True 2 Cons
        by (cases rule: lk_step.cases) (force intro: exI [of _ "[]"] exI [of _ "_ @ [_]"])+
      then obtain p where "us = ts[0 := (p @ y) @ [Unlock Skeleton_mutex]]" by auto
      then show ?thesis using assms(2) unfolding method_call_rest_def by auto
    qed
  qed
qed

lemma method_called_locked:
  assumes "lk_reach calls (lk_handle_method_call # others) us" and "us ! 0 = Call Skeleton_method # t"
  shows "Skeleton_mutex \<in> held t"
proof -
  have "method_call_rest (us ! 0)"
    using assms(1)
  proof (induction rule: lk_reach.induct)
    case Lk_start
    then show ?case by (simp add: method_call_rest_def)
  next
    case (Lk_next vs k ws)
    then show ?case using method_call_rest_step lk_reach_length by fastforce
  qed
  then obtain z where "Call Skeleton_method # t = z @ [Unlock Skeleton_mutex]"
    using assms(2) by (auto simp: method_call_rest_def lk_handle_method_call_def)
  then show ?thesis by (cases z) (auto simp: held_def)
qed

text \<open> C21: A method handler that registers something with its own skeleton never returns: the
  skeleton calls it with its mutex locked, and the mutex is not recursive. Whatever the handler does
  before (\<open>x\<close>) and wants to do after (\<open>y\<close>), and whatever other threads do, before the call and
  during it, the registration is ahead of it for ever and the skeleton's mutex stays locked, so
  nobody else who waits for it goes on either. \<close>

theorem registering_in_a_handler_blocks:
  assumes "reg \<in> {lk_register_method, lk_register_field_getter, lk_register_field_setter,
      lk_register_event, lk_register_field}"
    and "lk_reach calls (lk_handle_method_call # others) us" and "us ! 0 = Call Skeleton_method # t"
    and "x @ reg @ y \<in> calls Skeleton_method" and "lk_reach calls (us[0 := (x @ reg @ y) @ t]) vs"
  shows "lk_step calls 0 us (us[0 := (x @ reg @ y) @ t]) \<and> (\<exists>z. vs ! 0 = z @ reg @ y @ t) \<and>
    Skeleton_mutex \<in> held t \<and>
    (\<forall>j b s. vs ! j = Under Skeleton_mutex b # s \<longrightarrow> (\<nexists>ws. lk_step calls j vs ws))"
proof -
  obtain b q where reg: "reg = Under Skeleton_mutex b # q" using assms(1) by (auto simp: lk_code)
  have t: "Skeleton_mutex \<in> held t" by (rule method_called_locked [OF assms(2,3)])
  have len: "0 < length us" using lk_reach_length [OF assms(2)] by simp
  have "0 < length vs" using lk_reach_length [OF assms(5)] len by simp
  moreover have "\<exists>z. vs ! 0 = z @ reg @ y @ t"
    using own_lock_ahead [OF assms(5), of 0 x Skeleton_mutex b "q @ y @ t"] len t by (simp add: reg)
  moreover have "lk_step calls 0 us (us[0 := (x @ reg @ y) @ t])"
    using lk_step.Enter [OF len assms(3), where p = "x @ reg @ y"] assms(4) by simp
  ultimately show ?thesis using held_blocks [of vs _ Skeleton_mutex _ _ 0] t by fastforce
qed

theorem registering_in_a_handler_blocks_witness:
  "\<exists>us t. lk_reach (\<lambda>h. {lk_register_method}) [lk_handle_method_call, lk_sd_worker] us \<and>
    us ! 0 = Call Skeleton_method # t \<and> (\<exists>z. (us[0 := lk_register_method @ t]) ! 0 = z @ lk_register_method @ t)"
proof -
  let ?calls = "\<lambda>h. {lk_register_method}"
  obtain us t where us: "lk_exec (\<lambda>h. Some lk_register_method) (replicate 3 (0, True))
      [lk_handle_method_call, lk_sd_worker] = Some us" "us ! 0 = Call Skeleton_method # t"
    by (simp add: lk_do_def lk_code numeral_eq_Suc)
  have run: "lk_reach ?calls [lk_handle_method_call, lk_sd_worker] us"
    by (rule lk_exec_reach [OF us(1)]) simp
  have "\<exists>z. (us[0 := ([] @ lk_register_method @ []) @ t]) ! 0 = z @ lk_register_method @ [] @ t"
    using registering_in_a_handler_blocks
      [of lk_register_method ?calls "[lk_sd_worker]" us t "[]" "[]", OF _ run us(2) _ Lk_start]
    by simp
  then show ?thesis using run us(2) by auto
qed

text \<open> An availability handler that looks up the endpoints of a service never returns when
  a service has expired: the worker of service discovery calls it with the mutex of the services
  locked. The worker stays there, holding that mutex, whatever other threads do. \<close>

theorem lookup_in_availability_handler_blocks:
  assumes "lk_sd_get_endpoints \<in> calls Sd_availability" and "\<forall>u \<in> set others. held u = {}"
  shows "\<exists>us t. lk_reach calls (lk_sd_worker # others) us \<and>
    {vs ! 0 |vs. lk_reach calls us vs} = {lk_sd_get_endpoints @ t} \<and> Services_mutex \<in> held t"
proof -
  let ?wait = "\<lambda>t. Under Services_mutex [Read_member Discovered_services] # t"
  obtain t where t: "lk_exec [Sd_availability \<mapsto> lk_sd_get_endpoints] (replicate 12 (0, True))
      [lk_sd_worker] = Some [?wait t]" "Services_mutex \<in> held t"
    by (simp add: lk_do_def lk_code numeral_eq_Suc)
  have body: "\<forall>h p. [Sd_availability \<mapsto> lk_sd_get_endpoints] h = Some p \<longrightarrow> p \<in> calls h"
    using assms(1) by simp
  obtain us where "lk_reach calls (lk_sd_worker # others) us"
      "{vs ! 0 |vs. lk_reach calls us vs} = {?wait t}"
    using run_to_own_lock [OF t body assms(2)] by blast
  then show ?thesis
    using t(2) by (intro exI [of _ us] exI [of _ t]) (simp add: lk_sd_get_endpoints_def)
qed

theorem lookup_in_availability_handler_blocks_witness:
  "\<exists>us t. lk_reach (\<lambda>h. {lk_sd_get_endpoints}) [lk_sd_worker, lk_send_request] us \<and>
    {vs ! 0 |vs. lk_reach (\<lambda>h. {lk_sd_get_endpoints}) us vs} = {lk_sd_get_endpoints @ t} \<and>
    Services_mutex \<in> held t"
  using lookup_in_availability_handler_blocks
    [of "\<lambda>h. {lk_sd_get_endpoints}" "[lk_send_request]"]
  by (simp add: lk_send_request_def)

text \<open> Service discovery has a race: its worker reads the eventgroups, when it retries a
  subscription, under the mutex of the subscriptions, while the receive thread of the UDP transport
  writes them, for a subscriber, under the mutex of the services. \<close>

theorem eventgroups_race:
  "\<exists>ts. lk_reach runs [lk_sd_worker, lk_udp_receive] ts \<and>
     hd (ts ! 0) = Read_member Eventgroups \<and> hd (ts ! 1) = Write_member Eventgroups"
proof -
  let ?worker = "[(0, True), (0, True), (0, True), (0, True), (0, True),
    (0, True), (0, True), (0, False), (0, True), (0, False), (0, True), (0, True), (0, True),
    (0, True), (0, True), (0, True)]"
  let ?receiver = "[(1, True), (1, True), (1, True), (1, True), (1, True), (1, False), (1, True), (1, True),
    (1, True), (1, True), (1, True), (1, True), (1, True), (1, False), (1, True)]"
  obtain ts where ts: "lk_exec (Some \<circ> quiet) (?worker @ ?receiver) [lk_sd_worker, lk_udp_receive] = Some ts"
      "hd (ts ! 0) = Read_member Eventgroups" "hd (ts ! 1) = Write_member Eventgroups"
    by (simp add: lk_do_def Let_def lk_code)
  then show ?thesis using lk_exec_reach [OF ts(1)] quiet_runs by auto
qed

end
