(* ===== verification/TpSegmenter.thy ===== *)
theory TpSegmenter
  imports Message
begin

text \<open>
  \<open>tp/tp_types.h\<close> and \<open>tp/tp_segmenter.cpp\<close>: the SOME/IP-TP header, a struct of bit fields
  kept at their widths, and the segmenter. \<open>size_t\<close> arithmetic wraps around; the division by
  \<open>max_segment_size\<close> and the reads of the payload are checked.
\<close>

section \<open>The TP header\<close>

record tp_header =
  th_offset :: "24 word"
  th_reserved :: "7 word"
  th_more_flag :: "1 word"

definition TpHeader :: "u32 \<Rightarrow> bool \<Rightarrow> tp_header" where
  "TpHeader off more_segments =
     \<lparr>th_offset = ucast off, th_reserved = 0, th_more_flag = (if more_segments then 1 else 0)\<rparr>"

text \<open>The integer \<open>value\<close> of \<open>to_network\<close>, and the header \<open>from_network\<close> makes of one.\<close>

definition tp_value :: "tp_header \<Rightarrow> u32" where
  "tp_value h = push_bit 8 (ucast (th_offset h)) OR push_bit 1 (ucast (th_reserved h)) OR
     ucast (th_more_flag h)"

definition tp_of_value :: "u32 \<Rightarrow> tp_header" where
  "tp_of_value v = \<lparr>th_offset = ucast (drop_bit 8 v AND 0x00FFFFFF),
     th_reserved = ucast (drop_bit 1 v AND 0x7F), th_more_flag = ucast (v AND 0x01)\<rparr>"

definition to_network :: "bool \<Rightarrow> tp_header \<Rightarrow> u32" where
  "to_network little_endian h = htonl little_endian (tp_value h)"

definition from_network :: "bool \<Rightarrow> u32 \<Rightarrow> tp_header" where
  "from_network little_endian net_value = tp_of_value (htonl little_endian net_value)"

text \<open>The object representation of \<open>to_network\<close>, and \<open>from_network\<close> of copied bytes.\<close>

definition tp_bytes :: "tp_header \<Rightarrow> bytes" where
  "tp_bytes h = bytes32 (tp_value h)"

definition tp_parse :: "bytes \<Rightarrow> nat \<Rightarrow> fault + tp_header option" where
  "tp_parse data len =
     (if len < 4 then Inr None else rbind (rd32 data 0) (\<lambda>v. Inr (Some (tp_of_value v))))"

lemma to_network_bytes: "object_bytes32 le (to_network le h) = tp_bytes h"
  by (simp add: to_network_def tp_bytes_def object_bytes_htonl)

lemma length_tp_bytes [simp]: "length (tp_bytes h) = 4"
  by (simp add: tp_bytes_def)

lemma word_no_high_bit: "LENGTH('a::len) \<le> n \<Longrightarrow> \<not> bit (w :: 'a word) n"
  using bit_imp_le_length [of w n] by auto

lemma tp_masks: "(0x00FFFFFF :: u32) = mask 24" "(0x7F :: u32) = mask 7" "(0x01 :: u32) = mask 1"
  by (simp_all add: mask_eq_exp_minus_1)

lemma tp_value_inverse: "tp_of_value (tp_value h) = h"
proof -
  have "ucast (drop_bit 8 (tp_value h) AND mask 24) = th_offset h"
    unfolding tp_value_def by (rule bit_word_eqI) (auto simp: bit_simps word_no_high_bit simp del: push_bit_Suc)
  moreover have "ucast (drop_bit 1 (tp_value h) AND mask 7) = th_reserved h"
    unfolding tp_value_def by (rule bit_word_eqI) (auto simp: bit_simps word_no_high_bit simp del: push_bit_Suc)
  moreover have "ucast (tp_value h AND mask 1) = th_more_flag h"
    unfolding tp_value_def by (rule bit_word_eqI) (auto simp: bit_simps word_no_high_bit simp del: push_bit_Suc)
  ultimately show ?thesis unfolding tp_of_value_def tp_masks by simp
qed

lemma tp_of_value_inverse: "tp_value (tp_of_value v) = v"
  unfolding tp_value_def tp_of_value_def tp_masks
  apply (rule bit_word_eqI)
  subgoal for n
    by (cases "n = 0"; cases "n < 8") (auto simp: bit_simps simp del: push_bit_Suc)
  done

interpretation tp_codec: fixed_codec tp_bytes tp_parse "\<lambda>h. h" "\<lambda>_. True" 4
proof
  fix h len rest
  assume "length (tp_bytes h) \<le> len"
  then show "tp_parse (tp_bytes h @ rest) len = Inr (Some h)"
    using rd32_bytes32 [of "[]" "tp_value h" rest]
    by (simp add: tp_parse_def tp_bytes_def tp_value_inverse)
qed auto

section \<open>The segmenter\<close>

definition UDP_SEGMENT_SIZE :: nat where
  "UDP_SEGMENT_SIZE = 1392"

definition TCP_SEGMENT_SIZE :: nat where
  "TCP_SEGMENT_SIZE = 4095"

definition needs_segmentation :: "nat \<Rightarrow> nat \<Rightarrow> bool" where
  "needs_segmentation n_payload max_segment_size \<longleftrightarrow> max_segment_size < n_payload"

definition get_segment_count :: "nat \<Rightarrow> nat \<Rightarrow> fault + nat" where
  "get_segment_count n_payload max_segment_size =
     (if n_payload = 0 then Inr 1
      else if max_segment_size = 0 then Inl Division_by_zero
      else Inr (size_sub (size_add n_payload max_segment_size) 1 div max_segment_size))"

text \<open>The nine setters the code runs on every message it makes from the original.\<close>

definition copy_header :: "message \<Rightarrow> message_type \<Rightarrow> message" where
  "copy_header original t =
     new_message\<lparr>m_service_id := m_service_id original,
       m_instance_id := m_instance_id original,
       m_method_id := m_method_id original,
       m_client_id := m_client_id original,
       m_session_id := m_session_id original,
       m_protocol_version := m_protocol_version original,
       m_interface_version := m_interface_version original,
       m_message_type := t,
       m_return_code := m_return_code original\<rparr>"

fun tp_type_of :: "message_type \<Rightarrow> message_type option" where
  "tp_type_of REQUEST = Some TP_REQUEST"
| "tp_type_of REQUEST_NO_RETURN = Some TP_REQUEST_NO_RETURN"
| "tp_type_of NOTIFICATION = Some TP_NOTIFICATION"
| "tp_type_of RESPONSE = Some TP_RESPONSE"
| "tp_type_of ERROR = Some TP_ERROR"
| "tp_type_of _ = None"

text \<open>The loop, by the iterations that are left.\<close>

primrec segment_loop ::
    "message \<Rightarrow> message_type \<Rightarrow> bytes \<Rightarrow> nat \<Rightarrow> nat \<Rightarrow> nat \<Rightarrow> message list \<Rightarrow> fault + message list"
where
  "segment_loop original tp_type data max_size 0 offset segments = Inr segments"
| "segment_loop original tp_type data max_size (Suc left) offset segments =
     (let segment_payload_size = min max_size (size_sub (length data) offset);
          is_last = length data \<le> size_add offset segment_payload_size;
          tp_header = TpHeader (of_nat offset) (\<not> is_last)
      in rbind (rd_slice data offset segment_payload_size) (\<lambda>slice.
           segment_loop original tp_type data max_size left
             (size_add offset segment_payload_size)
             (segments @ [set_payload (tp_bytes tp_header @ slice)
                (copy_header original tp_type)])))"

definition segment :: "message \<Rightarrow> nat \<Rightarrow> fault + message list" where
  "segment original max_segment_size =
     (case m_payload original of
        None \<Rightarrow> Inr [copy_header original (m_message_type original)]
      | Some payload \<Rightarrow>
          if payload_size payload = 0 then
            Inr [copy_header original (m_message_type original)]
          else if \<not> needs_segmentation (payload_size payload) max_segment_size then
            Inr [set_payload (p_data payload)
                   (copy_header original (m_message_type original))]
          else
            (case tp_type_of (m_message_type original) of
               None \<Rightarrow> Inr []
             | Some tp_type \<Rightarrow>
                 rbind (get_segment_count (payload_size payload) max_segment_size) (\<lambda>count.
                   segment_loop original tp_type (p_data payload) max_segment_size count 0 [])))"

section \<open>What a segmentation is\<close>

text \<open>The \<open>i\<close>-th segment, by the range of the payload it carries.\<close>

definition segment_count :: "bytes \<Rightarrow> nat \<Rightarrow> nat" where
  "segment_count data n = (length data + n - 1) div n"

definition slice_of :: "bytes \<Rightarrow> nat \<Rightarrow> nat \<Rightarrow> bytes" where
  "slice_of data n offset = take n (drop offset data)"

definition segment_at :: "message \<Rightarrow> message_type \<Rightarrow> bytes \<Rightarrow> nat \<Rightarrow> nat \<Rightarrow> message" where
  "segment_at original t data n i =
     set_payload (tp_bytes (TpHeader (of_nat (i * n)) (Suc i < segment_count data n)) @
         slice_of data n (i * n))
       (copy_header original t)"

lemma segment_count_iff: "0 < n \<Longrightarrow> i < segment_count data n \<longleftrightarrow> i * n < length data"
proof -
  assume n: "0 < n"
  have "i < segment_count data n \<longleftrightarrow> Suc i * n \<le> length data + n - 1"
    unfolding segment_count_def Suc_le_eq [symmetric]
    using n by (simp add: less_eq_div_iff_mult_less_eq)
  also have "\<dots> \<longleftrightarrow> i * n < length data" using n by auto
  finally show ?thesis .
qed

lemma concat_slices:
  "concat (map (\<lambda>i. slice_of data n (i * n)) [0..<k]) = take (k * n) data"
proof (induction k)
  case (Suc k)
  have "take (Suc k * n) data = take (k * n) data @ take n (drop (k * n) data)"
    by (simp add: take_add add.commute [of n])
  then show ?case using Suc by (simp add: slice_of_def)
qed simp

text \<open>One turn of the loop.\<close>

lemma segment_loop_turn:
  assumes "0 < n" and "length data + n < size_max" and "i * n < length data"
  shows "segment_loop original t data n (Suc left) (i * n) segs =
    segment_loop original t data n left (min (Suc i * n) (length data))
      (segs @ [segment_at original t data n i])"
proof -
  let ?sz = "min n (length data - i * n)"
  have sub: "size_sub (length data) (i * n) = length data - i * n"
    using assms by (intro size_sub_small) auto
  have add: "size_add (i * n) ?sz = i * n + ?sz"
    using assms by (intro size_add_small) auto
  have nxt: "i * n + ?sz = min (Suc i * n) (length data)"
    using assms(3) by auto
  have last: "length data \<le> i * n + ?sz \<longleftrightarrow> \<not> Suc i < segment_count data n"
    unfolding segment_count_iff [OF assms(1)] nxt by auto
  have slice: "rd_slice data (i * n) ?sz = Inr (slice_of data n (i * n))"
    using assms(3) by (auto simp: rd_slice_def slice_of_def min_def)
  show ?thesis
    by (simp only: segment_loop.simps Let_def sub add last slice rbind.simps not_not
        segment_at_def) (simp only: nxt)
qed

lemma segment_loop_spec:
  assumes "0 < n" and "length data + n < size_max" and "i + left = segment_count data n"
  shows "segment_loop original t data n left (min (i * n) (length data)) segs =
    Inr (segs @ map (segment_at original t data n) [i..<segment_count data n])"
  using assms(3)
proof (induction left arbitrary: i segs)
  case (Suc left)
  then have i: "i < segment_count data n" by simp
  then have lt: "i * n < length data" using assms(1) by (simp add: segment_count_iff)
  have "segment_loop original t data n (Suc left) (i * n) segs =
      segment_loop original t data n left (min (Suc i * n) (length data))
        (segs @ [segment_at original t data n i])"
    by (rule segment_loop_turn [OF assms(1,2) lt])
  also have "\<dots> = Inr ((segs @ [segment_at original t data n i]) @
      map (segment_at original t data n) [Suc i..<segment_count data n])"
    by (rule Suc.IH) (use Suc.prems in simp)
  finally show ?case using lt i by (simp add: upt_conv_Cons)
qed simp

lemma segment_large:
  assumes "m_payload m = Some p" and "0 < n" and "n < length (p_data p)"
    and "length (p_data p) + n < size_max"
  shows "segment m n =
    (case tp_type_of (m_message_type m) of
       None \<Rightarrow> Inr []
     | Some t \<Rightarrow> Inr (map (segment_at m t (p_data p) n) [0..<segment_count (p_data p) n]))"
proof -
  have "size_sub (size_add (length (p_data p)) n) 1 = length (p_data p) + n - 1"
    using assms by (simp add: size_add_small size_sub_small)
  then have "get_segment_count (length (p_data p)) n = Inr (segment_count (p_data p) n)"
    using assms by (auto simp: get_segment_count_def segment_count_def)
  then show ?thesis
    using assms segment_loop_spec [OF assms(2,4), of 0 "segment_count (p_data p) n" m _ "[]"]
    by (auto simp: segment_def payload_size_def needs_segmentation_def split: option.split)
qed

section \<open>Properties\<close>

text \<open> The TP header round-trips through its four network-order bytes, all of its fields
  at their widths, on a host of either byte order; and every 32-bit value is the encoding
  of exactly one header. \<close>
theorem tp_header_roundtrip:
  "tp_parse (object_bytes32 le (to_network le h) @ rest) 4 = Inr (Some h) \<and>
   tp_value (tp_of_value v) = v"
  using tp_codec.dec_enc [of h 4 rest] by (simp add: to_network_bytes tp_of_value_inverse)

text \<open>The fields of a segment, for the clients of the segmenter.\<close>

lemma segment_at_fields [simp]:
  "m_service_id (segment_at m t d n i) = m_service_id m"
  "m_instance_id (segment_at m t d n i) = m_instance_id m"
  "m_method_id (segment_at m t d n i) = m_method_id m"
  "m_client_id (segment_at m t d n i) = m_client_id m"
  "m_session_id (segment_at m t d n i) = m_session_id m"
  "m_protocol_version (segment_at m t d n i) = m_protocol_version m"
  "m_interface_version (segment_at m t d n i) = m_interface_version m"
  "m_message_type (segment_at m t d n i) = t"
  "m_return_code (segment_at m t d n i) = m_return_code m"
  by (simp_all add: segment_at_def set_payload_def copy_header_def)

lemma segment_at_payload:
  "m_payload (segment_at m t d n i) =
     Some (payload_of (tp_bytes (TpHeader (of_nat (i * n)) (Suc i < segment_count d n)) @
       slice_of d n (i * n)))"
  by (simp add: segment_at_def set_payload_def)

lemma segment_at_bytes:
  "payload_bytes (segment_at m t d n i) =
     tp_bytes (TpHeader (of_nat (i * n)) (Suc i < segment_count d n)) @ slice_of d n (i * n)"
  by (simp add: payload_bytes_def segment_at_payload payload_of_def)

lemma segment_at_request_id [simp]: "get_request_id (segment_at m t d n i) = get_request_id m"
  by (simp add: get_request_id_def)

lemma tp_type_of_tp: "tp_type_of t = Some t' \<Longrightarrow> m_message_type m = t' \<Longrightarrow> is_tp_message m"
  by (cases t) (auto simp: is_tp_message_def)

lemma slice_length:
  "0 < n \<Longrightarrow> i * n < length d \<Longrightarrow> 0 < length (slice_of d n (i * n)) \<and>
     length (slice_of d n (i * n)) \<le> n"
  by (simp add: slice_of_def)

text \<open> C13: segmentation is lossless and bounded. A message of a plain type whose payload is
  longer than the limit becomes as many segments as the limit requires; each carries at
  least one and at most \<open>max_segment_size\<close> bytes behind its TP header and the ids of the
  original, the headers count up the offsets and only the last one has the more flag
  clear, and the data of the segments, put together, are the payload. \<close>
theorem segment_lossless:
  assumes "m_payload m = Some p" and "0 < n" and "n < length (p_data p)"
    and "length (p_data p) + n < size_max" and "tp_type_of (m_message_type m) = Some t"
  shows "\<exists>segs. segment m n = Inr segs \<and> length segs = (length (p_data p) + n - 1) div n \<and>
    concat (map (\<lambda>s. drop 4 (payload_bytes s)) segs) = p_data p \<and>
    (\<forall>i < length segs. m_message_type (segs ! i) = t \<and> is_tp_message (segs ! i) \<and>
       get_request_id (segs ! i) = get_request_id m \<and>
       get_message_id (segs ! i) = get_message_id m \<and>
       4 < length (payload_bytes (segs ! i)) \<and> length (payload_bytes (segs ! i)) \<le> 4 + n \<and>
       tp_parse (payload_bytes (segs ! i)) 4 =
         Inr (Some (TpHeader (of_nat (i * n)) (Suc i < length segs))))"
proof -
  let ?d = "p_data p"
  let ?segs = "map (segment_at m t ?d n) [0..<segment_count ?d n]"
  have seg: "segment m n = Inr ?segs"
    using segment_large [OF assms(1-4)] assms(5) by simp
  have "length ?d \<le> segment_count ?d n * n"
    using segment_count_iff [OF assms(2), of "segment_count ?d n" ?d] by simp
  then have "concat (map (\<lambda>s. drop 4 (payload_bytes s)) ?segs) = ?d"
    using concat_slices [of ?d n "segment_count ?d n"]
    by (simp add: comp_def segment_at_bytes)
  moreover have "m_message_type s = t \<and> is_tp_message s \<and>
      get_request_id s = get_request_id m \<and> get_message_id s = get_message_id m \<and>
      4 < length (payload_bytes s) \<and> length (payload_bytes s) \<le> 4 + n \<and>
      tp_parse (payload_bytes s) 4 =
        Inr (Some (TpHeader (of_nat (i * n)) (Suc i < segment_count ?d n)))"
    if i: "i < segment_count ?d n" and s: "s = segment_at m t ?d n i" for i s
  proof -
    have "tp_parse (payload_bytes s) 4 =
        Inr (Some (TpHeader (of_nat (i * n)) (Suc i < segment_count ?d n)))"
      unfolding s segment_at_bytes by (rule tp_codec.dec_enc) simp_all
    then show ?thesis
      using slice_length [OF assms(2), of i ?d] tp_type_of_tp [OF assms(5), of s] i
      by (simp add: s segment_count_iff [OF assms(2)] segment_at_bytes get_message_id_def)
  qed
  ultimately show ?thesis
    by (intro exI [of _ ?segs] conjI seg allI impI) (simp_all add: segment_count_def)
qed

definition big_message :: message where
  "big_message = (create_request 0x1234 1 0x0421 7 False)\<lparr>
     m_payload := Some (payload_of [1, 2, 3, 4, 5])\<rparr>"

theorem segment_lossless_witness:
  "\<exists>segs. segment big_message 2 = Inr segs \<and> length segs = 3 \<and>
    concat (map (\<lambda>s. drop 4 (payload_bytes s)) segs) = [1, 2, 3, 4, 5]"
proof -
  have "m_payload big_message = Some (payload_of [1, 2, 3, 4, 5])"
    and "tp_type_of (m_message_type big_message) = Some TP_REQUEST"
    by (simp_all add: big_message_def create_request_def)
  moreover have "length (p_data (payload_of [1, 2, 3, 4, 5])) + 2 < size_max"
    and "2 < length (p_data (payload_of [1, 2, 3, 4, 5]))"
    by (simp_all add: payload_of_def size_max_def)
  ultimately obtain segs where "segment big_message 2 = Inr segs"
    and "length segs = (length (p_data (payload_of [1, 2, 3, 4, 5])) + 2 - 1) div 2"
    and "concat (map (\<lambda>s. drop 4 (payload_bytes s)) segs) = p_data (payload_of [1, 2, 3, 4, 5])"
    using segment_lossless [of big_message "payload_of [1, 2, 3, 4, 5]" 2 TP_REQUEST] by auto
  then show ?thesis by (simp add: payload_of_def)
qed

text \<open> What the segmenter leaves alone and what it drops. A message without payload, or
  with one that fits, comes out as one message with the same header and payload; a message
  that is too long but has a type without TP counterpart (a TP type already, or an unknown
  one) yields no segment at all, without an error; and with a limit of zero the count of a
  long message divides by zero. \<close>
theorem segment_other_cases:
  "(m_payload m = None \<longrightarrow> segment m n = Inr [copy_header m (m_message_type m)]) \<and>
   (m_payload m = Some p \<longrightarrow> length (p_data p) \<le> n \<longrightarrow>
     (\<exists>s. segment m n = Inr [s] \<and> payload_bytes s = p_data p \<and>
        m_message_type s = m_message_type m \<and> get_request_id s = get_request_id m)) \<and>
   (m_payload m = Some p \<longrightarrow> n < length (p_data p) \<longrightarrow> tp_type_of (m_message_type m) = None \<longrightarrow>
     segment m n = Inr []) \<and>
   (m_payload m = Some p \<longrightarrow> p_data p \<noteq> [] \<longrightarrow> tp_type_of (m_message_type m) \<noteq> None \<longrightarrow>
     segment m 0 = Inl Division_by_zero)"
proof (intro conjI impI)
  assume "m_payload m = Some p" and "length (p_data p) \<le> n"
  then show "\<exists>s. segment m n = Inr [s] \<and> payload_bytes s = p_data p \<and>
      m_message_type s = m_message_type m \<and> get_request_id s = get_request_id m"
    by (simp add: segment_def payload_size_def needs_segmentation_def copy_header_def
        payload_bytes_def set_payload_def payload_of_def get_request_id_def new_message_def)
next
  assume "m_payload m = Some p" and "p_data p \<noteq> []" and "tp_type_of (m_message_type m) \<noteq> None"
  then show "segment m 0 = Inl Division_by_zero"
    by (auto simp: segment_def payload_size_def needs_segmentation_def get_segment_count_def)
qed (auto simp: segment_def payload_size_def needs_segmentation_def)

theorem segment_other_cases_witness:
  "segment big_message 0 = Inl Division_by_zero \<and>
   segment (big_message\<lparr>m_message_type := TP_REQUEST\<rparr>) 2 = Inr []"
  using segment_other_cases [of big_message 0 "payload_of [1, 2, 3, 4, 5]"]
    segment_other_cases
      [of "big_message\<lparr>m_message_type := TP_REQUEST\<rparr>" 2 "payload_of [1, 2, 3, 4, 5]"]
  by (simp add: big_message_def create_request_def payload_of_def)

end
