(* ===== verification/TpReassembler.thy ===== *)
theory TpReassembler
  imports TpSegmenter
begin

text \<open>
  \<open>tp/tp_reassembler.h\<close> and \<open>tp/tp_reassembler.cpp\<close>: the reassembly buffers, one per
  request id, and the operations on them. \<open>steady_clock::now()\<close> is an argument. The segment
  data is moved into the buffer before its size is taken: \<open>std_move\<close> gives the new value and
  what is left in the source, for \<open>std::vector\<close> an empty vector. \<open>ra_ok\<close> is the invariant
  of the buffers; the last sections show what a completed reassembly contains and that the
  segments of the segmenter never complete one.
\<close>

section \<open>State\<close>

record reassembly_buffer =
  rb_service_id :: u16
  rb_instance_id :: u16
  rb_method_id :: u16
  rb_client_id :: u16
  rb_interface_version :: u8
  rb_return_code :: return_code
  rb_message_type :: message_type
  rb_total_size :: nat
  rb_segments :: "(u32, bytes) omap"
  rb_first_segment_time :: time_point
  rb_has_last_segment :: bool

record reassembler =
  ra_buffers :: "(u32, reassembly_buffer) omap"
  ra_timeout :: int

definition DEFAULT_REASSEMBLY_TIMEOUT_MS :: u32 where
  "DEFAULT_REASSEMBLY_TIMEOUT_MS = 5000"

definition TpReassembler :: "int \<Rightarrow> reassembler" where
  "TpReassembler timeout = \<lparr>ra_buffers = om_empty, ra_timeout = timeout\<rparr>"

definition default_reassembler :: reassembler where
  "default_reassembler = TpReassembler (uint DEFAULT_REASSEMBLY_TIMEOUT_MS)"

text \<open>The value-initialized buffer \<open>operator[]\<close> inserts for a new key.\<close>

definition fresh_buffer :: reassembly_buffer where
  "fresh_buffer = \<lparr>rb_service_id = 0, rb_instance_id = 0, rb_method_id = 0, rb_client_id = 0,
     rb_interface_version = 0, rb_return_code = E_OK, rb_message_type = REQUEST,
     rb_total_size = 0, rb_segments = om_empty, rb_first_segment_time = 0,
     rb_has_last_segment = False\<rparr>"

section \<open>Operations\<close>

definition std_move :: "'a list \<Rightarrow> 'a list \<times> 'a list" where
  "std_move v = (v, [])"

text \<open>The loop over the stored segments: \<open>None\<close> at a gap, else the offset reached.\<close>

fun contiguous_end :: "nat \<Rightarrow> (u32, bytes) omap \<Rightarrow> nat option" where
  "contiguous_end expected_offset [] = Some expected_offset"
| "contiguous_end expected_offset ((offset, data) # segments) =
     (if unat offset \<noteq> expected_offset then None
      else contiguous_end (expected_offset + length data) segments)"

definition is_complete_unlocked :: "u32 \<Rightarrow> reassembler \<Rightarrow> bool" where
  "is_complete_unlocked request_id r =
     (case om_get (ra_buffers r) request_id of
        None \<Rightarrow> False
      | Some buffer \<Rightarrow>
          if \<not> rb_has_last_segment buffer then False
          else
            (case contiguous_end 0 (rb_segments buffer) of
               None \<Rightarrow> False
             | Some expected_offset \<Rightarrow> expected_offset = rb_total_size buffer))"

definition is_complete :: "u32 \<Rightarrow> reassembler \<Rightarrow> bool" where
  "is_complete request_id r = is_complete_unlocked request_id r"

definition init_buffer :: "time_point \<Rightarrow> message \<Rightarrow> reassembly_buffer \<Rightarrow> reassembly_buffer" where
  "init_buffer now seg buffer =
     (if rb_segments buffer = om_empty then
        buffer\<lparr>rb_service_id := m_service_id seg,
          rb_instance_id := m_instance_id seg,
          rb_method_id := m_method_id seg,
          rb_client_id := m_client_id seg,
          rb_interface_version := m_interface_version seg,
          rb_return_code := m_return_code seg,
          rb_message_type := m_message_type seg,
          rb_total_size := 0,
          rb_first_segment_time := now,
          rb_has_last_segment := False\<rparr>
      else buffer)"

definition store_segment ::
    "u32 \<Rightarrow> bool \<Rightarrow> bytes \<Rightarrow> reassembly_buffer \<Rightarrow> reassembly_buffer" where
  "store_segment offset is_last payload_data buffer =
     (let segment_data = drop 4 payload_data;
          (stored, segment_data') = std_move segment_data;
          buffer' = buffer\<lparr>rb_segments := om_put offset stored (rb_segments buffer)\<rparr>
      in if is_last then
           buffer'\<lparr>rb_total_size := unat offset + length segment_data',
             rb_has_last_segment := True\<rparr>
         else buffer')"

definition add_segment :: "time_point \<Rightarrow> message option \<Rightarrow> reassembler \<Rightarrow> bool \<times> reassembler" where
  "add_segment now seg r =
     (case seg of
        None \<Rightarrow> (False, r)
      | Some msg \<Rightarrow>
          if \<not> is_tp_message msg then (False, r)
          else
            (case m_payload msg of
               None \<Rightarrow> (False, r)
             | Some payload \<Rightarrow>
                 if payload_size payload < 4 then (False, r)
                 else
                   let d = p_data payload;
                       tp_header = tp_of_value (be32 (d ! 0) (d ! 1) (d ! 2) (d ! 3));
                       request_id = get_request_id msg;
                       offset = ucast (th_offset tp_header);
                       is_last = (th_more_flag tp_header = 0);
                       buffer = (case om_get (ra_buffers r) request_id of
                                   None \<Rightarrow> fresh_buffer | Some b \<Rightarrow> b);
                       buffer' = store_segment offset is_last d (init_buffer now msg buffer);
                       r' = r\<lparr>ra_buffers := om_put request_id buffer' (ra_buffers r)\<rparr>
                   in (is_complete_unlocked request_id r', r')))"

fun original_type_of :: "message_type \<Rightarrow> message_type" where
  "original_type_of TP_REQUEST = REQUEST"
| "original_type_of TP_REQUEST_NO_RETURN = REQUEST_NO_RETURN"
| "original_type_of TP_NOTIFICATION = NOTIFICATION"
| "original_type_of TP_RESPONSE = RESPONSE"
| "original_type_of TP_ERROR = ERROR"
| "original_type_of _ = REQUEST"

definition buffer_message :: "u32 \<Rightarrow> reassembly_buffer \<Rightarrow> message" where
  "buffer_message request_id buffer =
     set_payload (concat (map snd (rb_segments buffer)))
       (new_message\<lparr>m_service_id := rb_service_id buffer,
          m_instance_id := rb_instance_id buffer,
          m_method_id := rb_method_id buffer,
          m_client_id := rb_client_id buffer,
          m_session_id := ucast (request_id AND 0xFFFF),
          m_protocol_version := 0x01,
          m_interface_version := rb_interface_version buffer,
          m_message_type := original_type_of (rb_message_type buffer),
          m_return_code := rb_return_code buffer\<rparr>)"

definition reassemble :: "u32 \<Rightarrow> reassembler \<Rightarrow> message option \<times> reassembler" where
  "reassemble request_id r =
     (case om_get (ra_buffers r) request_id of
        None \<Rightarrow> (None, r)
      | Some buffer \<Rightarrow>
          if \<not> is_complete_unlocked request_id r then (None, r)
          else (Some (buffer_message request_id buffer),
                r\<lparr>ra_buffers := om_del request_id (ra_buffers r)\<rparr>))"

text \<open>The iteration that erases the expired buffers as it goes.\<close>

definition expired :: "time_point \<Rightarrow> int \<Rightarrow> reassembly_buffer \<Rightarrow> bool" where
  "expired now timeout buffer \<longleftrightarrow>
     timeout < to_milliseconds (now - rb_first_segment_time buffer)"

fun erase_expired ::
    "time_point \<Rightarrow> int \<Rightarrow> (u32, reassembly_buffer) omap \<Rightarrow> (u32, reassembly_buffer) omap" where
  "erase_expired now timeout [] = []"
| "erase_expired now timeout ((k, buffer) # it) =
     (if expired now timeout buffer then erase_expired now timeout it
      else (k, buffer) # erase_expired now timeout it)"

definition cleanup_expired :: "time_point \<Rightarrow> reassembler \<Rightarrow> reassembler" where
  "cleanup_expired now r = r\<lparr>ra_buffers := erase_expired now (ra_timeout r) (ra_buffers r)\<rparr>"

definition pending_count :: "reassembler \<Rightarrow> nat" where
  "pending_count r = length (ra_buffers r)"

section \<open>The invariant\<close>

text \<open>
  A buffer holds at least one seg, the client half of its key, a TP type, and, once the
  last segment has come, its total size is the offset of a stored segment.
\<close>

definition buffer_ok :: "u32 \<Rightarrow> reassembly_buffer \<Rightarrow> bool" where
  "buffer_ok k b \<longleftrightarrow> om_ok (rb_segments b) \<and> rb_segments b \<noteq> [] \<and>
     rb_client_id b = ucast (drop_bit 16 k) \<and>
     tp_type_of (original_type_of (rb_message_type b)) = Some (rb_message_type b) \<and>
     (rb_has_last_segment b \<longrightarrow>
        (\<exists>off d. om_get (rb_segments b) off = Some d \<and> unat off = rb_total_size b))"

definition ra_ok :: "reassembler \<Rightarrow> bool" where
  "ra_ok r \<longleftrightarrow> om_ok (ra_buffers r) \<and>
     (\<forall>k b. om_get (ra_buffers r) k = Some b \<longrightarrow> buffer_ok k b)"

text \<open>All stored segments satisfy a predicate.\<close>

definition segs_all :: "(bytes \<Rightarrow> bool) \<Rightarrow> reassembler \<Rightarrow> bool" where
  "segs_all P r \<longleftrightarrow> (\<forall>k b off d. om_get (ra_buffers r) k = Some b \<longrightarrow>
     om_get (rb_segments b) off = Some d \<longrightarrow> P d)"

lemma ra_ok_empty: "ra_ok (TpReassembler t)"
  by (simp add: ra_ok_def TpReassembler_def om_empty_def om_get_def)

lemma segs_all_empty: "segs_all P (TpReassembler t)"
  by (simp add: segs_all_def TpReassembler_def om_empty_def om_get_def)

lemma tp_type_original: "is_tp_message m \<Longrightarrow>
    tp_type_of (original_type_of (m_message_type m)) = Some (m_message_type m)"
  by (auto simp: is_tp_message_def)

text \<open>The buffer \<open>add_segment\<close> stores.\<close>

definition accepts :: "message \<Rightarrow> bool" where
  "accepts msg \<longleftrightarrow> is_tp_message msg \<and> 4 \<le> length (payload_bytes msg)"

definition header_of :: "message \<Rightarrow> tp_header" where
  "header_of msg = (let d = payload_bytes msg in
     tp_of_value (be32 (d ! 0) (d ! 1) (d ! 2) (d ! 3)))"

definition seg_offset :: "message \<Rightarrow> u32" where
  "seg_offset msg = ucast (th_offset (header_of msg))"

definition seg_last :: "message \<Rightarrow> bool" where
  "seg_last msg \<longleftrightarrow> th_more_flag (header_of msg) = 0"

definition old_buffer :: "message \<Rightarrow> reassembler \<Rightarrow> reassembly_buffer" where
  "old_buffer msg r = (case om_get (ra_buffers r) (get_request_id msg) of
     None \<Rightarrow> fresh_buffer | Some b \<Rightarrow> b)"

definition new_buffer :: "time_point \<Rightarrow> message \<Rightarrow> reassembly_buffer \<Rightarrow> reassembly_buffer" where
  "new_buffer now msg b =
     store_segment (seg_offset msg) (seg_last msg) (payload_bytes msg) (init_buffer now msg b)"

lemma add_segment_eq:
  "add_segment now (Some msg) r =
     (if accepts msg then
        let r' = r\<lparr>ra_buffers := om_put (get_request_id msg) (new_buffer now msg (old_buffer msg r))
               (ra_buffers r)\<rparr>
        in (is_complete_unlocked (get_request_id msg) r', r')
      else (False, r))"
  by (auto simp: add_segment_def accepts_def payload_bytes_def payload_size_def new_buffer_def
      old_buffer_def seg_offset_def seg_last_def header_of_def Let_def split: option.splits)

lemma new_buffer_segments:
  "rb_segments (new_buffer now msg b) =
     om_put (seg_offset msg) (drop 4 (payload_bytes msg)) (rb_segments b)"
  by (simp add: new_buffer_def store_segment_def init_buffer_def std_move_def Let_def)

lemma new_buffer_last:
  "rb_has_last_segment (new_buffer now msg b) \<longleftrightarrow>
     seg_last msg \<or> rb_segments b \<noteq> [] \<and> rb_has_last_segment b"
  "rb_total_size (new_buffer now msg b) =
     (if seg_last msg then unat (seg_offset msg)
      else if rb_segments b = [] then 0 else rb_total_size b)"
  by (auto simp: new_buffer_def store_segment_def init_buffer_def std_move_def Let_def om_empty_def)

lemma new_buffer_header:
  "rb_segments b \<noteq> [] \<Longrightarrow> rb_client_id (new_buffer now msg b) = rb_client_id b \<and>
     rb_message_type (new_buffer now msg b) = rb_message_type b"
  "rb_segments b = [] \<Longrightarrow> rb_client_id (new_buffer now msg b) = m_client_id msg \<and>
     rb_message_type (new_buffer now msg b) = m_message_type msg"
  by (auto simp: new_buffer_def store_segment_def init_buffer_def std_move_def Let_def om_empty_def)

lemma client_of_request_id: "ucast (drop_bit 16 (get_request_id m)) = m_client_id m"
  unfolding get_request_id_def by (rule split_u16_u32)

lemma old_buffer_cases:
  "ra_ok r \<Longrightarrow> old_buffer msg r = fresh_buffer \<or> buffer_ok (get_request_id msg) (old_buffer msg r)"
  by (auto simp: old_buffer_def ra_ok_def split: option.splits)

lemma buffer_ok_new:
  assumes "is_tp_message msg" and "b = fresh_buffer \<or> buffer_ok (get_request_id msg) b"
  shows "buffer_ok (get_request_id msg) (new_buffer now msg b)"
  using assms(2)
proof
  assume "b = fresh_buffer"
  then show ?thesis
    using new_buffer_header(2) [of b now msg] tp_type_original [OF assms(1)]
    by (auto simp: buffer_ok_def new_buffer_segments new_buffer_last client_of_request_id
        fresh_buffer_def om_empty_def om_ok_def om_get_def)
next
  assume b: "buffer_ok (get_request_id msg) b"
  then have "om_ok (rb_segments b)" and "rb_segments b \<noteq> []" by (auto simp: buffer_ok_def)
  then show ?thesis
    using b new_buffer_header(1) [of b now msg]
    by (auto simp: buffer_ok_def new_buffer_segments new_buffer_last om_ok_put om_get_put) metis
qed

lemma add_segment_ok [inv_intros]:
  assumes "ra_ok r"
  shows "ra_ok (snd (add_segment now m r))"
proof (cases m)
  case (Some msg)
  show ?thesis
  proof (cases "accepts msg")
    case True
    have "buffer_ok (get_request_id msg) (new_buffer now msg (old_buffer msg r))"
      by (rule buffer_ok_new) (use True assms old_buffer_cases in \<open>auto simp: accepts_def\<close>)
    then show ?thesis
      using assms unfolding Some add_segment_eq
      by (simp add: True ra_ok_def Let_def om_ok_put om_get_put)
  qed (use assms in \<open>simp add: Some add_segment_eq\<close>)
qed (use assms in \<open>simp add: add_segment_def\<close>)

lemma erase_expired_filter:
  "erase_expired now t bs = filter (\<lambda>e. \<not> expired now t (snd e)) bs"
  by (induction bs) auto

lemma om_get_filter:
  "om_ok m \<Longrightarrow> om_get (filter P m) k = Some v \<longleftrightarrow> om_get m k = Some v \<and> P (k, v)"
  by (simp add: om_get_set om_ok_filter)

lemma om_get_filter_eq:
  assumes "om_ok m"
  shows "om_get (filter P m) k =
    (case om_get m k of None \<Rightarrow> None | Some v \<Rightarrow> if P (k, v) then Some v else None)"
proof (cases "om_get (filter P m) k")
  case None
  then have "\<not> (om_get m k = Some v \<and> P (k, v))" for v
    using om_get_filter [OF assms, of P k v] by simp
  then show ?thesis using None by (simp split: option.split)
qed (use om_get_filter [OF assms] in simp)

lemma reassemble_ok [inv_intros]:
  "ra_ok r \<Longrightarrow> ra_ok (snd (reassemble k r))"
  by (auto simp: reassemble_def ra_ok_def om_get_del om_ok_del split: option.splits if_splits)

lemma cleanup_expired_ok [inv_intros]: "ra_ok r \<Longrightarrow> ra_ok (cleanup_expired now r)"
  by (simp add: cleanup_expired_def ra_ok_def erase_expired_filter om_ok_filter om_get_filter)


section \<open>Runs\<close>

datatype ra_event =
    Add_segment time_point "message option"
  | Reassemble u32
  | Cleanup_expired time_point

fun ra_step :: "ra_event \<Rightarrow> reassembler \<Rightarrow> reassembler" where
  "ra_step (Add_segment now m) r = snd (add_segment now m r)"
| "ra_step (Reassemble k) r = snd (reassemble k r)"
| "ra_step (Cleanup_expired now) r = cleanup_expired now r"

definition ra_run :: "ra_event list \<Rightarrow> reassembler \<Rightarrow> reassembler" where
  "ra_run es r = fold ra_step es r"

lemma ra_step_ok [inv_intros]: "ra_ok r \<Longrightarrow> ra_ok (ra_step e r)"
  by (cases e) (simp_all add: inv_intros)

lemma ra_run_ok [inv_intros]: "ra_ok r \<Longrightarrow> ra_ok (ra_run es r)"
  unfolding ra_run_def by (induction es arbitrary: r) (simp_all add: inv_intros)

text \<open>What the loop over the segments establishes.\<close>

lemma contiguous_end_bounds:
  "contiguous_end e m = Some t \<Longrightarrow> (off, d) \<in> set m \<Longrightarrow> e \<le> unat off \<and> unat off + length d \<le> t"
  "contiguous_end e m = Some t \<Longrightarrow> e \<le> t"
proof (induction e m arbitrary: off d rule: contiguous_end.induct)
  case (2 e off' d' m)
  {
    case 1
    then show ?case using 2 by (auto split: if_splits) force+
  next
    case 2
    then show ?case using "2.IH"(2) by (force split: if_splits)
  }
qed auto

text \<open>Concatenating contiguous segments puts each of them at its offset.\<close>

lemma contiguous_concat:
  assumes "contiguous_end e m = Some t"
  shows "e + length (concat (map snd m)) = t"
    and "(off, d) \<in> set m \<Longrightarrow> take (length d) (drop (unat off - e) (concat (map snd m))) = d"
  using assms
proof (induction e m rule: contiguous_end.induct)
  case (2 e off' d' m)
  {
    case 1
    then show ?case using 2 by (auto split: if_splits)
  next
    case 2
    have off': "unat off' = e" and c: "contiguous_end (e + length d') m = Some t"
      using 2 by (auto split: if_splits)
    show ?case
    proof (cases "(off, d) \<in> set m")
      case True
      then have "e + length d' \<le> unat off" using contiguous_end_bounds(1) [OF c] by blast
      then show ?thesis using "2.IH"(2) [OF _ True c] off' by simp
    next
      case False
      then have "off = off'" "d = d'" using 2 by auto
      then show ?thesis using off' by simp
    qed
  }
qed auto

lemma complete_cases:
  assumes "is_complete_unlocked k r"
  obtains b where "om_get (ra_buffers r) k = Some b" and "rb_has_last_segment b"
    and "contiguous_end 0 (rb_segments b) = Some (rb_total_size b)"
  using assms by (auto simp: is_complete_unlocked_def split: option.splits if_splits)

text \<open>
  The moved-from vector makes the total size the offset of the last segment, so that a
  reassembly only completes when the segment at that offset is an empty one.
\<close>

lemma complete_empty_segment:
  assumes "ra_ok r" and "is_complete_unlocked k r"
  shows "\<exists>b off. om_get (ra_buffers r) k = Some b \<and> om_get (rb_segments b) off = Some []"
proof -
  obtain b where b: "om_get (ra_buffers r) k = Some b" "rb_has_last_segment b"
    "contiguous_end 0 (rb_segments b) = Some (rb_total_size b)"
    using assms(2) by (rule complete_cases)
  have ok: "buffer_ok k b" using assms(1) b(1) by (simp add: ra_ok_def)
  then obtain off d where d: "om_get (rb_segments b) off = Some d" "unat off = rb_total_size b"
    using b(2) by (auto simp: buffer_ok_def)
  have "(off, d) \<in> set (rb_segments b)"
    using ok d(1) by (simp add: om_get_set buffer_ok_def)
  then have "d = []" using contiguous_end_bounds(1) [OF b(3)] d(2) by force
  then show ?thesis using b(1) d(1) by blast
qed

lemma segs_all_step:
  assumes "ra_ok r" and "segs_all P r"
    and "\<And>now msg. e = Add_segment now (Some msg) \<Longrightarrow> accepts msg \<Longrightarrow> P (drop 4 (payload_bytes msg))"
  shows "segs_all P (ra_step e r)"
proof (cases e)
  case (Add_segment now m)
  show ?thesis
  proof (cases m)
    case None
    then show ?thesis using assms by (simp add: Add_segment add_segment_def)
  next
    case (Some msg)
    let ?b = "old_buffer msg r"
    have ob: "om_ok (rb_segments ?b) \<and> (\<forall>off d. om_get (rb_segments ?b) off = Some d \<longrightarrow> P d)"
      using old_buffer_cases [OF assms(1), of msg] assms(2)
      by (auto simp: old_buffer_def buffer_ok_def fresh_buffer_def om_empty_def om_get_def
          segs_all_def split: option.splits)
    show ?thesis
    proof (cases "accepts msg")
      case True
      with assms ob show ?thesis
        by (auto simp: Add_segment Some add_segment_eq Let_def segs_all_def om_get_put
            ra_ok_def new_buffer_segments split: if_splits)
    qed (use assms in \<open>simp add: Add_segment Some add_segment_eq\<close>)
  qed
next
  case (Reassemble k)
  then show ?thesis using assms(2)
    by (auto simp: reassemble_def segs_all_def om_get_del split: option.splits if_splits)
next
  case (Cleanup_expired now)
  then show ?thesis using assms(1,2)
    by (auto simp: cleanup_expired_def segs_all_def erase_expired_filter om_get_filter ra_ok_def)
qed

lemma segs_all_run:
  assumes "ra_ok r" and "segs_all P r"
    and "\<forall>now msg. Add_segment now (Some msg) \<in> set es \<longrightarrow> accepts msg \<longrightarrow>
      P (drop 4 (payload_bytes msg))"
  shows "segs_all P (ra_run es r)"
  using assms unfolding ra_run_def
proof (induction es arbitrary: r)
  case (Cons e es)
  have "segs_all P (ra_step e r)" by (rule segs_all_step) (use Cons.prems in auto)
  then show ?case using Cons by (simp add: ra_step_ok)
qed simp

lemma no_empty_never_complete:
  assumes "ra_ok r" and "segs_all (\<lambda>d. d \<noteq> []) r"
  shows "\<not> is_complete_unlocked k r"
  using complete_empty_segment [OF assms(1), of k] assms(2) by (auto simp: segs_all_def)


section \<open>Reassembling what the segmenter made\<close>

text \<open>
  After any deliveries of segments of one message, in any order and with repetitions, the
  buffer holds exactly the slices delivered. \<open>deliver\<close> feeds segments by their index.
\<close>

definition deliver :: "message \<Rightarrow> message_type \<Rightarrow> bytes \<Rightarrow> nat \<Rightarrow> (time_point \<times> nat) list \<Rightarrow>
    reassembler \<Rightarrow> reassembler" where
  "deliver m t d n xs r =
     fold (\<lambda>(now, i) r. snd (add_segment now (Some (segment_at m t d n i)) r)) xs r"

definition buffer_of :: "message \<Rightarrow> message_type \<Rightarrow> reassembly_buffer \<Rightarrow> bool" where
  "buffer_of m t b \<longleftrightarrow> rb_service_id b = m_service_id m \<and> rb_instance_id b = m_instance_id m \<and>
     rb_method_id b = m_method_id m \<and> rb_client_id b = m_client_id m \<and>
     rb_interface_version b = m_interface_version m \<and> rb_return_code b = m_return_code m \<and>
     rb_message_type b = t"

definition holds_slices :: "message \<Rightarrow> message_type \<Rightarrow> bytes \<Rightarrow> nat \<Rightarrow> nat set \<Rightarrow>
    reassembly_buffer \<Rightarrow> bool" where
  "holds_slices m t d n S b \<longleftrightarrow> om_ok (rb_segments b) \<and> (rb_segments b \<noteq> [] \<longrightarrow> buffer_of m t b) \<and>
     (\<forall>off. om_get (rb_segments b) off =
        (if \<exists>i\<in>S. off = of_nat (i * n) then Some (slice_of d n (unat off)) else None))"

lemma header_of_payload: "payload_bytes m = tp_bytes h @ xs \<Longrightarrow> header_of m = h"
  by (simp add: header_of_def tp_bytes_def bytes32_def be32_split tp_value_inverse)

lemma offset_24: "x < 2 ^ 24 \<Longrightarrow> (ucast (ucast (of_nat x :: u32) :: 24 word) :: u32) = of_nat x"
proof (rule word_unat_eq_iff [THEN iffD2])
  assume "x < 2 ^ 24"
  then show "unat (ucast (ucast (of_nat x :: u32) :: 24 word) :: u32) = unat (of_nat x :: u32)"
    by (simp add: unsigned_ucast_eq take_bit_nat_eq_self unsigned_of_nat)
qed

lemma segment_at_offset:
  assumes "i * n < 2 ^ 24"
  shows "seg_offset (segment_at m t d n i) = of_nat (i * n)"
    and "seg_last (segment_at m t d n i) \<longleftrightarrow> \<not> Suc i < segment_count d n"
    and "drop 4 (payload_bytes (segment_at m t d n i)) = slice_of d n (i * n)"
  using header_of_payload [OF segment_at_bytes [of m t d n i]] offset_24 [OF assms]
  by (simp_all add: seg_offset_def seg_last_def TpHeader_def segment_at_bytes)

lemma accepts_segment: "tp_type_of (m_message_type m) = Some t \<Longrightarrow> accepts (segment_at m t d n i)"
  using tp_type_of_tp [of "m_message_type m" t "segment_at m t d n i"]
  by (simp add: accepts_def segment_at_bytes)

lemma holds_slices_new:
  assumes "holds_slices m t d n S b" and "0 < n" and "i * n < 2 ^ 24"
  shows "holds_slices m t d n (insert i S) (new_buffer now (segment_at m t d n i) b)"
    (is "holds_slices _ _ _ _ _ ?b'")
proof -
  have "buffer_of m t ?b'"
    using assms(1) by (auto simp: holds_slices_def buffer_of_def new_buffer_def store_segment_def
        init_buffer_def std_move_def Let_def om_empty_def)
  moreover have "unat (of_nat (i * n) :: u32) = i * n"
    by (rule unat_of_nat_u32) (use assms(3) in simp)
  ultimately show ?thesis
    using assms(1) unfolding holds_slices_def new_buffer_segments segment_at_offset [OF assms(3)]
    by (auto simp: om_ok_put om_get_put)
qed

text \<open>The state after the deliveries, at the key of the message.\<close>

lemma deliver_state:
  assumes "tp_type_of (m_message_type m) = Some t" and "0 < n" and "length d < 2 ^ 24"
    and "ra_ok r" and "om_get (ra_buffers r) (get_request_id m) = None"
    and "\<forall>(now, i) \<in> set xs. i < segment_count d n"
  shows "ra_ok (deliver m t d n xs r) \<and>
    holds_slices m t d n (snd ` set xs) (old_buffer m (deliver m t d n xs r)) \<and>
    (xs \<noteq> [] \<longrightarrow> om_get (ra_buffers (deliver m t d n xs r)) (get_request_id m) \<noteq> None)"
  using assms(6)
proof (induction xs rule: rev_induct)
  case Nil
  then show ?case using assms(4,5)
    by (simp add: deliver_def old_buffer_def holds_slices_def fresh_buffer_def om_empty_def
        om_get_def)
next
  case (snoc x xs)
  obtain now i where x: "x = (now, i)" by (cases x)
  let ?r = "deliver m t d n xs r" and ?s = "segment_at m t d n i"
  have IH: "ra_ok ?r" "holds_slices m t d n (snd ` set xs) (old_buffer m ?r)"
    using snoc by auto
  have i: "i * n < length d" using snoc.prems x assms(2) by (simp add: segment_count_iff)
  have acc: "accepts ?s" by (rule accepts_segment [OF assms(1)])
  have r': "deliver m t d n (xs @ [x]) r = snd (add_segment now (Some ?s) ?r)"
    by (simp add: deliver_def x)
  have ob: "old_buffer ?s ?r = old_buffer m ?r" by (simp add: old_buffer_def)
  have "om_get (ra_buffers (snd (add_segment now (Some ?s) ?r))) (get_request_id m) =
      Some (new_buffer now ?s (old_buffer m ?r))"
    using IH(1) by (simp add: add_segment_eq acc Let_def om_get_put ra_ok_def ob)
  moreover have "holds_slices m t d n (insert i (snd ` set xs))
      (new_buffer now ?s (old_buffer m ?r))"
    by (rule holds_slices_new) (use IH(2) assms(2,3) i in auto)
  ultimately show ?case
    using add_segment_ok [OF IH(1)] unfolding x r' [unfolded x]
    by (simp add: old_buffer_def [of _ "snd _"])
qed

text \<open>All slices, in the order of the map, and one more entry behind them.\<close>

definition slice_map :: "bytes \<Rightarrow> nat \<Rightarrow> nat \<Rightarrow> (u32, bytes) omap" where
  "slice_map d n k = map (\<lambda>i. (of_nat (i * n), slice_of d n (i * n))) [0..<k]"

lemma om_put_last:
  "(\<forall>a \<in> fst ` set m. a < k) \<Longrightarrow> om_put k v m = m @ [(k, v)]"
  by (induction k v m rule: om_put.induct) (auto simp: not_less less_imp_neq)

lemma of_nat_u32_less:
  "a < 2 ^ 32 \<Longrightarrow> b < 2 ^ 32 \<Longrightarrow> (of_nat a :: u32) < of_nat b \<longleftrightarrow> a < b"
  by (simp add: word_less_nat_alt)

lemma slice_map_ok:
  assumes "0 < n" and "length d < 2 ^ 24" and "k \<le> segment_count d n"
  shows "om_ok (slice_map d n k)"
proof -
  have "of_nat (i * n) < (of_nat (j * n) :: u32)" if "i < j" "j < k" for i j
  proof -
    have "i * n < j * n" using that assms(1) by simp
    moreover have "j * n < 2 ^ 24"
      using that assms segment_count_iff [OF assms(1), of j d] by simp
    moreover have j: "j * n < 2 ^ 32"
      using \<open>j * n < 2 ^ 24\<close> by (rule order.strict_trans) simp
    moreover have "i * n < 2 ^ 32"
      using \<open>i * n < j * n\<close> j by (rule order.strict_trans)
    ultimately show ?thesis using of_nat_u32_less [of "i * n" "j * n"] by (simp only:)
  qed
  then show ?thesis
    by (auto simp: om_ok_def slice_map_def comp_def sorted_wrt_iff_nth_less)
qed

lemma holds_all_slices:
  assumes "0 < n" and "length d < 2 ^ 24"
    and "holds_slices m t d n {..<segment_count d n} b"
  shows "rb_segments b = slice_map d n (segment_count d n)"
proof (rule om_ext)
  show "om_ok (rb_segments b)" using assms(3) by (simp add: holds_slices_def)
  show ok: "om_ok (slice_map d n (segment_count d n))" using assms slice_map_ok by blast
  have small: "unat (of_nat (i * n) :: u32) = i * n" if "i < segment_count d n" for i
    by (rule unat_of_nat_u32) (use that segment_count_iff [OF assms(1)] assms(2) in force)
  have "om_get (slice_map d n (segment_count d n)) off = Some v \<longleftrightarrow>
      om_get (rb_segments b) off = Some v" for off v
    unfolding om_get_set [OF ok] using assms(3) small
    by (auto simp: slice_map_def holds_slices_def simp del: of_nat_mult)
  then show "om_get (rb_segments b) = om_get (slice_map d n (segment_count d n))"
    by (intro ext) (metis option.exhaust)
qed

lemma contiguous_end_append:
  "contiguous_end e (m @ m') =
     (case contiguous_end e m of None \<Rightarrow> None | Some t \<Rightarrow> contiguous_end t m')"
  by (induction e m rule: contiguous_end.induct) auto

lemma slice_map_contiguous:
  assumes "0 < n" and "length d < 2 ^ 24" and "k \<le> segment_count d n"
  shows "contiguous_end 0 (slice_map d n k) = Some (min (k * n) (length d))"
  using assms(3)
proof (induction k)
  case (Suc k)
  then have k: "k * n < length d" using segment_count_iff [OF assms(1), of k d] by simp
  then have "unat (of_nat (k * n) :: u32) = k * n"
    by (intro unat_of_nat_u32) (use assms(2) in simp)
  moreover have "slice_map d n (Suc k) =
      slice_map d n k @ [(of_nat (k * n), slice_of d n (k * n))]"
    by (simp add: slice_map_def)
  ultimately show ?case
    using Suc k by (auto simp: contiguous_end_append slice_of_def)
qed (simp add: slice_map_def)

lemma slice_map_concat:
  "0 < n \<Longrightarrow> concat (map snd (slice_map d n (segment_count d n))) = d"
  using concat_slices [of d n "segment_count d n"]
    segment_count_iff [of n "segment_count d n" d]
  by (simp add: slice_map_def comp_def)

lemma om_get_iff_Nil: "(\<forall>k. om_get m k = None) \<longleftrightarrow> m = []"
  by (cases m) (auto simp: om_get_def split: prod.splits)

text \<open>An empty last segment at the end of the payload completes the buffer.\<close>

definition terminator_for :: "message \<Rightarrow> message_type \<Rightarrow> bytes \<Rightarrow> message" where
  "terminator_for m t d =
     set_payload (tp_bytes (TpHeader (of_nat (length d)) False)) (copy_header m t)"

lemma terminator_fields:
  assumes "tp_type_of (m_message_type m) = Some t" and "length d < 2 ^ 24"
  shows "accepts (terminator_for m t d)" and "seg_offset (terminator_for m t d) = of_nat (length d)"
    and "seg_last (terminator_for m t d)" and "drop 4 (payload_bytes (terminator_for m t d)) = []"
    and "get_request_id (terminator_for m t d) = get_request_id m"
proof -
  have pb: "payload_bytes (terminator_for m t d) =
      tp_bytes (TpHeader (of_nat (length d)) False) @ []"
    by (simp add: terminator_for_def payload_bytes_def set_payload_def payload_of_def)
  have mt: "m_message_type (terminator_for m t d) = t"
    by (simp add: terminator_for_def set_payload_def copy_header_def)
  show "accepts (terminator_for m t d)"
    using tp_type_of_tp [OF assms(1) mt] pb by (simp add: accepts_def)
  show "seg_offset (terminator_for m t d) = of_nat (length d)" "seg_last (terminator_for m t d)"
    using header_of_payload [OF pb] offset_24 [OF assms(2)]
    by (simp_all add: seg_offset_def seg_last_def TpHeader_def)
  show "drop 4 (payload_bytes (terminator_for m t d)) = []" using pb by simp
  show "get_request_id (terminator_for m t d) = get_request_id m"
    by (simp add: get_request_id_def terminator_for_def set_payload_def copy_header_def)
qed


lemma buffer_message_ids:
  "rb_client_id b = ucast (drop_bit 16 k) \<Longrightarrow> get_request_id (buffer_message k b) = k"
  unfolding get_request_id_def buffer_message_def set_payload_def
  by (simp add: join_u16_u32)

lemma buffer_message_bytes: "payload_bytes (buffer_message k b) = concat (map snd (rb_segments b))"
  by (simp add: payload_bytes_def buffer_message_def set_payload_def payload_of_def)

lemma original_tp_type: "tp_type_of t = Some t' \<Longrightarrow> original_type_of t' = t"
  by (cases t) auto

section \<open>Properties\<close>

text \<open> The buffers keep their invariant. Whatever segments arrive at whatever times,
  and however reassembly and cleanup are interleaved with them, every buffer holds at least
  one segment in ascending offset order, belongs to the client of its key, has a TP type,
  and its total size, once known, is the offset of a stored segment. \<close>
theorem reassembler_invariant:
  "ra_ok (ra_run es (TpReassembler timeout))"
  by (intro ra_run_ok ra_ok_empty)

text \<open> What a completed reassembly is. In every reachable state, a request id that
  \<open>is_complete\<close> reassembles to a message of that request id whose payload has exactly the
  announced total size and contains every stored segment at its offset; its buffer is
  gone afterwards, and the other buffers are untouched. An incomplete id gives a null
  message and changes nothing. \<close>
theorem reassemble_contents:
  assumes "r = ra_run es (TpReassembler timeout)" and "om_get (ra_buffers r) k = Some b"
  shows "if is_complete k r then
      \<exists>m r'. reassemble k r = (Some m, r') \<and> get_request_id m = k \<and>
        length (payload_bytes m) = rb_total_size b \<and>
        tp_type_of (m_message_type m) = Some (rb_message_type b) \<and>
        (\<forall>off d. om_get (rb_segments b) off = Some d \<longrightarrow>
           take (length d) (drop (unat off) (payload_bytes m)) = d) \<and>
        \<not> is_complete k r' \<and> om_get (ra_buffers r') = (om_get (ra_buffers r))(k := None)
    else reassemble k r = (None, r)"
proof (cases "is_complete k r")
  case True
  then have comp: "is_complete_unlocked k r" by (simp add: is_complete_def)
  have ok: "buffer_ok k b" and "ra_ok r"
    using ra_run_ok [OF ra_ok_empty, of es timeout] assms by (auto simp: ra_ok_def)
  have c: "contiguous_end 0 (rb_segments b) = Some (rb_total_size b)"
    using comp assms(2) by (auto elim: complete_cases)
  let ?m = "buffer_message k b" and ?r' = "r\<lparr>ra_buffers := om_del k (ra_buffers r)\<rparr>"
  have "reassemble k r = (Some ?m, ?r')"
    using comp assms(2) by (simp add: reassemble_def)
  moreover have "get_request_id ?m = k"
    by (rule buffer_message_ids) (use ok in \<open>simp add: buffer_ok_def\<close>)
  moreover have "tp_type_of (m_message_type ?m) = Some (rb_message_type b)"
    using ok by (simp add: buffer_message_def set_payload_def buffer_ok_def)
  moreover have "length (payload_bytes ?m) = rb_total_size b"
    using contiguous_concat(1) [OF c] by (simp add: buffer_message_bytes)
  moreover have "\<forall>off d. om_get (rb_segments b) off = Some d \<longrightarrow>
      take (length d) (drop (unat off) (payload_bytes ?m)) = d"
    using contiguous_concat(2) [OF c] ok
    by (simp add: buffer_message_bytes om_get_set buffer_ok_def)
  moreover have "\<not> is_complete k ?r'"
    by (simp add: is_complete_def is_complete_unlocked_def om_get_del)
  ultimately show ?thesis using True by (simp add: om_get_del)
next
  case False
  then show ?thesis using assms(2) by (simp add: reassemble_def is_complete_def)
qed

text \<open>A message cut into one data segment and an empty last one.\<close>

definition data_segment :: message where
  "data_segment = set_payload [0, 0, 0, 1, 7, 8] (copy_header big_message TP_REQUEST)"

definition end_segment :: message where
  "end_segment = set_payload [0, 0, 2, 0] (copy_header big_message TP_REQUEST)"

definition two_deliveries :: "ra_event list" where
  "two_deliveries = [Add_segment 0 (Some data_segment), Add_segment 1 (Some end_segment)]"

lemma two_deliveries_run:
  "ra_buffers (ra_run two_deliveries (TpReassembler 5000)) =
     [(0x00070000, \<lparr>rb_service_id = 0x1234, rb_instance_id = 1, rb_method_id = 0x0421,
        rb_client_id = 7, rb_interface_version = 1, rb_return_code = E_OK,
        rb_message_type = TP_REQUEST, rb_total_size = 2, rb_segments = [(0, [7, 8]), (2, [])],
        rb_first_segment_time = 0, rb_has_last_segment = True\<rparr>)]"
  by (simp add: two_deliveries_def ra_run_def data_segment_def end_segment_def add_segment_def
      set_payload_def copy_header_def big_message_def create_request_def new_message_def
      payload_of_def payload_size_def is_tp_message_def TpReassembler_def om_empty_def om_get_def
      get_request_id_def tp_of_value_def be32_def store_segment_def init_buffer_def
      fresh_buffer_def std_move_def Let_def SOMEIP_INTERFACE_VERSION_def)

theorem reassemble_contents_witness:
  "\<exists>m r'. reassemble 0x00070000 (ra_run two_deliveries (TpReassembler 5000)) = (Some m, r') \<and>
     length (payload_bytes m) = 2"
proof -
  let ?r = "ra_run two_deliveries (TpReassembler 5000)"
  obtain b where b: "om_get (ra_buffers ?r) 0x00070000 = Some b" and "rb_total_size b = 2"
    by (simp add: two_deliveries_run om_get_def)
  moreover have "is_complete 0x00070000 ?r"
    by (simp add: two_deliveries_run om_get_def is_complete_def is_complete_unlocked_def)
  ultimately show ?thesis using reassemble_contents [OF refl b] by auto
qed

text \<open> Segments that carry data never complete. From the empty reassembler, after any
  events in which every TP segment that arrives has at least one byte behind its TP header
  (as all segments of \<open>TpSegmenter::segment\<close> have), no request id is complete: every
  \<open>add_segment\<close> returns false and \<open>reassemble\<close> returns null. The size of the last segment
  is taken after the segment was moved away. \<close>
theorem data_segments_never_complete:
  assumes "\<forall>now msg. Add_segment now (Some msg) \<in> set es \<longrightarrow> 4 < length (payload_bytes msg)"
    and "4 < length (payload_bytes s)"
  shows "\<not> is_complete k (ra_run es (TpReassembler timeout)) \<and>
    fst (add_segment now (Some s) (ra_run es (TpReassembler timeout))) = False \<and>
    fst (reassemble k (ra_run es (TpReassembler timeout))) = None"
proof -
  let ?r = "ra_run es (TpReassembler timeout)"
  have nc: "\<not> is_complete_unlocked k (ra_run es' (TpReassembler timeout))"
    if "\<forall>now msg. Add_segment now (Some msg) \<in> set es' \<longrightarrow> 4 < length (payload_bytes msg)"
    for es' k
    by (intro no_empty_never_complete ra_run_ok ra_ok_empty segs_all_run segs_all_empty)
      (use that in \<open>simp add: not_le\<close>)
  have "\<not> is_complete_unlocked (get_request_id s)
      (ra_run (es @ [Add_segment now (Some s)]) (TpReassembler timeout))"
    by (rule nc) (use assms in auto)
  then have "fst (add_segment now (Some s) ?r) = False"
    by (auto simp: ra_run_def add_segment_eq Let_def)
  then show ?thesis
    using nc [OF assms(1)] by (simp add: is_complete_def reassemble_def split: option.split)
qed

theorem data_segments_never_complete_witness:
  "\<not> is_complete 0x00070000 (ra_run [Add_segment 0 (Some data_segment)] (TpReassembler 5000))"
  using data_segments_never_complete [of "[Add_segment 0 (Some data_segment)]" data_segment]
  by (simp add: data_segment_def set_payload_def payload_bytes_def payload_of_def)

text \<open>The buffer that holds all slices, after the empty last segment.\<close>

lemma terminated_segments:
  assumes "tp_type_of (m_message_type m) = Some t" and "0 < n" and "length d < 2 ^ 24"
    and "holds_slices m t d n {..<segment_count d n} b"
  shows "rb_segments (new_buffer now (terminator_for m t d) b) =
    slice_map d n (segment_count d n) @ [(of_nat (length d), [])]"
proof -
  have segs: "rb_segments b = slice_map d n (segment_count d n)"
    by (rule holds_all_slices [OF assms(2,3,4)])
  show ?thesis
    unfolding new_buffer_segments terminator_fields [OF assms(1,3)] segs
  proof (rule om_put_last, safe)
    fix a v assume "(a, v) \<in> set (slice_map d n (segment_count d n))"
    then obtain i where "i < segment_count d n" "a = of_nat (i * n)" by (auto simp: slice_map_def)
    then show "fst (a, v) < of_nat (length d)"
      using of_nat_u32_less [of "i * n" "length d"] assms(3)
      by (simp add: segment_count_iff [OF assms(2)] del: of_nat_mult)
  qed
qed

lemma terminated_complete:
  assumes "tp_type_of (m_message_type m) = Some t" and "0 < n" and "length d < 2 ^ 24"
    and "holds_slices m t d n {..<segment_count d n} b"
    and "b' = new_buffer now (terminator_for m t d) b"
  shows "contiguous_end 0 (rb_segments b') = Some (length d)" and "rb_has_last_segment b'"
    and "rb_total_size b' = length d"
proof -
  have un: "unat (of_nat (length d) :: u32) = length d"
    by (rule unat_of_nat_u32) (use assms(3) in simp)
  have "length d \<le> segment_count d n * n"
    using segment_count_iff [OF assms(2), of "segment_count d n" d] by simp
  then show "contiguous_end 0 (rb_segments b') = Some (length d)"
    using slice_map_contiguous [OF assms(2,3) order_refl] un
    by (simp add: assms(5) terminated_segments [OF assms(1-4)] contiguous_end_append min_def)
  show "rb_has_last_segment b'" "rb_total_size b' = length d"
    by (simp_all add: assms(5) new_buffer_last terminator_fields [OF assms(1,3)] un)
qed

text \<open> C11: reassembly does not depend on the order of arrival. Once every segment of a
  message below 16 MiB has been delivered, in any order and with any repetitions, to a
  reassembler without a buffer for the request, one more empty last segment at the end
  of the payload completes it, and \<open>reassemble\<close> returns the original message: its ids,
  type, code and payload. \<close>
theorem reassembly_any_order:
  assumes "m_payload m = Some p" and "tp_type_of (m_message_type m) = Some t"
    and "0 < n" and "p_data p \<noteq> []" and "length (p_data p) < 2 ^ 24"
    and "ra_ok r" and "om_get (ra_buffers r) (get_request_id m) = None"
    and "snd ` set xs = {..<segment_count (p_data p) n}"
  shows "\<exists>r' m'. add_segment now (Some (terminator_for m t (p_data p)))
        (deliver m t (p_data p) n xs r) = (True, r') \<and>
      fst (reassemble (get_request_id m) r') = Some m' \<and>
      payload_bytes m' = p_data p \<and> get_request_id m' = get_request_id m \<and>
      get_message_id m' = get_message_id m \<and> m_message_type m' = m_message_type m \<and>
      m_return_code m' = m_return_code m \<and> m_instance_id m' = m_instance_id m"
proof -
  let ?d = "p_data p" and ?k = "get_request_id m" and ?T = "terminator_for m t (p_data p)"
  let ?r = "deliver m t ?d n xs r" and ?c = "segment_count (p_data p) n"
  have d: "ra_ok ?r" "holds_slices m t ?d n {..<?c} (old_buffer m ?r)"
    using deliver_state [OF assms(2,3,5-7), of xs] assms(8) by force+
  let ?b = "old_buffer m ?r" and ?b' = "new_buffer now ?T (old_buffer m ?r)"
  have "0 < ?c" using assms(3,4) by (simp add: segment_count_iff)
  then have ne: "rb_segments ?b \<noteq> []"
    by (simp add: holds_all_slices [OF assms(3,5) d(2)] slice_map_def)
  note T = terminator_fields [OF assms(2,5)]
  have ob: "old_buffer ?T ?r = ?b" by (simp add: old_buffer_def T)
  let ?r' = "?r\<lparr>ra_buffers := om_put ?k ?b' (ra_buffers ?r)\<rparr>"
  have get: "om_get (ra_buffers ?r') ?k = Some ?b'"
    using d(1) by (simp add: om_get_put ra_ok_def)
  have comp: "is_complete_unlocked ?k ?r'"
    using get terminated_complete [OF assms(2,3,5) d(2) refl, of now]
    by (simp add: is_complete_unlocked_def)
  have add: "add_segment now (Some ?T) ?r = (True, ?r')"
    using comp by (simp add: add_segment_eq T ob Let_def)
  have re: "fst (reassemble ?k ?r') = Some (buffer_message ?k ?b')"
    using comp get by (simp add: reassemble_def)
  have "buffer_of m t ?b'"
    using d(2) ne by (simp add: holds_slices_def buffer_of_def new_buffer_def store_segment_def
        init_buffer_def std_move_def Let_def om_empty_def)
  then have hd: "rb_service_id ?b' = m_service_id m" "rb_method_id ?b' = m_method_id m"
    "rb_client_id ?b' = m_client_id m" "rb_instance_id ?b' = m_instance_id m"
    "rb_return_code ?b' = m_return_code m" "rb_message_type ?b' = t"
    by (simp_all add: buffer_of_def)
  have "get_request_id (buffer_message ?k ?b') = ?k"
    by (rule buffer_message_ids) (simp add: hd client_of_request_id)
  moreover have "payload_bytes (buffer_message ?k ?b') = ?d"
    using slice_map_concat [OF assms(3)]
    by (simp add: buffer_message_bytes terminated_segments [OF assms(2,3,5) d(2)])
  moreover have "m_message_type (buffer_message ?k ?b') = m_message_type m"
    using original_tp_type [OF assms(2)] by (simp add: buffer_message_def set_payload_def hd)
  ultimately show ?thesis
    using add re
    by (intro exI [of _ ?r'] exI [of _ "buffer_message ?k ?b'"])
      (simp add: get_message_id_def buffer_message_def set_payload_def hd)
qed

theorem reassembly_any_order_witness:
  "\<exists>r' m'. add_segment 9 (Some (terminator_for big_message TP_REQUEST [1, 2, 3, 4, 5]))
      (deliver big_message TP_REQUEST [1, 2, 3, 4, 5] 2 [(0, 2), (1, 0), (2, 2), (3, 1)]
         (TpReassembler 5000)) = (True, r') \<and>
      fst (reassemble (get_request_id big_message) r') = Some m' \<and>
      payload_bytes m' = [1, 2, 3, 4, 5]"
proof -
  let ?xs = "[(0 :: int, 2 :: nat), (1, 0), (2, 2), (3, 1)]" and ?p = "payload_of [1, 2, 3, 4, 5]"
  have p: "p_data ?p = [1, 2, 3, 4, 5]" by (simp add: payload_of_def)
  have 1: "m_payload big_message = Some ?p"
    and 2: "tp_type_of (m_message_type big_message) = Some TP_REQUEST"
    by (simp_all add: big_message_def create_request_def)
  have 3: "om_get (ra_buffers (TpReassembler 5000)) (get_request_id big_message) = None"
    by (simp add: TpReassembler_def om_empty_def om_get_def)
  have 4: "snd ` set ?xs = {..<segment_count (p_data ?p) 2}"
    by (auto simp: segment_count_def p)
  have 5: "p_data ?p \<noteq> []" "length (p_data ?p) < 2 ^ 24" by (simp_all add: p)
  show ?thesis
    using reassembly_any_order [OF 1 2 _ 5 ra_ok_empty 3 4, of 9] unfolding p by auto
qed

text \<open> Cleanup discards exactly the stale reassemblies. A buffer survives
  \<open>cleanup_expired\<close> unchanged if its first segment is at most the timeout old, in whole
  milliseconds, and is gone otherwise; nothing is added, and the number of pending
  reassemblies does not grow. \<close>
theorem cleanup_expired_exact:
  assumes "r = ra_run es (TpReassembler timeout)"
  shows "om_get (ra_buffers (cleanup_expired now r)) k =
      (case om_get (ra_buffers r) k of
         None \<Rightarrow> None
       | Some b \<Rightarrow> if timeout < to_milliseconds (now - rb_first_segment_time b) then None
                  else Some b) \<and>
    pending_count (cleanup_expired now r) \<le> pending_count r"
proof -
  have ok: "om_ok (ra_buffers r)"
    using ra_run_ok [OF ra_ok_empty, of es timeout] assms by (simp add: ra_ok_def)
  have "ra_timeout (ra_step e r) = ra_timeout r" for e r
    by (cases e) (auto simp: add_segment_def reassemble_def cleanup_expired_def Let_def
        split: option.splits)
  then have "ra_timeout (ra_run es r0) = ra_timeout r0" for r0
    unfolding ra_run_def by (induction es arbitrary: r0) auto
  then have to: "ra_timeout r = timeout" by (simp add: assms TpReassembler_def)
  show ?thesis
    by (cases "om_get (ra_buffers r) k")
      (simp_all add: pending_count_def cleanup_expired_def erase_expired_filter
        om_get_filter_eq [OF ok] expired_def to)
qed

theorem cleanup_expired_exact_witness:
  "om_get (ra_buffers (cleanup_expired 5001000000 (ra_run two_deliveries (TpReassembler 5000))))
     0x00070000 = None"
  using cleanup_expired_exact [OF refl, of 5001000000 two_deliveries 5000 "0x00070000"]
  by (simp add: two_deliveries_run om_get_def to_milliseconds_def duration_cast_def)

end
