(* ===== verification/SdEntry.thy ===== *)
theory SdEntry
  imports TpReassembler
begin

text \<open>
  \<open>sd/service_entry.h\<close> and \<open>sd/service_entry.cpp\<close>: the 16-byte service discovery entry with
  its factories and its codec, and the IPv4 options. \<open>inet_pton\<close> and \<open>inet_ntop\<close> are
  parameters: \<open>pton\<close> gives the four address bytes of a text or \<open>None\<close>, \<open>ntop\<close> the text.
  Members the two codecs share a name for get the prefix of their class.
\<close>

section \<open>Entries\<close>

datatype sd_entry_type =
    FIND_SERVICE
  | OFFER_SERVICE
  | SUBSCRIBE_EVENTGROUP
  | SUBSCRIBE_EVENTGROUP_ACK
  | SE_other u8

fun se_byte :: "sd_entry_type \<Rightarrow> u8" where
  "se_byte FIND_SERVICE = 0x00"
| "se_byte OFFER_SERVICE = 0x01"
| "se_byte SUBSCRIBE_EVENTGROUP = 0x06"
| "se_byte SUBSCRIBE_EVENTGROUP_ACK = 0x07"
| "se_byte (SE_other b) = b"

definition se_of_byte :: "u8 \<Rightarrow> sd_entry_type" where
  "se_of_byte b =
     (if b = 0x00 then FIND_SERVICE else if b = 0x01 then OFFER_SERVICE
      else if b = 0x06 then SUBSCRIBE_EVENTGROUP
      else if b = 0x07 then SUBSCRIBE_EVENTGROUP_ACK else SE_other b)"

definition se_ok :: "sd_entry_type \<Rightarrow> bool" where
  "se_ok t \<longleftrightarrow> se_of_byte (se_byte t) = t"

lemma se_byte_of_byte [simp]: "se_byte (se_of_byte b) = b"
  by (simp add: se_of_byte_def)

lemma se_ok_of_byte [simp]: "se_ok (se_of_byte b)"
  by (simp add: se_ok_def)

lemma se_ok_named [simp]:
  "se_ok FIND_SERVICE" "se_ok OFFER_SERVICE" "se_ok SUBSCRIBE_EVENTGROUP"
  "se_ok SUBSCRIBE_EVENTGROUP_ACK"
  by (simp_all add: se_ok_def se_of_byte_def)

definition ENTRY_SIZE :: nat where
  "ENTRY_SIZE = 16"

record service_entry =
  se_type :: sd_entry_type
  se_index_first_option :: u8
  se_index_second_option :: u8
  se_num_first_options :: u8
  se_num_second_options :: u8
  se_service_id :: u16
  se_instance_id :: u16
  se_major_version :: u8
  se_ttl :: u32
  se_minor_version :: u32
  se_counter :: u8

definition new_entry :: service_entry where
  "new_entry = \<lparr>se_type = FIND_SERVICE, se_index_first_option = 0, se_index_second_option = 0,
     se_num_first_options = 0, se_num_second_options = 0, se_service_id = 0,
     se_instance_id = 0, se_major_version = 0, se_ttl = 0, se_minor_version = 0,
     se_counter = 0\<rparr>"

definition create_find_service :: "u16 \<Rightarrow> u16 \<Rightarrow> service_entry" where
  "create_find_service service instance =
     new_entry\<lparr>se_type := FIND_SERVICE, se_service_id := service, se_instance_id := instance\<rparr>"

definition create_offer_service :: "u16 \<Rightarrow> u16 \<Rightarrow> u8 \<Rightarrow> u32 \<Rightarrow> u32 \<Rightarrow> service_entry" where
  "create_offer_service service instance major_version minor_version ttl =
     new_entry\<lparr>se_type := OFFER_SERVICE, se_service_id := service, se_instance_id := instance,
       se_major_version := major_version, se_minor_version := minor_version, se_ttl := ttl\<rparr>"

definition create_subscribe_eventgroup ::
    "u16 \<Rightarrow> u16 \<Rightarrow> u16 \<Rightarrow> u8 \<Rightarrow> u32 \<Rightarrow> service_entry" where
  "create_subscribe_eventgroup service instance eventgroup major_version ttl =
     new_entry\<lparr>se_type := SUBSCRIBE_EVENTGROUP, se_service_id := service,
       se_instance_id := instance,
       se_minor_version := push_bit 24 (ucast major_version) OR ucast eventgroup,
       se_major_version := major_version, se_ttl := ttl\<rparr>"

definition create_subscribe_eventgroup_ack ::
    "u16 \<Rightarrow> u16 \<Rightarrow> u16 \<Rightarrow> u8 \<Rightarrow> u32 \<Rightarrow> service_entry" where
  "create_subscribe_eventgroup_ack service instance eventgroup major_version ttl =
     new_entry\<lparr>se_type := SUBSCRIBE_EVENTGROUP_ACK, se_service_id := service,
       se_instance_id := instance,
       se_minor_version := push_bit 24 (ucast major_version) OR ucast eventgroup,
       se_major_version := major_version, se_ttl := ttl\<rparr>"

definition create_subscribe_eventgroup_nack :: "u16 \<Rightarrow> u16 \<Rightarrow> u16 \<Rightarrow> service_entry" where
  "create_subscribe_eventgroup_nack service instance eventgroup =
     new_entry\<lparr>se_type := SUBSCRIBE_EVENTGROUP_ACK, se_service_id := service,
       se_instance_id := instance, se_minor_version := ucast eventgroup, se_ttl := 0\<rparr>"

definition num_options :: "u8 \<Rightarrow> u8 \<Rightarrow> u8" where
  "num_options first second = (first AND 0x0F) OR push_bit 4 (second AND 0x0F)"

definition entry_serialize :: "service_entry \<Rightarrow> bytes" where
  "entry_serialize e =
     [se_byte (se_type e), se_index_first_option e, se_index_second_option e] @
     [num_options (se_num_first_options e) (se_num_second_options e)] @
     [ucast (drop_bit 8 (se_service_id e)), ucast (se_service_id e AND 0xFF),
      ucast (drop_bit 8 (se_instance_id e)), ucast (se_instance_id e AND 0xFF),
      se_major_version e,
      ucast (drop_bit 16 (se_ttl e)), ucast (drop_bit 8 (se_ttl e)), ucast (se_ttl e AND 0xFF),
      ucast (drop_bit 24 (se_minor_version e)), ucast (drop_bit 16 (se_minor_version e)),
      ucast (drop_bit 8 (se_minor_version e)), ucast (se_minor_version e AND 0xFF)]"

definition entry_deserialize :: "bytes \<Rightarrow> nat \<Rightarrow> fault + service_entry option" where
  "entry_deserialize data len =
     (if len < ENTRY_SIZE then Inr None
      else
        rbind (rd data 0) (\<lambda>type. rbind (rd data 1) (\<lambda>first. rbind (rd data 2) (\<lambda>second.
        rbind (rd data 3) (\<lambda>num.
        rbind (rd16 data 4) (\<lambda>service. rbind (rd16 data 6) (\<lambda>instance.
        rbind (rd data 8) (\<lambda>major.
        rbind (rd data 9) (\<lambda>t0. rbind (rd data 10) (\<lambda>t1. rbind (rd data 11) (\<lambda>t2.
        rbind (rd32 data 12) (\<lambda>minor.
          Inr (Some (new_entry\<lparr>se_type := se_of_byte type, se_index_first_option := first,
            se_index_second_option := second, se_num_first_options := num AND 0x0F,
            se_num_second_options := drop_bit 4 num AND 0x0F,
            se_service_id := service, se_instance_id := instance, se_major_version := major,
            se_ttl := be24 t0 t1 t2, se_minor_version := minor\<rparr>))))))))))))))"

definition get_eventgroup_id :: "service_entry \<Rightarrow> u16" where
  "get_eventgroup_id e = ucast (se_minor_version e AND 0xFFFF)"

definition set_eventgroup_id :: "u16 \<Rightarrow> service_entry \<Rightarrow> service_entry" where
  "set_eventgroup_id i e =
     e\<lparr>se_minor_version := (se_minor_version e AND 0xFFFF0000) OR ucast i\<rparr>"

definition is_eventgroup_entry :: "service_entry \<Rightarrow> bool" where
  "is_eventgroup_entry e \<longleftrightarrow>
     se_type e = SUBSCRIBE_EVENTGROUP \<or> se_type e = SUBSCRIBE_EVENTGROUP_ACK"

definition is_service_entry :: "service_entry \<Rightarrow> bool" where
  "is_service_entry e \<longleftrightarrow> se_type e = FIND_SERVICE \<or> se_type e = OFFER_SERVICE"

section \<open>The entry codec\<close>

text \<open>What of an entry travels: 24 bits of the TTL, nibbles of the option counts, no counter.\<close>

definition entry_view :: "service_entry \<Rightarrow> service_entry" where
  "entry_view e = e\<lparr>se_ttl := take_bit 24 (se_ttl e),
     se_num_first_options := se_num_first_options e AND 0x0F,
     se_num_second_options := se_num_second_options e AND 0x0F, se_counter := 0\<rparr>"

definition entry_of_bytes :: "bytes \<Rightarrow> service_entry" where
  "entry_of_bytes d = new_entry\<lparr>se_type := se_of_byte (d ! 0), se_index_first_option := d ! 1,
     se_index_second_option := d ! 2, se_num_first_options := d ! 3 AND 0x0F,
     se_num_second_options := drop_bit 4 (d ! 3) AND 0x0F,
     se_service_id := be16 (d ! 4) (d ! 5), se_instance_id := be16 (d ! 6) (d ! 7),
     se_major_version := d ! 8, se_ttl := be24 (d ! 9) (d ! 10) (d ! 11),
     se_minor_version := be32 (d ! 12) (d ! 13) (d ! 14) (d ! 15)\<rparr>"

lemma length_entry_serialize [simp]: "length (entry_serialize e) = 16"
  by (simp add: entry_serialize_def)

lemma entry_deserialize_eq:
  assumes "16 \<le> len" and "16 \<le> length d"
  shows "entry_deserialize d len = Inr (Some (entry_of_bytes d))"
proof -
  have "d \<noteq> []" using assms(2) by auto
  then show ?thesis
    using assms by (simp add: entry_deserialize_def ENTRY_SIZE_def rd_simps entry_of_bytes_def)
qed

lemma nibble_mask: "(0x0F :: 'a::len word) = mask 4"
  by (simp add: mask_eq_exp_minus_1)

lemma nibbles:
  fixes a b :: u8
  shows "num_options a b AND 0x0F = a AND 0x0F"
    and "drop_bit 4 (num_options a b) AND 0x0F = b AND 0x0F"
    and "num_options (a AND 0x0F) (drop_bit 4 a AND 0x0F) = a"
  unfolding num_options_def nibble_mask by (rule bit_word_eqI, auto simp: bit_simps)+

lemma entry_of_bytes_serialize:
  assumes "se_ok (se_type e)"
  shows "entry_of_bytes (entry_serialize e @ rest) = entry_view e"
  using assms unfolding entry_of_bytes_def entry_serialize_def
  by (cases e) (simp add: nibbles be16_split be24_split be32_split se_ok_def new_entry_def
      entry_view_def)

lemma entry_serialize_of_bytes:
  assumes "length d = 16"
  shows "entry_serialize (entry_of_bytes d) = d"
proof -
  have ttl: "bytes24 (be24 a b c) = [a, b, c]" for a b c
    unfolding be24_def bytes24_def mask_byte
    by (auto intro!: bit_word_eqI simp: bit_simps u8_no_high_bit)
  have "entry_serialize e = [se_byte (se_type e), se_index_first_option e,
      se_index_second_option e, num_options (se_num_first_options e) (se_num_second_options e)] @
      bytes16 (se_service_id e) @
      bytes16 (se_instance_id e) @ [se_major_version e] @ bytes24 (se_ttl e) @
      bytes32 (se_minor_version e)" for e
    by (simp add: entry_serialize_def bytes16_def bytes24_def bytes32_def)
  then have "entry_serialize (entry_of_bytes d) = [d ! 0, d ! 1, d ! 2, d ! 3, d ! 4, d ! 5,
      d ! 6, d ! 7, d ! 8, d ! 9, d ! 10, d ! 11, d ! 12, d ! 13, d ! 14, d ! 15]"
    by (simp add: entry_of_bytes_def nibbles ttl bytes16_be16 bytes32_be32)
  also have "\<dots> = map (\<lambda>i. d ! i) [0..<16]"
    by (simp add: upt_conv_Cons numeral_eq_Suc)
  finally have "entry_serialize (entry_of_bytes d) = map (\<lambda>i. d ! i) [0..<16]" .
  then show ?thesis using map_nth [of d] assms by simp
qed

interpretation entry_codec:
  fixed_codec entry_serialize entry_deserialize entry_view "\<lambda>e. se_ok (se_type e)" 16
  by unfold_locales (auto simp: entry_deserialize_eq entry_of_bytes_serialize)

lemma mask_high_half: "(0xFFFF0000 :: u32) = push_bit 16 (mask 16)"
  by (simp add: mask_eq_exp_minus_1)

lemma eventgroup_of_minor:
  "ucast ((push_bit 24 (ucast (v :: u8)) OR ucast (g :: u16) :: u32) AND 0xFFFF) = g"
  "ucast (((w AND 0xFFFF0000) OR ucast (g :: u16) :: u32) AND 0xFFFF) = g"
  "ucast ((ucast (g :: u16) :: u32) AND 0xFFFF) = g"
  unfolding mask_half mask_high_half
  by (rule bit_word_eqI, auto simp: bit_simps u16_no_high_bit)+

section \<open>Options\<close>

datatype sd_option =
    IPv4EndpointOption (opt_address: bytes) (opt_port: u16) (opt_protocol: ip_protocol)
  | IPv4MulticastOption (opt_address: bytes) (opt_port: u16) (opt_reserved: u8)

definition IPv4_ENDPOINT :: u8 where
  "IPv4_ENDPOINT = 0x04"

definition IPv4_MULTICAST :: u8 where
  "IPv4_MULTICAST = 0x14"

definition OPTION_SIZE :: nat where
  "OPTION_SIZE = 12"

definition pton_or :: "(string \<Rightarrow> bytes option) \<Rightarrow> string \<Rightarrow> bytes \<Rightarrow> bytes" where
  "pton_or pton address old = (case pton address of None \<Rightarrow> old | Some a \<Rightarrow> a)"

definition new_endpoint_option ::
    "(string \<Rightarrow> bytes option) \<Rightarrow> string \<Rightarrow> u16 \<Rightarrow> ip_protocol \<Rightarrow> sd_option" where
  "new_endpoint_option pton address port protocol =
     IPv4EndpointOption (pton_or pton address [0, 0, 0, 0]) port protocol"

definition new_multicast_option :: "(string \<Rightarrow> bytes option) \<Rightarrow> string \<Rightarrow> u16 \<Rightarrow> sd_option" where
  "new_multicast_option pton address port =
     IPv4MulticastOption (pton_or pton address [0, 0, 0, 0]) port 0"

fun set_address :: "(string \<Rightarrow> bytes option) \<Rightarrow> string \<Rightarrow> sd_option \<Rightarrow> sd_option" where
  "set_address pton address (IPv4EndpointOption a p t) =
     IPv4EndpointOption (pton_or pton address a) p t"
| "set_address pton address (IPv4MulticastOption a p r) =
     IPv4MulticastOption (pton_or pton address a) p r"

fun set_port :: "u16 \<Rightarrow> sd_option \<Rightarrow> sd_option" where
  "set_port port (IPv4EndpointOption a p t) = IPv4EndpointOption a port t"
| "set_port port (IPv4MulticastOption a p r) = IPv4MulticastOption a port r"

text \<open>A member of \<open>IPv4EndpointOption\<close> only.\<close>

fun set_protocol :: "ip_protocol \<Rightarrow> sd_option \<Rightarrow> sd_option" where
  "set_protocol protocol (IPv4EndpointOption a p t) = IPv4EndpointOption a p protocol"
| "set_protocol protocol (IPv4MulticastOption a p r) = IPv4MulticastOption a p r"

definition get_address :: "(bytes \<Rightarrow> string) \<Rightarrow> sd_option \<Rightarrow> string" where
  "get_address ntop opt = ntop (opt_address opt)"

fun option_serialize :: "sd_option \<Rightarrow> bytes" where
  "option_serialize (IPv4EndpointOption address port protocol) =
     [0x00, 0x09] @ [IPv4_ENDPOINT] @ [0x00] @ address @ [0x00] @ [ip_byte protocol] @
     [ucast (drop_bit 8 port), ucast (port AND 0xFF)]"
| "option_serialize (IPv4MulticastOption address port reserved) =
     [0x00, 0x09] @ [IPv4_MULTICAST] @ [0x00] @ address @ [0x00] @ [0x00] @
     [ucast (drop_bit 8 port), ucast (port AND 0xFF)]"

definition option_deserialize ::
    "(string \<Rightarrow> bytes option) \<Rightarrow> (bytes \<Rightarrow> string) \<Rightarrow> bytes \<Rightarrow> nat \<Rightarrow> fault + sd_option option"
where
  "option_deserialize pton ntop data len =
     (if len < 4 then Inr None
      else rbind (rd16 data 0) (\<lambda>option_length.
        let expected_total_size = 2 + unat option_length in
        if len < expected_total_size then Inr None
        else rbind (rd data 2) (\<lambda>type.
          if type = IPv4_ENDPOINT then
            if option_length \<noteq> 9 then Inr None
            else rbind (rd_slice data 4 4) (\<lambda>addr. rbind (rd data 9) (\<lambda>protocol.
              rbind (rd16 data 10) (\<lambda>port.
                Inr (Some (set_port port (set_protocol (ip_of_byte protocol)
                  (set_address pton (ntop addr) (IPv4EndpointOption [0, 0, 0, 0] 0 UDP))))))))
          else if type = IPv4_MULTICAST then
            if option_length \<noteq> 9 then Inr None
            else rbind (rd_slice data 4 4) (\<lambda>addr. rbind (rd16 data 10) (\<lambda>port.
                Inr (Some (set_port port
                  (set_address pton (ntop addr) (IPv4MulticastOption [0, 0, 0, 0] 0 0))))))

          else Inr None)))"

text \<open>What an option carries over: all but the reserved byte of a multicast option.\<close>

fun option_view :: "sd_option \<Rightarrow> sd_option" where
  "option_view (IPv4MulticastOption a p r) = IPv4MulticastOption a p 0"
| "option_view opt = opt"

fun option_ok :: "sd_option \<Rightarrow> bool" where
  "option_ok (IPv4EndpointOption a p t) \<longleftrightarrow> length a = 4 \<and> ip_ok t"
| "option_ok (IPv4MulticastOption a p r) \<longleftrightarrow> length a = 4"

lemma length_option_serialize: "option_ok opt \<Longrightarrow> length (option_serialize opt) = 12"
  by (cases opt) auto

lemma length_4_cases:
  assumes "length a = 4"
  obtains w x y z where "a = [w, x, y, z]"
  using assms by (auto simp: numeral_eq_Suc length_Suc_conv)

section \<open>Properties\<close>

text \<open> Service discovery entries round-trip. An entry of any type is decoded from its 16
  bytes, whatever follows them, to itself up to the bits the format has no room for (24
  bits of TTL, four bits of each option count, no counter); conversely the decoder accepts
  any 16 bytes and encoding what it returns gives the same bytes back. \<close>
theorem entry_roundtrip:
  assumes "se_ok (se_type e)" and "16 \<le> len" and "length d = 16"
  shows "entry_deserialize (entry_serialize e @ rest) len = Inr (Some (entry_view e)) \<and>
    (\<exists>e'. entry_deserialize d 16 = Inr (Some e') \<and> entry_serialize e' = d)"
proof -
  have "entry_deserialize d 16 = Inr (Some (entry_of_bytes d))"
    by (rule entry_deserialize_eq) (use assms(3) in auto)
  then show ?thesis
    using assms entry_codec.dec_enc [of e len rest] entry_serialize_of_bytes [of d] by simp
qed

theorem entry_roundtrip_witness:
  "entry_deserialize (entry_serialize (create_offer_service 0x1234 1 1 0 3600) @ [5]) 17 =
     Inr (Some (entry_view (create_offer_service 0x1234 1 1 0 3600)))"
  using entry_roundtrip
    [of "create_offer_service 0x1234 1 1 0 3600" 17 "replicate 16 0" "[5]"]
  by (simp add: create_offer_service_def)

text \<open> An eventgroup entry names its eventgroup and version. The subscribe, acknowledge and
  negative acknowledge entries the factories make are eventgroup entries whose eventgroup
  id, read back after the trip over the wire, is the one given; setting an eventgroup id
  and reading it gives it back, and a negative acknowledge is an acknowledge of TTL 0. \<close>
theorem eventgroup_entries:
  "get_eventgroup_id (entry_view (create_subscribe_eventgroup s i g v t)) = g \<and>
   get_eventgroup_id (entry_view (create_subscribe_eventgroup_ack s i g v t)) = g \<and>
   get_eventgroup_id (entry_view (create_subscribe_eventgroup_nack s i g)) = g \<and>
   get_eventgroup_id (set_eventgroup_id g e) = g \<and>
   is_eventgroup_entry (create_subscribe_eventgroup s i g v t) \<and>
   is_eventgroup_entry (create_subscribe_eventgroup_ack s i g v t) \<and>
   se_type (create_subscribe_eventgroup_nack s i g) = SUBSCRIBE_EVENTGROUP_ACK \<and>
   se_ttl (create_subscribe_eventgroup_nack s i g) = 0 \<and>
   is_service_entry (create_find_service s i) \<and>
   is_service_entry (create_offer_service s i v m t)"
  by (simp add: get_eventgroup_id_def entry_view_def create_subscribe_eventgroup_def
      create_subscribe_eventgroup_ack_def create_subscribe_eventgroup_nack_def
      set_eventgroup_id_def eventgroup_of_minor is_eventgroup_entry_def is_service_entry_def
      create_find_service_def create_offer_service_def new_entry_def)

text \<open>Decoding an encoded option, for the option loop of incoming messages.\<close>

lemma option_decode:
  assumes "\<And>a. length a = 4 \<Longrightarrow> pton (ntop a) = Some a"
    and "option_ok opt" and "12 \<le> len"
  shows "option_deserialize pton ntop (option_serialize opt @ rest) len =
    Inr (Some (option_view opt))"
proof (cases opt)
  case (IPv4EndpointOption a p t)
  then have "length a = 4" using assms(2) by simp
  then obtain w x y z where a: "a = [w, x, y, z]" by (rule length_4_cases)
  have t: "ip_of_byte (ip_byte t) = t"
    using assms(2) IPv4EndpointOption by (simp add: ip_ok_def)
  show ?thesis
    using assms(3) assms(1) [of a]
    by (simp add: IPv4EndpointOption a option_deserialize_def rd_simps rd16_def be16_def
        rd_slice_def IPv4_ENDPOINT_def pton_or_def t Let_def
        be16_split [unfolded be16_def])
next
  case (IPv4MulticastOption a p r)
  then have "length a = 4" using assms(2) by simp
  then obtain w x y z where a: "a = [w, x, y, z]" by (rule length_4_cases)
  show ?thesis
    using assms(3) assms(1) [of a]
    by (simp add: IPv4MulticastOption a option_deserialize_def rd_simps rd16_def be16_def
        rd_slice_def IPv4_MULTICAST_def IPv4_ENDPOINT_def pton_or_def Let_def
        be16_split [unfolded be16_def])
qed

text \<open> IPv4 options round-trip through their twelve bytes. With \<open>inet_pton\<close> reading back
  what \<open>inet_ntop\<close> wrote, as POSIX documents, a serialized endpoint or multicast option
  followed by any bytes is decoded to itself: address, port and protocol. \<close>
theorem option_roundtrip:
  assumes "\<And>a. length a = 4 \<Longrightarrow> pton (ntop a) = Some a"
    and "option_ok opt" and "12 \<le> len"
  shows "option_deserialize pton ntop (option_serialize opt @ rest) len =
    Inr (Some (option_view opt))"
  by (rule option_decode [OF assms])

text \<open>Any injective rendering of four bytes can stand for \<open>inet_ntop\<close>.\<close>

definition raw_ntop :: "bytes \<Rightarrow> string" where
  "raw_ntop a = map (\<lambda>b. char_of (unat b)) a"

definition raw_pton :: "string \<Rightarrow> bytes option" where
  "raw_pton s = (if length s = 4 then Some (map (\<lambda>c. of_nat (of_char c)) s) else None)"

lemma raw_pton_ntop: "length a = 4 \<Longrightarrow> raw_pton (raw_ntop a) = Some a"
proof -
  have "of_nat (of_char (char_of (unat b) :: char)) = (b :: u8)" for b
    using unsigned_less [where 'a = nat and w = b] by simp
  then show "length a = 4 \<Longrightarrow> raw_pton (raw_ntop a) = Some a"
    by (simp add: raw_pton_def raw_ntop_def comp_def)
qed

theorem option_roundtrip_witness:
  "option_deserialize raw_pton raw_ntop
     (option_serialize (IPv4EndpointOption [192, 168, 0, 1] 30509 TCP) @ [7]) 13 =
     Inr (Some (IPv4EndpointOption [192, 168, 0, 1] 30509 TCP))"
  using option_roundtrip [OF raw_pton_ntop, of "IPv4EndpointOption [192, 168, 0, 1] 30509 TCP" 13 "[7]"]
  by simp

text \<open>The option decoder on a buffer of at least the length it is told.\<close>

lemma option_fault_iff:
  assumes "len \<le> length data"
  shows "option_deserialize pton ntop data len = Inl f \<longleftrightarrow>
     f = Out_of_bounds \<and> len = 11 \<and> length data = 11 \<and> be16 (data ! 0) (data ! 1) = 9 \<and>
     (data ! 2 = IPv4_ENDPOINT \<or> data ! 2 = IPv4_MULTICAST)"
proof (cases "4 \<le> len")
  case False
  then show ?thesis by (auto simp: option_deserialize_def)
next
  case True
  let ?l = "be16 (data ! 0) (data ! 1)"
  have 4: "4 \<le> length data" using True assms by simp
  show ?thesis
  proof (cases "len < 2 + unat ?l \<or> ?l \<noteq> 9")
    case outer: True
    have "len < 2 + unat ?l \<Longrightarrow> ?l = 9 \<Longrightarrow> len \<noteq> 11" by auto
    with True 4 outer show ?thesis
      by (auto simp: option_deserialize_def rd_simps Let_def)
  next
    case inner: False
    then have 11: "11 \<le> len" by auto
    show ?thesis
    proof (cases "length data = 11")
      case True
      with inner assms 11 show ?thesis
        by (auto simp: option_deserialize_def rd_simps rd16_def rd_oob rd_def Let_def)
    next
      case False
      with 11 inner assms show ?thesis
        by (auto simp: option_deserialize_def rd_simps Let_def)
    qed
  qed
qed

text \<open> The one read past the end in the option decoder. Given a length that does not
  exceed the buffer, \<open>SdOption::deserialize\<close> never faults unless exactly 11 bytes are left,
  the option is an IPv4 endpoint or multicast option and its length field says 9: the
  check admits 2 + 9 bytes, and the port is then read from bytes 10 and 11. \<close>
theorem option_deserialize_fault:
  assumes "len \<le> length data"
  shows "option_deserialize pton ntop data len = Inl f \<longleftrightarrow>
     f = Out_of_bounds \<and> len = 11 \<and> length data = 11 \<and> be16 (data ! 0) (data ! 1) = 9 \<and>
     (data ! 2 = IPv4_ENDPOINT \<or> data ! 2 = IPv4_MULTICAST)"
  by (rule option_fault_iff [OF assms])

theorem option_deserialize_fault_witness:
  "option_deserialize raw_pton raw_ntop [0, 9, 4, 0, 127, 0, 0, 1, 0, 6, 0] 11 = Inl Out_of_bounds"
  using option_deserialize_fault [of 11 "[0, 9, 4, 0, 127, 0, 0, 1, 0, 6, 0]" raw_pton raw_ntop
    Out_of_bounds]
  by (simp add: IPv4_ENDPOINT_def be16_def)

end
