(* ===== verification/ServiceDiscovery.thy ===== *)
theory ServiceDiscovery
  imports SdEntry
begin

text \<open>
  \<open>sd/service_discovery.h\<close> and the operations of \<open>sd/service_discovery.cpp\<close> up to the
  incoming messages, which are in \<open>SdProcess\<close>: the registries of local and discovered
  services, of eventgroups, of pending subscriptions and of find requests; offering, finding
  and subscribing; the five senders; and the periodic work. \<open>steady_clock::now()\<close> is an
  argument. Callbacks are called in the order the code calls them: an operation returns the
  list of its calls as \<open>sd_action\<close>s. The availability and the send callback are tokens, the
  subscription handler, whose answer the code uses, is a function. The random delay of an
  offer has no effect on the state and is left out, as are the mutexes.
\<close>

section \<open>State\<close>

record service_info =
  si_service_id :: u16
  si_instance_id :: u16
  si_major_version :: u8
  si_minor_version :: u32
  si_ttl :: u32
  si_last_update :: time_point
  si_endpoints :: "endpoint list"
  si_is_offered :: bool
  si_is_local :: bool

record eventgroup_info =
  eg_service_id :: u16
  eg_instance_id :: u16
  eg_eventgroup_id :: u16
  eg_major_version :: u8
  eg_endpoints :: "endpoint list"
  eg_subscribers :: "endpoint list"

record pending_subscription =
  ps_service_id :: u16
  ps_instance_id :: u16
  ps_eventgroup_id :: u16
  ps_timestamp :: time_point
  ps_retry_count :: u8

record sd_config =
  cf_multicast_address :: string
  cf_port :: u16
  cf_initial_delay_min :: int
  cf_initial_delay_max :: int
  cf_repetition_base_delay :: int
  cf_repetition_max :: u8
  cf_cyclic_offer_delay :: int
  cf_offer_cancellation_delay :: int
  cf_ttl_factor_offers :: int
  cf_ttl_factor_subscriptions :: int
  cf_find_cancellation_delay :: int

definition default_config :: sd_config where
  "default_config = \<lparr>cf_multicast_address = ''224.244.224.245'', cf_port = SOMEIP_SD_PORT,
     cf_initial_delay_min = 50, cf_initial_delay_max = 150, cf_repetition_base_delay = 30,
     cf_repetition_max = 3, cf_cyclic_offer_delay = 2000, cf_offer_cancellation_delay = 5000,
     cf_ttl_factor_offers = 10, cf_ttl_factor_subscriptions = 10,
     cf_find_cancellation_delay = 5000\<rparr>"

type_synonym service_key = "u16 \<times> u16"
type_synonym eventgroup_key = "u16 \<times> u16 \<times> u16"

record service_discovery =
  sd_config :: sd_config
  sd_local_address :: string
  sd_local_udp_port :: u16
  sd_local_tcp_port :: "u16 option"
  sd_local_services :: "(service_key, service_info) omap"
  sd_discovered_services :: "(service_key, service_info) omap"
  sd_eventgroups :: "(eventgroup_key, eventgroup_info) omap"
  sd_pending_subscriptions :: "pending_subscription list"
  sd_find_requests :: "(service_key, time_point) omap"
  sd_availability_handler :: "handler option"
  sd_subscription_handler :: "(subscription_info \<Rightarrow> bool) option"
  sd_send_message_callback :: "handler option"
  sd_running :: bool

datatype sd_action =
    Send_message handler message string u16
  | Service_available handler u16 u16 bool

definition ServiceDiscovery :: "sd_config \<Rightarrow> service_discovery" where
  "ServiceDiscovery config = \<lparr>sd_config = config, sd_local_address = '''', sd_local_udp_port = 0,
     sd_local_tcp_port = None, sd_local_services = om_empty, sd_discovered_services = om_empty,
     sd_eventgroups = om_empty, sd_pending_subscriptions = [], sd_find_requests = om_empty,
     sd_availability_handler = None, sd_subscription_handler = None,
     sd_send_message_callback = None, sd_running = False\<rparr>"

definition sd_init :: "string \<Rightarrow> u16 \<Rightarrow> u16 option \<Rightarrow> service_discovery \<Rightarrow> service_discovery" where
  "sd_init local_address udp_port tcp_port st = st\<lparr>sd_local_address := local_address,
     sd_local_udp_port := udp_port, sd_local_tcp_port := tcp_port\<rparr>"

text \<open>\<open>start\<close> says whether it made a worker thread, \<open>stop\<close> ends it.\<close>

definition sd_start :: "service_discovery \<Rightarrow> bool \<times> service_discovery" where
  "sd_start st = (if sd_running st then (False, st) else (True, st\<lparr>sd_running := True\<rparr>))"

definition sd_stop :: "service_discovery \<Rightarrow> service_discovery" where
  "sd_stop st = st\<lparr>sd_running := False\<rparr>"

definition set_service_available_handler ::
    "handler option \<Rightarrow> service_discovery \<Rightarrow> service_discovery" where
  "set_service_available_handler h st = st\<lparr>sd_availability_handler := h\<rparr>"

definition set_subscription_handler ::
    "(subscription_info \<Rightarrow> bool) option \<Rightarrow> service_discovery \<Rightarrow> service_discovery" where
  "set_subscription_handler h st = st\<lparr>sd_subscription_handler := h\<rparr>"

definition set_send_message_callback ::
    "handler option \<Rightarrow> service_discovery \<Rightarrow> service_discovery" where
  "set_send_message_callback h st = st\<lparr>sd_send_message_callback := h\<rparr>"

section \<open>Senders\<close>

text \<open>The notification every sender builds around one entry, and the call of the callback.\<close>

definition sd_notification :: "u16 \<Rightarrow> service_entry \<Rightarrow> message" where
  "sd_notification method entry =
     (set_payload (entry_serialize entry)
        (create_notification SOMEIP_SD_SERVICE_ID SOMEIP_SD_INSTANCE_ID method))
     \<lparr>m_interface_version := 1, m_return_code := E_OK\<rparr>"

definition sd_send :: "service_discovery \<Rightarrow> u16 \<Rightarrow> service_entry \<Rightarrow> sd_action list" where
  "sd_send st method entry =
     (case sd_send_message_callback st of
        None \<Rightarrow> []
      | Some callback \<Rightarrow> [Send_message callback (sd_notification method entry)
          (cf_multicast_address (sd_config st)) (cf_port (sd_config st))])"

definition send_find_service :: "service_discovery \<Rightarrow> u16 \<Rightarrow> u16 \<Rightarrow> sd_action list" where
  "send_find_service st service instance =
     sd_send st SOMEIP_SD_METHOD_FIND_SERVICE (create_find_service service instance)"

definition send_offer_service :: "service_discovery \<Rightarrow> service_info \<Rightarrow> sd_action list" where
  "send_offer_service st info =
     sd_send st SOMEIP_SD_METHOD_OFFER_SERVICE
       (create_offer_service (si_service_id info) (si_instance_id info) (si_major_version info)
          (si_minor_version info) (si_ttl info))"

text \<open>\<open>count() / 1000\<close> truncates towards zero, as \<open>duration_cast\<close> does.\<close>

definition subscription_ttl :: "sd_config \<Rightarrow> u32" where
  "subscription_ttl config = of_int (duration_cast 1000 (cf_ttl_factor_subscriptions config))"

definition send_subscribe_eventgroup ::
    "service_discovery \<Rightarrow> pending_subscription \<Rightarrow> sd_action list" where
  "send_subscribe_eventgroup st sub =
     (let major_version =
            (case om_get (sd_eventgroups st)
                    (ps_service_id sub, ps_instance_id sub, ps_eventgroup_id sub) of
               None \<Rightarrow> 0xFF
             | Some eg \<Rightarrow> eg_major_version eg)
      in sd_send st SOMEIP_SD_METHOD_SUBSCRIBE_EVENTGROUP
           (create_subscribe_eventgroup (ps_service_id sub) (ps_instance_id sub)
              (ps_eventgroup_id sub) major_version (subscription_ttl (sd_config st))))"

definition send_subscribe_eventgroup_ack ::
    "service_discovery \<Rightarrow> service_info \<Rightarrow> u16 \<Rightarrow> sd_action list" where
  "send_subscribe_eventgroup_ack st service eventgroup =
     sd_send st SOMEIP_SD_METHOD_SUBSCRIBE_EVENTGROUP_ACK
       (create_subscribe_eventgroup_ack (si_service_id service) (si_instance_id service)
          eventgroup (si_major_version service) (si_ttl service))"

definition send_subscribe_eventgroup_nack ::
    "service_discovery \<Rightarrow> service_info \<Rightarrow> u16 \<Rightarrow> sd_action list" where
  "send_subscribe_eventgroup_nack st service eventgroup =
     sd_send st SOMEIP_SD_METHOD_SUBSCRIBE_EVENTGROUP_NACK
       (create_subscribe_eventgroup_nack (si_service_id service) (si_instance_id service)
          eventgroup)"

section \<open>Offering and finding\<close>

definition offered_info :: "time_point \<Rightarrow> service_config \<Rightarrow> service_discovery \<Rightarrow> service_info" where
  "offered_info now config st = \<lparr>si_service_id = sc_service_id config,
     si_instance_id = sc_instance_id config, si_major_version = sc_major_version config,
     si_minor_version = sc_minor_version config, si_ttl = of_int (sc_ttl config),
     si_last_update = now,
     si_endpoints =
       (if sc_unreliable config then
          [\<lparr>ep_address = sd_local_address st, ep_port = sc_unreliable_port config,
             ep_protocol = UDP\<rparr>] else []) @
       (if sc_reliable config \<and> sd_local_tcp_port st \<noteq> None then
          [\<lparr>ep_address = sd_local_address st, ep_port = sc_reliable_port config,
             ep_protocol = TCP\<rparr>] else []),
     si_is_offered = True, si_is_local = True\<rparr>"

definition offer_service ::
    "time_point \<Rightarrow> service_config \<Rightarrow> service_discovery \<Rightarrow> service_discovery \<times> sd_action list" where
  "offer_service now config st =
     (let info = offered_info now config st;
          st' = st\<lparr>sd_local_services :=
            om_put (sc_service_id config, sc_instance_id config) info (sd_local_services st)\<rparr>
      in (st', send_offer_service st' info))"

definition stop_offer_service ::
    "u16 \<Rightarrow> u16 \<Rightarrow> service_discovery \<Rightarrow> service_discovery \<times> sd_action list" where
  "stop_offer_service service instance st =
     (case om_get (sd_local_services st) (service, instance) of
        None \<Rightarrow> (st, [])
      | Some info \<Rightarrow>
          (st\<lparr>sd_local_services := om_del (service, instance) (sd_local_services st)\<rparr>,
           send_offer_service st (info\<lparr>si_is_offered := False, si_ttl := 0\<rparr>)))"

definition find_service ::
    "time_point \<Rightarrow> u16 \<Rightarrow> u16 \<Rightarrow> service_discovery \<Rightarrow> service_discovery \<times> sd_action list" where
  "find_service now service instance st =
     (st\<lparr>sd_find_requests := om_put (service, instance) now (sd_find_requests st)\<rparr>,
      send_find_service st service instance)"

definition stop_find_service :: "u16 \<Rightarrow> u16 \<Rightarrow> service_discovery \<Rightarrow> service_discovery" where
  "stop_find_service service instance st =
     st\<lparr>sd_find_requests := om_del (service, instance) (sd_find_requests st)\<rparr>"

definition is_local_service :: "u16 \<Rightarrow> u16 \<Rightarrow> service_discovery \<Rightarrow> bool" where
  "is_local_service service instance st =
     (case om_get (sd_local_services st) (service, instance) of
        None \<Rightarrow> False | Some info \<Rightarrow> si_is_offered info)"

definition update_service_info :: "service_info \<Rightarrow> service_discovery \<Rightarrow> service_discovery" where
  "update_service_info info st = st\<lparr>sd_discovered_services :=
     om_put (si_service_id info, si_instance_id info) info (sd_discovered_services st)\<rparr>"

definition get_discovered_services :: "service_discovery \<Rightarrow> service_info list" where
  "get_discovered_services st = map snd (sd_discovered_services st)"

definition get_service_info :: "u16 \<Rightarrow> u16 \<Rightarrow> service_discovery \<Rightarrow> service_info option" where
  "get_service_info service instance st = om_get (sd_discovered_services st) (service, instance)"

definition get_service_endpoints :: "u16 \<Rightarrow> u16 \<Rightarrow> service_discovery \<Rightarrow> endpoint list" where
  "get_service_endpoints service instance st =
     (case om_get (sd_discovered_services st) (service, instance) of
        None \<Rightarrow> [] | Some info \<Rightarrow> si_endpoints info)"

section \<open>Eventgroups and subscriptions\<close>

text \<open>The local \<open>EventgroupInfo\<close> has an uninitialized version, the argument \<open>junk\<close>.\<close>

definition offer_eventgroup ::
    "u8 \<Rightarrow> u16 \<Rightarrow> u16 \<Rightarrow> u16 \<Rightarrow> endpoint list \<Rightarrow> service_discovery \<Rightarrow> service_discovery" where
  "offer_eventgroup junk service instance eventgroup endpoints st =
     st\<lparr>sd_eventgroups := om_put (service, instance, eventgroup)
       \<lparr>eg_service_id = service, eg_instance_id = instance, eg_eventgroup_id = eventgroup,
        eg_major_version = junk, eg_endpoints = endpoints, eg_subscribers = []\<rparr>
       (sd_eventgroups st)\<rparr>"

definition stop_offer_eventgroup ::
    "u16 \<Rightarrow> u16 \<Rightarrow> u16 \<Rightarrow> service_discovery \<Rightarrow> service_discovery" where
  "stop_offer_eventgroup service instance eventgroup st =
     st\<lparr>sd_eventgroups := om_del (service, instance, eventgroup) (sd_eventgroups st)\<rparr>"

definition get_subscribers :: "u16 \<Rightarrow> u16 \<Rightarrow> u16 \<Rightarrow> service_discovery \<Rightarrow> endpoint list" where
  "get_subscribers service instance eventgroup st =
     (case om_get (sd_eventgroups st) (service, instance, eventgroup) of
        None \<Rightarrow> [] | Some eg \<Rightarrow> eg_subscribers eg)"

definition subscribe_eventgroup ::
    "time_point \<Rightarrow> u16 \<Rightarrow> u16 \<Rightarrow> u16 \<Rightarrow> u8 \<Rightarrow> service_discovery \<Rightarrow> bool \<times> service_discovery" where
  "subscribe_eventgroup now service instance eventgroup major_version st =
     (True, st\<lparr>sd_pending_subscriptions := sd_pending_subscriptions st @
        [\<lparr>ps_service_id = service, ps_instance_id = instance, ps_eventgroup_id = eventgroup,
          ps_timestamp = now, ps_retry_count = 0\<rparr>]\<rparr>)"

definition ps_matches :: "u16 \<Rightarrow> u16 \<Rightarrow> u16 \<Rightarrow> pending_subscription \<Rightarrow> bool" where
  "ps_matches service instance eventgroup sub \<longleftrightarrow> ps_service_id sub = service \<and>
     ps_instance_id sub = instance \<and> ps_eventgroup_id sub = eventgroup"

definition unsubscribe_eventgroup ::
    "u16 \<Rightarrow> u16 \<Rightarrow> u16 \<Rightarrow> service_discovery \<Rightarrow> service_discovery" where
  "unsubscribe_eventgroup service instance eventgroup st =
     st\<lparr>sd_pending_subscriptions :=
       filter (\<lambda>sub. \<not> ps_matches service instance eventgroup sub)
         (sd_pending_subscriptions st)\<rparr>"

section \<open>Periodic work\<close>

definition info_expired :: "time_point \<Rightarrow> service_info \<Rightarrow> bool" where
  "info_expired now info \<longleftrightarrow> uint (si_ttl info) < to_seconds (now - si_last_update info)"

text \<open>The iteration that erases the expired services and reports them.\<close>

fun expire_services ::
    "time_point \<Rightarrow> handler option \<Rightarrow> (service_key, service_info) omap \<Rightarrow>
     (service_key, service_info) omap \<times> sd_action list" where
  "expire_services now h [] = ([], [])"
| "expire_services now h ((key, info) # it) =
     (let (rest, actions) = expire_services now h it in
      if info_expired now info then
        (rest, (case h of None \<Rightarrow> [] | Some f \<Rightarrow>
           [Service_available f (si_service_id info) (si_instance_id info) False]) @ actions)
      else ((key, info) # rest, actions))"

definition check_ttl_expiration ::
    "time_point \<Rightarrow> service_discovery \<Rightarrow> service_discovery \<times> sd_action list" where
  "check_ttl_expiration now st =
     (let (services, actions) =
            expire_services now (sd_availability_handler st) (sd_discovered_services st)
      in (st\<lparr>sd_discovered_services := services\<rparr>, actions))"

definition send_periodic_offers :: "service_discovery \<Rightarrow> sd_action list" where
  "send_periodic_offers st =
     concat (map (\<lambda>(key, info). if si_is_offered info then send_offer_service st info else [])
       (sd_local_services st))"

definition retry_pending_subscriptions :: "service_discovery \<Rightarrow> sd_action list" where
  "retry_pending_subscriptions st =
     concat (map (\<lambda>sub. if ps_retry_count sub < cf_repetition_max (sd_config st)
                      then send_subscribe_eventgroup st sub else [])
       (sd_pending_subscriptions st))"

text \<open>One turn of the worker thread: the clock is read at the expiry check and again after
  it; the time of the next offers is the thread's local variable.\<close>

definition worker_turn ::
    "time_point \<Rightarrow> time_point \<Rightarrow> time_point \<Rightarrow> service_discovery \<Rightarrow>
     time_point \<times> service_discovery \<times> sd_action list" where
  "worker_turn expiry_now now next_offer_time st =
     (if \<not> sd_running st then (next_offer_time, st, [])
      else
        let (st', expired) = check_ttl_expiration expiry_now st;
            (offers, next') =
              (if next_offer_time \<le> now then
                 (send_periodic_offers st',
                  now + 1000000 * cf_cyclic_offer_delay (sd_config st'))
               else ([], next_offer_time))
        in (next', st', expired @ offers @ retry_pending_subscriptions st'))"


section \<open>The invariant of the registries\<close>

text \<open>
  Every map is in key order and files its values under the ids they carry; what is filed as
  local is offered and local, what is discovered is not local and offered as long as its TTL
  is not 0; no eventgroup has a subscriber twice; no subscription has been counted as
  retried.
\<close>

definition local_ok :: "service_key \<Rightarrow> service_info \<Rightarrow> bool" where
  "local_ok k info \<longleftrightarrow> k = (si_service_id info, si_instance_id info) \<and>
     si_is_offered info \<and> si_is_local info"

definition discovered_ok :: "service_key \<Rightarrow> service_info \<Rightarrow> bool" where
  "discovered_ok k info \<longleftrightarrow> k = (si_service_id info, si_instance_id info) \<and>
     (si_is_offered info \<longleftrightarrow> 0 < si_ttl info) \<and> \<not> si_is_local info"

definition eventgroup_ok :: "eventgroup_key \<Rightarrow> eventgroup_info \<Rightarrow> bool" where
  "eventgroup_ok k eg \<longleftrightarrow> k = (eg_service_id eg, eg_instance_id eg, eg_eventgroup_id eg) \<and>
     distinct (eg_subscribers eg)"

definition om_all :: "('k::linorder \<Rightarrow> 'v \<Rightarrow> bool) \<Rightarrow> ('k, 'v) omap \<Rightarrow> bool" where
  "om_all P m \<longleftrightarrow> om_ok m \<and> (\<forall>k v. om_get m k = Some v \<longrightarrow> P k v)"

definition sd_ok :: "service_discovery \<Rightarrow> bool" where
  "sd_ok st \<longleftrightarrow> om_all local_ok (sd_local_services st) \<and>
     om_all discovered_ok (sd_discovered_services st) \<and>
     om_all eventgroup_ok (sd_eventgroups st) \<and> om_ok (sd_find_requests st) \<and>
     (\<forall>sub \<in> set (sd_pending_subscriptions st). ps_retry_count sub = 0)"

lemma om_all_empty [simp]: "om_all P []" "om_all P om_empty"
  by (simp_all add: om_all_def om_get_def om_empty_def)

lemma om_all_put [inv_intros]: "om_all P m \<Longrightarrow> P k v \<Longrightarrow> om_all P (om_put k v m)"
  by (auto simp: om_all_def om_get_put om_ok_put)

lemma om_all_del [inv_intros]: "om_all P m \<Longrightarrow> om_all P (om_del k m)"
  by (auto simp: om_all_def om_get_del om_ok_del)

lemma om_all_filter [inv_intros]: "om_all P m \<Longrightarrow> om_all P (filter Q m)"
  by (auto simp: om_all_def om_ok_filter om_get_filter)

lemma om_all_get: "om_all P m \<Longrightarrow> om_get m k = Some v \<Longrightarrow> P k v"
  by (simp add: om_all_def)

lemma om_all_set: "om_all P m \<Longrightarrow> (k, v) \<in> set m \<Longrightarrow> P k v"
  by (simp add: om_all_def om_get_set)

lemma expire_services_eq:
  "expire_services now h m =
     (filter (\<lambda>e. \<not> info_expired now (snd e)) m,
      case h of None \<Rightarrow> []
      | Some f \<Rightarrow> map (\<lambda>(k, info). Service_available f (si_service_id info)
          (si_instance_id info) False) (filter (\<lambda>e. info_expired now (snd e)) m))"
  by (induction now h m rule: expire_services.induct)
    (auto simp: Let_def split: option.splits)

lemma sd_ok_new [inv_intros]: "sd_ok (ServiceDiscovery config)"
  by (simp add: sd_ok_def ServiceDiscovery_def om_ok_def om_empty_def)

lemma sd_ok_settings [inv_intros]:
  "sd_ok st \<Longrightarrow> sd_ok (sd_init a u t st)"
  "sd_ok st \<Longrightarrow> sd_ok (snd (sd_start st))"
  "sd_ok st \<Longrightarrow> sd_ok (sd_stop st)"
  "sd_ok st \<Longrightarrow> sd_ok (set_service_available_handler h st)"
  "sd_ok st \<Longrightarrow> sd_ok (set_subscription_handler f st)"
  "sd_ok st \<Longrightarrow> sd_ok (set_send_message_callback h st)"
  by (simp_all add: sd_ok_def sd_init_def sd_start_def sd_stop_def
      set_service_available_handler_def set_subscription_handler_def
      set_send_message_callback_def)

lemma sd_ok_offer [inv_intros]: "sd_ok st \<Longrightarrow> sd_ok (fst (offer_service now config st))"
  by (simp add: sd_ok_def offer_service_def Let_def om_all_put local_ok_def offered_info_def)

lemma sd_ok_stop_offer [inv_intros]: "sd_ok st \<Longrightarrow> sd_ok (fst (stop_offer_service s i st))"
  by (simp add: sd_ok_def stop_offer_service_def om_all_del split: option.split)

lemma sd_ok_find [inv_intros]:
  "sd_ok st \<Longrightarrow> sd_ok (fst (find_service now s i st))"
  "sd_ok st \<Longrightarrow> sd_ok (stop_find_service s i st)"
  by (simp_all add: sd_ok_def find_service_def stop_find_service_def om_ok_put om_ok_del)

lemma sd_ok_eventgroups [inv_intros]:
  "sd_ok st \<Longrightarrow> sd_ok (offer_eventgroup junk s i g eps st)"
  "sd_ok st \<Longrightarrow> sd_ok (stop_offer_eventgroup s i g st)"
  by (simp_all add: sd_ok_def offer_eventgroup_def stop_offer_eventgroup_def om_all_put
      om_all_del eventgroup_ok_def)

lemma sd_ok_subscribe [inv_intros]:
  "sd_ok st \<Longrightarrow> sd_ok (snd (subscribe_eventgroup now s i g v st))"
  "sd_ok st \<Longrightarrow> sd_ok (unsubscribe_eventgroup s i g st)"
  by (auto simp: sd_ok_def subscribe_eventgroup_def unsubscribe_eventgroup_def)

lemma sd_ok_expire [inv_intros]: "sd_ok st \<Longrightarrow> sd_ok (fst (check_ttl_expiration now st))"
  by (simp add: sd_ok_def check_ttl_expiration_def expire_services_eq om_all_filter)

lemma worker_turn_state:
  "fst (snd (worker_turn t1 t2 next st)) =
     (if sd_running st then fst (check_ttl_expiration t1 st) else st)"
  by (auto simp: worker_turn_def Let_def split: prod.split)

lemma sd_ok_turn [inv_intros]: "sd_ok st \<Longrightarrow> sd_ok (fst (snd (worker_turn t1 t2 next st)))"
  by (simp add: worker_turn_state sd_ok_expire)

text \<open>What a sender emits.\<close>

lemma payload_sd_notification [simp]: "payload_bytes (sd_notification m e) = entry_serialize e"
  by (simp add: payload_bytes_def sd_notification_def set_payload_def payload_of_def)

lemma sd_send_cases:
  "a \<in> set (sd_send st m e) \<longleftrightarrow>
     (\<exists>cb. sd_send_message_callback st = Some cb \<and> a = Send_message cb (sd_notification m e)
        (cf_multicast_address (sd_config st)) (cf_port (sd_config st)))"
  by (auto simp: sd_send_def split: option.split)

end
