(* ===== verification/SdProcess.thy ===== *)
theory SdProcess
  imports ServiceDiscovery
begin

text \<open>
  The incoming side of \<open>sd/service_discovery.cpp\<close>: \<open>process_sd_message\<close>, which parses the
  entries and the options of a payload and hands every entry to its handler, and the runs of
  a service discovery object as sequences of events. \<open>pton\<close> and \<open>ntop\<close> are \<open>inet_pton\<close> and
  \<open>inet_ntop\<close>. One reading of the clock serves the entries of one message.
\<close>

section \<open>Handlers\<close>

definition endpoints_of :: "(bytes \<Rightarrow> string) \<Rightarrow> sd_option list \<Rightarrow> endpoint list" where
  "endpoints_of ntop options =
     concat (map (\<lambda>opt. case opt of
         IPv4EndpointOption a p t \<Rightarrow>
           [\<lparr>ep_address = get_address ntop opt, ep_port = p, ep_protocol = t\<rparr>]
       | _ \<Rightarrow> []) options)"

definition find_matches :: "service_entry \<Rightarrow> service_info \<Rightarrow> bool" where
  "find_matches entry info \<longleftrightarrow> si_is_offered info \<and> si_service_id info = se_service_id entry \<and>
     (se_instance_id entry = 0xFFFF \<or> si_instance_id info = se_instance_id entry)"

definition handle_find_service :: "service_entry \<Rightarrow> service_discovery \<Rightarrow> sd_action list" where
  "handle_find_service entry st =
     concat (map (\<lambda>(key, info). if find_matches entry info then send_offer_service st info else [])
       (sd_local_services st))"

definition handle_offer_service ::
    "(bytes \<Rightarrow> string) \<Rightarrow> time_point \<Rightarrow> service_entry \<Rightarrow> sd_option list \<Rightarrow>
     service_discovery \<Rightarrow> service_discovery \<times> sd_action list" where
  "handle_offer_service ntop now entry options st =
     (let info = \<lparr>si_service_id = se_service_id entry, si_instance_id = se_instance_id entry,
            si_major_version = se_major_version entry, si_minor_version = se_minor_version entry,
            si_ttl = se_ttl entry, si_last_update = now,
            si_endpoints = endpoints_of ntop options,
            si_is_offered = (0 < se_ttl entry), si_is_local = False\<rparr>
      in (update_service_info info st,
          case sd_availability_handler st of
            None \<Rightarrow> []
          | Some f \<Rightarrow> if 0 < se_ttl entry
              then [Service_available f (si_service_id info) (si_instance_id info) True]
              else []))"

text \<open>The loop that adds the endpoints of a subscriber that are not yet there.\<close>

fun add_subscribers :: "endpoint list \<Rightarrow> endpoint list \<Rightarrow> endpoint list" where
  "add_subscribers [] subscribers = subscribers"
| "add_subscribers (ep # endpoints) subscribers =
     add_subscribers endpoints
       (if ep \<in> set subscribers then subscribers else subscribers @ [ep])"

definition fresh_eventgroup :: eventgroup_info where
  "fresh_eventgroup = \<lparr>eg_service_id = 0, eg_instance_id = 0, eg_eventgroup_id = 0,
     eg_major_version = 0, eg_endpoints = [], eg_subscribers = []\<rparr>"

definition subscription_of :: "(bytes \<Rightarrow> string) \<Rightarrow> service_entry \<Rightarrow> sd_option list \<Rightarrow> subscription_info"
where
  "subscription_of ntop entry options = \<lparr>sub_service_id = se_service_id entry,
     sub_instance_id = se_instance_id entry, sub_eventgroup_id = get_eventgroup_id entry,
     sub_major_version = se_major_version entry, sub_ttl = se_ttl entry,
     sub_endpoints = endpoints_of ntop options\<rparr>"

definition handle_subscribe_eventgroup ::
    "(bytes \<Rightarrow> string) \<Rightarrow> service_entry \<Rightarrow> sd_option list \<Rightarrow> service_discovery \<Rightarrow>
     service_discovery \<times> sd_action list" where
  "handle_subscribe_eventgroup ntop entry options st =
     (case om_get (sd_local_services st) (se_service_id entry, se_instance_id entry) of
        None \<Rightarrow> (st, [])
      | Some service \<Rightarrow>
          let sub_info = subscription_of ntop entry options;
              accepted = (case sd_subscription_handler st of None \<Rightarrow> True | Some f \<Rightarrow> f sub_info)
          in if accepted then
               let key = (se_service_id entry, se_instance_id entry, get_eventgroup_id entry);
                   eg = (case om_get (sd_eventgroups st) key of
                           None \<Rightarrow> fresh_eventgroup | Some eg \<Rightarrow> eg);
                   eg' = eg\<lparr>eg_service_id := se_service_id entry,
                     eg_instance_id := se_instance_id entry,
                     eg_eventgroup_id := get_eventgroup_id entry,
                     eg_major_version := se_major_version entry,
                     eg_subscribers :=
                       add_subscribers (sub_endpoints sub_info) (eg_subscribers eg)\<rparr>;
                   st' = st\<lparr>sd_eventgroups := om_put key eg' (sd_eventgroups st)\<rparr>
               in (st', send_subscribe_eventgroup_ack st' service (get_eventgroup_id entry))
             else (st, send_subscribe_eventgroup_nack st service (get_eventgroup_id entry)))"

definition handle_subscribe_eventgroup_ack ::
    "service_entry \<Rightarrow> service_discovery \<Rightarrow> service_discovery" where
  "handle_subscribe_eventgroup_ack entry st =
     st\<lparr>sd_pending_subscriptions :=
       filter (\<lambda>sub. \<not> ps_matches (se_service_id entry) (se_instance_id entry)
           (get_eventgroup_id entry) sub)
         (sd_pending_subscriptions st)\<rparr>"

section \<open>Incoming messages\<close>

definition option_size :: "sd_option \<Rightarrow> nat" where
  "option_size opt = OPTION_SIZE"

function option_loop ::
    "(string \<Rightarrow> bytes option) \<Rightarrow> (bytes \<Rightarrow> string) \<Rightarrow> bytes \<Rightarrow> nat \<Rightarrow> nat \<Rightarrow> fault + sd_option list"
where
  "option_loop pton ntop data offset options_end =
     (if offset < options_end \<and> offset < length data then
        rbind (option_deserialize pton ntop (drop offset data) (options_end - offset)) (\<lambda>opt.
          case opt of
            None \<Rightarrow> Inr []
          | Some opt \<Rightarrow>
              rbind (option_loop pton ntop data (offset + option_size opt) options_end)
                (\<lambda>options. Inr (opt # options)))
      else Inr [])"
  by pat_completeness auto
termination
  by (relation "measure (\<lambda>(pton, ntop, data, offset, options_end). options_end - offset)")
    (auto simp: option_size_def OPTION_SIZE_def)

declare option_loop.simps [simp del]

definition handle_entry ::
    "(bytes \<Rightarrow> string) \<Rightarrow> time_point \<Rightarrow> sd_option list \<Rightarrow> service_entry \<Rightarrow> service_discovery \<Rightarrow>
     service_discovery \<times> sd_action list" where
  "handle_entry ntop now options entry st =
     (case se_type entry of
        FIND_SERVICE \<Rightarrow> (st, handle_find_service entry st)
      | OFFER_SERVICE \<Rightarrow> handle_offer_service ntop now entry options st
      | SUBSCRIBE_EVENTGROUP \<Rightarrow> handle_subscribe_eventgroup ntop entry options st
      | SUBSCRIBE_EVENTGROUP_ACK \<Rightarrow> (handle_subscribe_eventgroup_ack entry st, [])
      | SE_other b \<Rightarrow> (st, []))"

fun handle_entries ::
    "(bytes \<Rightarrow> string) \<Rightarrow> time_point \<Rightarrow> sd_option list \<Rightarrow> service_entry list \<Rightarrow>
     service_discovery \<Rightarrow> service_discovery \<times> sd_action list" where
  "handle_entries ntop now options [] st = (st, [])"
| "handle_entries ntop now options (entry # entries) st =
     (let (st', actions) = handle_entry ntop now options entry st;
          (st'', actions') = handle_entries ntop now options entries st'
      in (st'', actions @ actions'))"

definition process_sd_message ::
    "(string \<Rightarrow> bytes option) \<Rightarrow> (bytes \<Rightarrow> string) \<Rightarrow> time_point \<Rightarrow> message \<Rightarrow> service_discovery \<Rightarrow>
     fault + service_discovery \<times> sd_action list" where
  "process_sd_message pton ntop now message st =
     (case m_payload message of
        None \<Rightarrow> Inr (st, [])
      | Some payload \<Rightarrow>
          if payload_size payload < 12 then Inr (st, [])
          else
            let data = p_data payload in
            rbind (rd data 0) (\<lambda>flags. rbind (rd32 data 4) (\<lambda>entries_length.
              let entries_end = 8 + unat entries_length in
              rbind (chunk_loop entry_deserialize ENTRY_SIZE data 8 entries_end) (\<lambda>entries.
                if length data < entries_end + 4 then Inr (st, [])
                else rbind (rd32 data entries_end) (\<lambda>options_length.
                  let offset = entries_end + 4 in
                  rbind (option_loop pton ntop data offset (offset + unat options_length))
                    (\<lambda>options. Inr (handle_entries ntop now options entries st)))))))"

section \<open>Runs\<close>

datatype sd_event =
    Ev_init string u16 "u16 option"
  | Ev_start
  | Ev_stop
  | Ev_set_availability_handler "handler option"
  | Ev_set_subscription_handler "(subscription_info \<Rightarrow> bool) option"
  | Ev_set_send_callback "handler option"
  | Ev_offer time_point service_config
  | Ev_stop_offer u16 u16
  | Ev_find time_point u16 u16
  | Ev_stop_find u16 u16
  | Ev_subscribe time_point u16 u16 u16 u8
  | Ev_unsubscribe u16 u16 u16
  | Ev_offer_eventgroup u8 u16 u16 u16 "endpoint list"
  | Ev_stop_offer_eventgroup u16 u16 u16
  | Ev_receive time_point message
  | Ev_worker time_point time_point time_point

fun sd_step ::
    "(string \<Rightarrow> bytes option) \<Rightarrow> (bytes \<Rightarrow> string) \<Rightarrow> sd_event \<Rightarrow> service_discovery \<Rightarrow>
     fault + service_discovery \<times> sd_action list" where
  "sd_step pton ntop (Ev_init a u t) st = Inr (sd_init a u t st, [])"
| "sd_step pton ntop Ev_start st = Inr (snd (sd_start st), [])"
| "sd_step pton ntop Ev_stop st = Inr (sd_stop st, [])"
| "sd_step pton ntop (Ev_set_availability_handler h) st =
     Inr (set_service_available_handler h st, [])"
| "sd_step pton ntop (Ev_set_subscription_handler f) st = Inr (set_subscription_handler f st, [])"
| "sd_step pton ntop (Ev_set_send_callback h) st = Inr (set_send_message_callback h st, [])"
| "sd_step pton ntop (Ev_offer now config) st = Inr (offer_service now config st)"
| "sd_step pton ntop (Ev_stop_offer s i) st = Inr (stop_offer_service s i st)"
| "sd_step pton ntop (Ev_find now s i) st = Inr (find_service now s i st)"
| "sd_step pton ntop (Ev_stop_find s i) st = Inr (stop_find_service s i st, [])"
| "sd_step pton ntop (Ev_subscribe now s i g v) st =
     Inr (snd (subscribe_eventgroup now s i g v st), [])"
| "sd_step pton ntop (Ev_unsubscribe s i g) st = Inr (unsubscribe_eventgroup s i g st, [])"
| "sd_step pton ntop (Ev_offer_eventgroup junk s i g eps) st =
     Inr (offer_eventgroup junk s i g eps st, [])"
| "sd_step pton ntop (Ev_stop_offer_eventgroup s i g) st =
     Inr (stop_offer_eventgroup s i g st, [])"
| "sd_step pton ntop (Ev_receive now m) st = process_sd_message pton ntop now m st"
| "sd_step pton ntop (Ev_worker t1 t2 t3) st = Inr (snd (worker_turn t1 t2 t3 st))"

inductive sd_reach ::
    "(string \<Rightarrow> bytes option) \<Rightarrow> (bytes \<Rightarrow> string) \<Rightarrow> sd_config \<Rightarrow> service_discovery \<Rightarrow> bool"
  for pton ntop config
where
  sd_reach_new: "sd_reach pton ntop config (ServiceDiscovery config)"
| sd_reach_step: "sd_reach pton ntop config st \<Longrightarrow> sd_step pton ntop e st = Inr (st', actions) \<Longrightarrow>
    sd_reach pton ntop config st'"

section \<open>Preservation\<close>

lemma add_subscribers_eq:
  "distinct subs \<Longrightarrow> distinct (add_subscribers eps subs) \<and>
     set (add_subscribers eps subs) = set subs \<union> set eps \<and>
     (\<exists>new. add_subscribers eps subs = subs @ new)"
  by (induction eps subs rule: add_subscribers.induct) auto

lemma sd_ok_handle_offer [inv_intros]:
  "sd_ok st \<Longrightarrow> sd_ok (fst (handle_offer_service ntop now e os st))"
  by (simp add: sd_ok_def handle_offer_service_def update_service_info_def Let_def om_all_put
      discovered_ok_def)

lemma sd_ok_handle_subscribe [inv_intros]:
  assumes "sd_ok st"
  shows "sd_ok (fst (handle_subscribe_eventgroup ntop e os st))"
proof -
  let ?k = "(se_service_id e, se_instance_id e, get_eventgroup_id e)"
  have "distinct (eg_subscribers (case om_get (sd_eventgroups st) ?k of
      None \<Rightarrow> fresh_eventgroup | Some eg \<Rightarrow> eg))"
    using assms by (auto simp: sd_ok_def fresh_eventgroup_def eventgroup_ok_def
        dest: om_all_get split: option.split)
  with assms show ?thesis
    by (simp add: sd_ok_def handle_subscribe_eventgroup_def Let_def om_all_put eventgroup_ok_def
        add_subscribers_eq split: option.split)
qed

lemma sd_ok_handle_ack [inv_intros]: "sd_ok st \<Longrightarrow> sd_ok (handle_subscribe_eventgroup_ack e st)"
  by (simp add: sd_ok_def handle_subscribe_eventgroup_ack_def)

lemma sd_ok_handle_entry [inv_intros]: "sd_ok st \<Longrightarrow> sd_ok (fst (handle_entry ntop now os e st))"
  by (simp add: handle_entry_def inv_intros split: sd_entry_type.split)

lemma sd_ok_handle_entries [inv_intros]:
  "sd_ok st \<Longrightarrow> sd_ok (fst (handle_entries ntop now os es st))"
proof (induction es arbitrary: st)
  case (Cons e es)
  then show ?case
    using sd_ok_handle_entry [OF Cons.prems, of ntop now os e] by (simp add: split_beta)
qed simp

lemma process_sd_message_state:
  assumes "process_sd_message pton ntop now m st = Inr (st', actions)"
  shows "st' = st \<and> actions = [] \<or> (\<exists>os es. handle_entries ntop now os es st = (st', actions))"
  using assms
  by (auto simp: process_sd_message_def Let_def rbind_Inr_iff split: option.splits if_splits)

lemma sd_ok_step:
  assumes "sd_ok st" and "sd_step pton ntop e st = Inr (st', actions)"
  shows "sd_ok st'"
proof (cases e)
  case (Ev_receive now m)
  then consider "st' = st" | os es where "handle_entries ntop now os es st = (st', actions)"
    using process_sd_message_state [of pton ntop now m st st' actions] assms(2) by auto
  then show ?thesis
  proof cases
    case (2 os es)
    then have "st' = fst (handle_entries ntop now os es st)" by (metis fst_conv)
    then show ?thesis using assms(1) by (simp add: inv_intros)
  qed (use assms(1) in simp)
next
  case (Ev_worker t1 t2 t3)
  then show ?thesis
    using assms sd_ok_turn [of st t1 t2 t3] by (metis fst_conv sd_step.simps(16) sum.inject(2))
next
  case (Ev_offer now c)
  then show ?thesis
    using assms sd_ok_offer [of st now c] by (metis fst_conv sd_step.simps(7) sum.inject(2))
next
  case (Ev_stop_offer s i)
  then show ?thesis
    using assms sd_ok_stop_offer [of st s i] by (metis fst_conv sd_step.simps(8) sum.inject(2))
next
  case (Ev_find now s i)
  then show ?thesis
    using assms sd_ok_find(1) [of st now s i] by (metis fst_conv sd_step.simps(9) sum.inject(2))
qed (use assms in \<open>auto simp: inv_intros\<close>)

lemma sd_reach_ok: "sd_reach pton ntop config st \<Longrightarrow> sd_ok st"
  by (induction rule: sd_reach.induct) (auto simp: sd_ok_new intro: sd_ok_step)


section \<open>Parsing\<close>

text \<open>The options of an array of encoded options, wherever it stands in the data.\<close>

lemma option_loop_concat:
  assumes "\<And>a. length a = 4 \<Longrightarrow> pton (ntop a) = Some a" and "\<forall>opt \<in> set os. option_ok opt"
  shows "option_loop pton ntop (pre @ concat (map option_serialize os) @ post) (length pre)
    (length pre + 12 * length os) = Inr (map option_view os)"
  using assms(2)
proof (induction os arbitrary: pre)
  case Nil
  show ?case by (simp add: option_loop.simps)
next
  case (Cons opt os)
  let ?data = "pre @ concat (map option_serialize (opt # os)) @ post"
  let ?stop = "length pre + 12 * length (opt # os)"
  have len: "length (option_serialize opt) = 12"
    using Cons.prems by (simp add: length_option_serialize)
  have dec: "option_deserialize pton ntop (drop (length pre) ?data) (?stop - length pre) =
      Inr (Some (option_view opt))"
    using option_decode [OF assms(1), of opt "12 * length (opt # os)"
        "concat (map option_serialize os) @ post"] Cons.prems
    by simp
  have rest: "option_loop pton ntop ?data (length pre + 12) ?stop = Inr (map option_view os)"
    using Cons.IH [of "pre @ option_serialize opt"] Cons.prems len
    by (simp add: algebra_simps)
  show ?case
    unfolding option_loop.simps [of pton ntop ?data "length pre" ?stop] dec
    using len rest by (simp add: option_size_def OPTION_SIZE_def)
qed

text \<open>The message format of the header file, with any bytes in the reserved positions.\<close>

definition sd_data :: "bytes \<Rightarrow> service_entry list \<Rightarrow> u32 \<Rightarrow> bytes \<Rightarrow> bytes" where
  "sd_data flags entries options_length options =
     flags @ bytes32 (of_nat (16 * length entries)) @ concat (map entry_serialize entries) @
     bytes32 options_length @ options"

definition sd_entries_ok :: "bytes \<Rightarrow> service_entry list \<Rightarrow> bool" where
  "sd_entries_ok flags entries \<longleftrightarrow> length flags = 4 \<and> (\<forall>e \<in> set entries. se_ok (se_type e)) \<and>
     16 * length entries < 2 ^ 32"

lemma process_sd_data:
  assumes "sd_entries_ok flags es" and "m_payload m = Some p" and "p_data p = sd_data flags es n tail"
  shows "process_sd_message pton ntop now m st =
    rbind (option_loop pton ntop (sd_data flags es n tail) (12 + 16 * length es)
             (12 + 16 * length es + unat n))
      (\<lambda>os. Inr (handle_entries ntop now os (map entry_view es) st))"
proof -
  let ?E = "concat (map entry_serialize es)" and ?L = "bytes32 (of_nat (16 * length es))"
  let ?d = "sd_data flags es n tail"
  have f: "length flags = 4" and le: "length ?E = 16 * length es"
    using assms(1) entry_codec.length_concat_enc [of es] by (auto simp: sd_entries_ok_def)
  have un: "unat (of_nat (16 * length es) :: u32) = 16 * length es"
    by (rule unat_of_nat_u32) (use assms(1) in \<open>simp add: sd_entries_ok_def\<close>)
  have d1: "?d = flags @ ?L @ (?E @ bytes32 n @ tail)"
    and d2: "?d = (flags @ ?L) @ ?E @ (bytes32 n @ tail)"
    and d3: "?d = (flags @ ?L @ ?E) @ bytes32 n @ tail"
    by (simp_all add: sd_data_def)
  have len: "length ?d = 12 + 16 * length es + length tail"
    by (simp add: sd_data_def f le)
  have r4: "rd32 ?d 4 = Inr (of_nat (16 * length es))"
    using rd32_bytes32 [of flags "of_nat (16 * length es)" "?E @ bytes32 n @ tail"] f d1 by simp
  have l8: "length (flags @ ?L @ ?E) = 8 + 16 * length es" by (simp add: f le)
  have r8: "rd32 ?d (8 + 16 * length es) = Inr n"
    using rd32_bytes32 [of "flags @ ?L @ ?E" n tail] unfolding l8 d3 .
  have lp: "length (flags @ ?L) = 8" by (simp add: f)
  have cl: "chunk_loop entry_deserialize ENTRY_SIZE ?d 8 (8 + 16 * length es) =
      Inr (map entry_view es)"
    using entry_codec.chunk_loop_concat [of es "flags @ ?L" "bytes32 n @ tail"] assms(1)
    unfolding lp d2 [symmetric] by (simp add: ENTRY_SIZE_def sd_entries_ok_def)
  have r0: "rd ?d 0 = Inr (?d ! 0)" by (rule rd_ok) (simp add: len)
  show ?thesis
    using assms(2,3)
    by (simp add: process_sd_message_def payload_size_def len Let_def r0 r4 un cl r8 del: of_nat_mult)
qed

text \<open>Memory safety of the option loop while the array lies in the buffer.\<close>

lemma option_loop_safe:
  assumes "options_end \<le> length data" and "(options_end - offset) mod 12 \<noteq> 11"
  shows "\<exists>os. option_loop pton ntop data offset options_end = Inr os"
  using assms
proof (induction pton ntop data offset options_end rule: option_loop.induct)
  case (1 pton ntop data offset options_end)
  show ?case
  proof (cases "offset < options_end \<and> offset < length data")
    case True
    let ?dec = "option_deserialize pton ntop (drop offset data) (options_end - offset)"
    have "options_end - offset \<noteq> 11" using "1.prems"(2) by auto
    then have "?dec \<noteq> Inl f" for f
      using "1.prems"(1) by (subst option_fault_iff) auto
    then obtain r where r: "?dec = Inr r" by (cases ?dec) auto
    show ?thesis
    proof (cases r)
      case None
      then show ?thesis using True r by (simp add: option_loop.simps [of pton ntop data offset])
    next
      case (Some opt)
      have "(options_end - (offset + option_size opt)) mod 12 \<noteq> 11"
        using "1.prems"(2) True
        by (cases "offset + 12 \<le> options_end")
          (auto simp: option_size_def OPTION_SIZE_def le_mod_geq diff_diff_left [symmetric]
            simp del: diff_diff_left)
      then show ?thesis
        using "1.IH" [OF True, of opt] "1.prems"(1) True r Some
        by (auto simp: option_loop.simps [of pton ntop data offset])
    qed
  qed (auto simp: option_loop.simps [of pton ntop data offset])
qed

definition entries_end_of :: "bytes \<Rightarrow> nat" where
  "entries_end_of d = 8 + unat (be32 (d ! 4) (d ! 5) (d ! 6) (d ! 7))"

definition options_length_of :: "bytes \<Rightarrow> nat" where
  "options_length_of d = (let e = entries_end_of d in
     unat (be32 (d ! e) (d ! (e + 1)) (d ! (e + 2)) (d ! (e + 3))))"

lemma entry_loop_safe: "\<exists>es. chunk_loop entry_deserialize ENTRY_SIZE d off lim = Inr es"
  by (rule chunk_loop_total) (auto simp: ENTRY_SIZE_def entry_deserialize_eq)

section \<open>Properties\<close>

text \<open> C7: every reachable service discovery object is consistent. After any sequence of
  configuration, offers, finds, subscriptions, received messages and worker turns, the
  registries are in key order and file every service and eventgroup under its own ids,
  the local services are exactly offered ones, no eventgroup lists a subscriber twice,
  and no pending subscription has its retry counter off zero. \<close>
theorem sd_invariant:
  assumes "sd_reach pton ntop config st"
  shows "sd_ok st"
  using assms by (rule sd_reach_ok)

definition demo_config :: service_config where
  "demo_config = \<lparr>sc_service_id = 0x1234, sc_instance_id = 1, sc_major_version = 1,
     sc_minor_version = 0, sc_ttl = 3600, sc_reliable = False, sc_unreliable = True,
     sc_reliable_port = 0, sc_unreliable_port = 30509\<rparr>"

definition demo_offering :: service_discovery where
  "demo_offering = fst (offer_service 0 demo_config
     (set_send_message_callback (Some 7) (ServiceDiscovery default_config)))"

lemma demo_offering_reach: "sd_reach raw_pton raw_ntop default_config demo_offering"
proof -
  let ?st = "set_send_message_callback (Some 7) (ServiceDiscovery default_config)"
  have "sd_reach raw_pton raw_ntop default_config ?st"
    by (rule sd_reach_step [OF sd_reach_new, where e = "Ev_set_send_callback (Some 7)"]) simp
  then show ?thesis
    by (rule sd_reach_step [where e = "Ev_offer 0 demo_config"])
      (simp add: demo_offering_def prod_eq_iff)
qed

theorem sd_invariant_witness: "sd_ok demo_offering"
  by (rule sd_invariant [OF demo_offering_reach])

text \<open> C12: a well-formed service discovery message is understood. For a payload laid out as
  the header file documents (flags and reserved bytes, the entries array and the options
  array with their lengths), \<open>process_sd_message\<close> hands exactly the encoded entries, in
  order, each with all the encoded options, to their handlers, whatever follows the
  arrays; nothing faults. \<close>
theorem process_sd_wellformed:
  assumes "\<And>a. length a = 4 \<Longrightarrow> pton (ntop a) = Some a"
    and "sd_entries_ok flags es" and "\<forall>opt \<in> set os. option_ok opt" and "12 * length os < 2 ^ 32"
    and "m_payload m = Some p"
    and "p_data p = sd_data flags es (of_nat (12 * length os))
           (concat (map option_serialize os) @ rest)"
  shows "process_sd_message pton ntop now m st =
    Inr (handle_entries ntop now (map option_view os) (map entry_view es) st)"
proof -
  let ?n = "of_nat (12 * length os) :: u32"
  let ?d = "sd_data flags es ?n (concat (map option_serialize os) @ rest)"
  let ?pre = "flags @ bytes32 (of_nat (16 * length es)) @ concat (map entry_serialize es) @ bytes32 ?n"
  have n: "unat ?n = 12 * length os" by (rule unat_of_nat_u32) (rule assms(4))
  have lp: "length ?pre = 12 + 16 * length es"
    using assms(2) entry_codec.length_concat_enc [of es] by (auto simp: sd_entries_ok_def)
  have d: "?d = ?pre @ concat (map option_serialize os) @ rest"
    by (simp add: sd_data_def)
  have "option_loop pton ntop ?d (12 + 16 * length es)
      (12 + 16 * length es + 12 * length os) = Inr (map option_view os)"
    using option_loop_concat [OF assms(1,3), of ?pre rest] unfolding lp d .
  then show ?thesis
    unfolding process_sd_data [OF assms(2,5,6)] n by simp
qed

theorem process_sd_wellformed_witness:
  "process_sd_message raw_pton raw_ntop 5
     (set_payload (sd_data [0x80, 0, 0, 0] [create_offer_service 0x1234 1 1 0 3600] 12
        (option_serialize (IPv4EndpointOption [192, 168, 0, 1] 30509 UDP))) new_message)
     (ServiceDiscovery default_config) =
   Inr (handle_entries raw_ntop 5 [IPv4EndpointOption [192, 168, 0, 1] 30509 UDP]
     [entry_view (create_offer_service 0x1234 1 1 0 3600)] (ServiceDiscovery default_config))"
  using process_sd_wellformed [OF raw_pton_ntop, of "[0x80, 0, 0, 0]"
      "[create_offer_service 0x1234 1 1 0 3600]"
      "[IPv4EndpointOption [192, 168, 0, 1] 30509 UDP]"
      "set_payload (sd_data [0x80, 0, 0, 0] [create_offer_service 0x1234 1 1 0 3600] 12
        (option_serialize (IPv4EndpointOption [192, 168, 0, 1] 30509 UDP))) new_message" _ "[]"]
  by (simp add: set_payload_def payload_of_def sd_entries_ok_def create_offer_service_def)

text \<open> C38: processing is memory safe when the options array lies inside the payload. Whatever
  the payload says, the entries are read within it; and if the announced options array
  ends inside the payload and its length does not leave 11 bytes after whole options, no
  read leaves the payload: the message is processed to some state. \<close>
theorem process_sd_safe:
  assumes "m_payload m = Some p"
    and "12 \<le> length (p_data p) \<Longrightarrow> entries_end_of (p_data p) + 4 \<le> length (p_data p) \<Longrightarrow>
      entries_end_of (p_data p) + 4 + options_length_of (p_data p) \<le> length (p_data p) \<and>
      options_length_of (p_data p) mod 12 \<noteq> 11"
  shows "\<exists>st' actions. process_sd_message pton ntop now m st = Inr (st', actions)"
proof (cases "12 \<le> length (p_data p)")
  case False
  then show ?thesis using assms(1) by (simp add: process_sd_message_def payload_size_def)
next
  case 12: True
  let ?d = "p_data p" and ?e = "entries_end_of (p_data p)"
  obtain es where es: "chunk_loop entry_deserialize ENTRY_SIZE ?d 8 ?e = Inr es"
    using entry_loop_safe by blast
  have r0: "rd ?d 0 = Inr (?d ! 0)" by (rule rd_ok) (use 12 in linarith)
  have r4: "rd32 ?d 4 = Inr (be32 (?d ! 4) (?d ! 5) (?d ! 6) (?d ! 7))"
    using 12 by (simp add: rd_simps)
  show ?thesis
  proof (cases "?e + 4 \<le> length ?d")
    case False
    then show ?thesis
      using assms(1) 12 es
      by (simp add: process_sd_message_def payload_size_def Let_def r0 r4 entries_end_of_def)
  next
    case True
    have re: "rd32 ?d ?e = Inr (be32 (?d ! ?e) (?d ! (?e + 1)) (?d ! (?e + 2)) (?d ! (?e + 3)))"
      by (rule rd32_ok) (use True in simp)
    obtain os where "option_loop pton ntop ?d (?e + 4) (?e + 4 + options_length_of ?d) = Inr os"
      using option_loop_safe [of "?e + 4 + options_length_of ?d" ?d "?e + 4"] assms(2) [OF 12 True]
      by auto
    moreover have "\<not> length ?d < 12 + unat (be32 (?d ! 4) (?d ! 5) (?d ! 6) (?d ! 7))"
      using True by (simp add: entries_end_of_def)
    ultimately have "process_sd_message pton ntop now m st =
        Inr (handle_entries ntop now os es st)"
      using assms(1) 12 es re
      by (simp add: process_sd_message_def payload_size_def Let_def r0 r4
          entries_end_of_def [of ?d, symmetric] options_length_of_def)
    then show ?thesis by (metis surj_pair)
  qed
qed

theorem process_sd_safe_witness:
  "\<exists>st' actions. process_sd_message raw_pton raw_ntop 0
     (set_payload (replicate 12 0) new_message) demo_offering = Inr (st', actions)"
  by (rule process_sd_safe [of _ "payload_of (replicate 12 0)"])
    (simp_all add: set_payload_def payload_of_def entries_end_of_def options_length_of_def
      be32_def Let_def)

text \<open> The missing bound. When a payload ends one byte behind the options length and that
  length announces at least four bytes, \<open>process_sd_message\<close> reads past the end of the
  payload, whatever the entries, the flags and the state: the length passed to
  \<open>SdOption::deserialize\<close> is not limited by the payload. \<close>
theorem process_sd_overrun:
  assumes "sd_entries_ok flags es" and "4 \<le> n" and "m_payload m = Some p"
    and "p_data p = sd_data flags es n [b]"
  shows "process_sd_message pton ntop now m st = Inl Out_of_bounds"
proof -
  let ?d = "sd_data flags es n [b]" and ?o = "12 + 16 * length es"
  have len: "length (concat (map entry_serialize es)) = 16 * length es"
    using assms(1) entry_codec.length_concat_enc [of es] by (auto simp: sd_entries_ok_def)
  then have l: "length ?d = Suc ?o"
    using assms(1) by (simp add: sd_data_def sd_entries_ok_def)
  have "drop ?o ?d = [b]"
    using len assms(1) by (simp add: sd_data_def sd_entries_ok_def)
  moreover have "4 \<le> unat n" using assms(2) by (simp add: word_le_nat_alt)
  ultimately have "option_deserialize pton ntop (drop ?o ?d) (?o + unat n - ?o) = Inl Out_of_bounds"
    by (simp add: option_deserialize_def rd16_def rd_def)
  moreover have "?o < ?o + unat n" using \<open>4 \<le> unat n\<close> by simp
  ultimately have "option_loop pton ntop ?d ?o (?o + unat n) = Inl Out_of_bounds"
    using l by (simp add: option_loop.simps [of pton ntop ?d ?o])
  then show ?thesis unfolding process_sd_data [OF assms(1,3,4)] by simp
qed

theorem process_sd_overrun_witness:
  "process_sd_message raw_pton raw_ntop 0
     (set_payload (sd_data [0, 0, 0, 0] [] 100 [1]) new_message) demo_offering = Inl Out_of_bounds"
  by (rule process_sd_overrun
      [of "[0, 0, 0, 0]" "[]" 100 _ "payload_of (sd_data [0, 0, 0, 0] [] 100 [1])" 1])
    (simp_all add: set_payload_def payload_of_def sd_entries_ok_def)


section \<open>Services\<close>

text \<open>With a send callback, a find is answered by one offer for each matching service.\<close>

definition offer_message :: "service_discovery \<Rightarrow> handler \<Rightarrow> service_info \<Rightarrow> sd_action" where
  "offer_message st cb info = Send_message cb
     (sd_notification SOMEIP_SD_METHOD_OFFER_SERVICE
        (create_offer_service (si_service_id info) (si_instance_id info) (si_major_version info)
           (si_minor_version info) (si_ttl info)))
     (cf_multicast_address (sd_config st)) (cf_port (sd_config st))"

lemma send_offer_some:
  "sd_send_message_callback st = Some cb \<Longrightarrow> send_offer_service st info = [offer_message st cb info]"
  by (simp add: send_offer_service_def sd_send_def offer_message_def)

lemma handle_find_eq:
  "sd_send_message_callback st = Some cb \<Longrightarrow>
     handle_find_service e st =
       map (\<lambda>(k, info). offer_message st cb info)
         (filter (\<lambda>(k, info). find_matches e info) (sd_local_services st))"
proof -
  assume "sd_send_message_callback st = Some cb"
  then have "concat (map (\<lambda>(k, info). if find_matches e info then send_offer_service st info else [])
      m) = map (\<lambda>(k, info). offer_message st cb info) (filter (\<lambda>(k, info). find_matches e info) m)"
    for m by (induction m) (auto simp: send_offer_some)
  then show ?thesis by (simp add: handle_find_service_def)
qed

text \<open> An offered service is found, a withdrawn one is not. In a reachable state with a send
  callback, offering a service sends its offer at once and makes it a local service; from
  then on a find entry for it, by its instance or by the wildcard 0xFFFF, is answered with
  that offer; after \<open>stop_offer_service\<close> a final offer of TTL 0 is sent, the service is no
  longer local, and a find for that instance is not answered any more. \<close>
theorem offered_service_found:
  assumes "sd_reach pton ntop config st" and "sd_send_message_callback st = Some cb"
    and "offer_service now cfg st = (st1, offers)"
    and "stop_offer_service (sc_service_id cfg) (sc_instance_id cfg) st1 = (st2, stops)"
    and "se_service_id e = sc_service_id cfg"
    and "se_instance_id e = sc_instance_id cfg \<or> se_instance_id e = 0xFFFF"
  shows "offers = [offer_message st cb (offered_info now cfg st)] \<and>
    is_local_service (sc_service_id cfg) (sc_instance_id cfg) st1 \<and>
    set offers \<subseteq> set (handle_find_service e st1) \<and>
    stops = [offer_message st cb ((offered_info now cfg st)\<lparr>si_ttl := 0\<rparr>)] \<and>
    \<not> is_local_service (sc_service_id cfg) (sc_instance_id cfg) st2 \<and>
    (se_instance_id e \<noteq> 0xFFFF \<longrightarrow> handle_find_service e st2 = [])"
proof -
  let ?k = "(sc_service_id cfg, sc_instance_id cfg)" and ?info = "offered_info now cfg st"
  have ok: "sd_ok st" using assms(1) by (rule sd_reach_ok)
  then have om: "om_ok (sd_local_services st)" by (simp add: sd_ok_def om_all_def)
  have st1: "st1 = st\<lparr>sd_local_services := om_put ?k ?info (sd_local_services st)\<rparr>"
    and offers: "offers = [offer_message st cb ?info]"
    using assms(2,3) by (auto simp: offer_service_def Let_def send_offer_some offer_message_def)
  have get: "om_get (sd_local_services st1) ?k = Some ?info"
    by (simp add: st1 om_get_put om)
  have st2: "st2 = st1\<lparr>sd_local_services := om_del ?k (sd_local_services st1)\<rparr>"
    and stops: "stops = [offer_message st cb (?info\<lparr>si_ttl := 0\<rparr>)]"
    using assms(2,4) get
    by (auto simp: stop_offer_service_def send_offer_some offer_message_def st1)
  have ok1: "sd_ok st1" using sd_ok_offer [OF ok, of now cfg] assms(3) by simp
  have "(?k, ?info) \<in> set (sd_local_services st1)"
    using get ok1 by (simp add: om_get_set sd_ok_def om_all_def)
  moreover have "find_matches e ?info"
    using assms(5,6) by (auto simp: find_matches_def offered_info_def)
  ultimately have "offer_message st cb ?info \<in> set (handle_find_service e st1)"
    using assms(2) by (force simp: handle_find_eq st1 offer_message_def)
  moreover have "handle_find_service e st2 = []" if "se_instance_id e \<noteq> 0xFFFF"
  proof -
    have "\<not> find_matches e info" if "(k, info) \<in> set (sd_local_services st2)" for k info
    proof -
      have "(k, info) \<in> set (sd_local_services st1)" and "k \<noteq> ?k"
        using that by (auto simp: st2 om_del_def)
      then have "k = (si_service_id info, si_instance_id info)" and "k \<noteq> ?k"
        using ok1 by (auto simp: sd_ok_def local_ok_def dest: om_all_set)
      then show ?thesis
        using assms(5,6) \<open>se_instance_id e \<noteq> 0xFFFF\<close> by (auto simp: find_matches_def)
    qed
    then show ?thesis by (auto simp: handle_find_service_def)
  qed
  ultimately show ?thesis
    using get om
    by (simp add: offers stops is_local_service_def offered_info_def st2 om_get_del)
qed

theorem offered_service_found_witness:
  "is_local_service 0x1234 1 (fst (offer_service 9 demo_config demo_offering)) \<and>
   handle_find_service (create_find_service 0x1234 1)
     (fst (stop_offer_service 0x1234 1 (fst (offer_service 9 demo_config demo_offering)))) = []"
  using offered_service_found [OF demo_offering_reach, of 7 9 demo_config _ _ _ _
      "create_find_service 0x1234 1"]
  by (simp add: demo_config_def create_find_service_def demo_offering_def offer_service_def
      set_send_message_callback_def Let_def prod_eq_iff)

text \<open> An offer travels. The entry a peer decodes from the message \<open>offer_service\<close> sends
  makes \<open>handle_offer_service\<close> register exactly the offered service, with its versions, the
  low 24 bits of its TTL and the endpoints of the options, and report it available unless
  those 24 bits are zero; other discovered services are not touched. \<close>
theorem offer_discovered:
  assumes "sd_send_message_callback st = Some cb" and "sd_ok peer"
  shows "\<exists>m e st1. offer_service now cfg st =
      (st1, [Send_message cb m (cf_multicast_address (sd_config st)) (cf_port (sd_config st))]) \<and>
    entry_deserialize (payload_bytes m) 16 = Inr (Some e) \<and> se_type e = OFFER_SERVICE \<and>
    (let (peer', actions) = handle_offer_service ntop now' e os peer;
         k = (sc_service_id cfg, sc_instance_id cfg)
     in (\<exists>info. get_service_info (fst k) (snd k) peer' = Some info \<and>
          si_major_version info = sc_major_version cfg \<and>
          si_minor_version info = sc_minor_version cfg \<and>
          si_ttl info = take_bit 24 (of_int (sc_ttl cfg)) \<and> si_last_update info = now') \<and>
        get_service_endpoints (fst k) (snd k) peer' = endpoints_of ntop os \<and>
        (\<forall>s i. (s, i) \<noteq> k \<longrightarrow> get_service_info s i peer' = get_service_info s i peer) \<and>
        actions = (case sd_availability_handler peer of None \<Rightarrow> []
          | Some f \<Rightarrow> if take_bit 24 (of_int (sc_ttl cfg) :: u32) = 0 then []
              else [Service_available f (fst k) (snd k) True]))"
proof -
  let ?e = "create_offer_service (sc_service_id cfg) (sc_instance_id cfg) (sc_major_version cfg)
      (sc_minor_version cfg) (of_int (sc_ttl cfg))"
  let ?m = "sd_notification SOMEIP_SD_METHOD_OFFER_SERVICE ?e"
  have "se_ok (se_type ?e)" by (simp add: create_offer_service_def)
  then have "entry_deserialize (payload_bytes ?m) 16 = Inr (Some (entry_view ?e))"
    using entry_codec.dec_enc_exact [of ?e] by simp
  moreover have "om_ok (sd_discovered_services peer)"
    using assms(2) by (simp add: sd_ok_def om_all_def)
  ultimately show ?thesis
    using assms(1)
    by (intro exI [of _ ?m] exI [of _ "entry_view ?e"] exI [of _ "fst (offer_service now cfg st)"])
      (auto simp: offer_service_def Let_def send_offer_service_def sd_send_def offered_info_def
        entry_view_def create_offer_service_def handle_offer_service_def update_service_info_def
        get_service_info_def get_service_endpoints_def om_get_put word_gt_0 split: option.split)
qed

theorem offer_discovered_witness:
  "\<exists>m e st1. offer_service 0 demo_config demo_offering =
     (st1, [Send_message 7 m (cf_multicast_address (sd_config demo_offering))
        (cf_port (sd_config demo_offering))]) \<and>
     entry_deserialize (payload_bytes m) 16 = Inr (Some e) \<and> se_type e = OFFER_SERVICE"
proof -
  have "sd_send_message_callback demo_offering = Some 7"
    by (simp add: demo_offering_def offer_service_def set_send_message_callback_def Let_def)
  from offer_discovered [OF this sd_ok_new [of default_config], of 0 demo_config raw_ntop 5 "[]"]
  show ?thesis by blast
qed

text \<open> C39: expiry is exact. \<open>check_ttl_expiration\<close> removes the discovered services last updated
  more than their TTL ago, in whole seconds, keeps the others unchanged, and reports each
  removed one as unavailable, once and in key order, when an availability handler is set;
  it touches nothing else. \<close>
theorem ttl_expiration_exact:
  assumes "sd_ok st" and "check_ttl_expiration now st = (st', actions)"
  shows "get_service_info s i st' =
      (case get_service_info s i st of
         None \<Rightarrow> None
       | Some info \<Rightarrow> if uint (si_ttl info) < to_seconds (now - si_last_update info) then None
                     else Some info) \<and>
    actions =
      (case sd_availability_handler st of
         None \<Rightarrow> []
       | Some f \<Rightarrow> map (\<lambda>info. Service_available f (si_service_id info) (si_instance_id info) False)
           (filter (\<lambda>info. uint (si_ttl info) < to_seconds (now - si_last_update info))
              (get_discovered_services st))) \<and>
    st'\<lparr>sd_discovered_services := sd_discovered_services st\<rparr> = st"
proof -
  have "om_ok (sd_discovered_services st)" using assms(1) by (simp add: sd_ok_def om_all_def)
  moreover have "map (\<lambda>(k, info). Service_available f (si_service_id info) (si_instance_id info)
        False) (filter (\<lambda>e. P (snd e)) m) =
      map (\<lambda>info. Service_available f (si_service_id info) (si_instance_id info) False)
        (filter P (map snd m))" for f P and m :: "(service_key, service_info) omap"
    by (induction m) auto
  ultimately show ?thesis
    using assms(2)
    by (auto simp: check_ttl_expiration_def expire_services_eq get_service_info_def
        om_get_filter_eq info_expired_def get_discovered_services_def
        split: option.splits)
qed

definition demo_discovered :: service_discovery where
  "demo_discovered = fst (handle_offer_service raw_ntop 0
     (create_offer_service 0x1234 1 1 0 3) []
     (set_service_available_handler (Some 9) (ServiceDiscovery default_config)))"

theorem ttl_expiration_exact_witness:
  "get_service_info 0x1234 1 (fst (check_ttl_expiration 4000000000 demo_discovered)) = None \<and>
   snd (check_ttl_expiration 4000000000 demo_discovered) = [Service_available 9 0x1234 1 False]"
proof -
  have ok: "sd_ok demo_discovered"
    unfolding demo_discovered_def by (simp add: inv_intros)
  have info: "get_discovered_services demo_discovered = [\<lparr>si_service_id = 0x1234,
      si_instance_id = 1, si_major_version = 1, si_minor_version = 0, si_ttl = 3,
      si_last_update = 0, si_endpoints = [], si_is_offered = True, si_is_local = False\<rparr>]"
    by (simp add: demo_discovered_def get_discovered_services_def handle_offer_service_def
        update_service_info_def create_offer_service_def new_entry_def Let_def
        set_service_available_handler_def ServiceDiscovery_def om_empty_def endpoints_of_def)
  have h: "sd_availability_handler demo_discovered = Some 9"
    by (simp add: demo_discovered_def handle_offer_service_def update_service_info_def Let_def
        set_service_available_handler_def)
  have g: "get_service_info 0x1234 1 demo_discovered = Some (hd (get_discovered_services demo_discovered))"
    by (simp add: demo_discovered_def get_discovered_services_def handle_offer_service_def
        update_service_info_def create_offer_service_def new_entry_def Let_def
        set_service_available_handler_def ServiceDiscovery_def om_empty_def endpoints_of_def
        get_service_info_def om_get_def)
  show ?thesis
    using ttl_expiration_exact [OF ok surjective_pairing, of "0x1234" 1 4000000000]
    by (simp add: g h info to_seconds_def duration_cast_def)
qed


section \<open>Subscriptions\<close>

lemma send_ack_eventgroups [simp]:
  "send_subscribe_eventgroup_ack (st\<lparr>sd_eventgroups := egs\<rparr>) = send_subscribe_eventgroup_ack st"
  by (intro ext) (simp add: send_subscribe_eventgroup_ack_def sd_send_def split: option.split)

lemma subscription_of_endpoints [simp]:
  "sub_endpoints (subscription_of ntop e os) = endpoints_of ntop os"
  by (simp add: subscription_of_def)

lemma add_subscribers_again:
  "set eps \<subseteq> set subs \<Longrightarrow> add_subscribers eps subs = subs"
  by (induction eps subs rule: add_subscribers.induct) auto

text \<open>An accepted subscription, and the same one again.\<close>

definition subscribed_group ::
    "(bytes \<Rightarrow> string) \<Rightarrow> service_entry \<Rightarrow> sd_option list \<Rightarrow> eventgroup_info \<Rightarrow> eventgroup_info" where
  "subscribed_group ntop e os eg = eg\<lparr>eg_service_id := se_service_id e,
     eg_instance_id := se_instance_id e, eg_eventgroup_id := get_eventgroup_id e,
     eg_major_version := se_major_version e,
     eg_subscribers := add_subscribers (endpoints_of ntop os) (eg_subscribers eg)\<rparr>"

lemma handle_subscribe_accepted:
  assumes "om_get (sd_local_services st) (se_service_id e, se_instance_id e) = Some service"
    and "case sd_subscription_handler st of None \<Rightarrow> True | Some f \<Rightarrow> f (subscription_of ntop e os)"
  shows "handle_subscribe_eventgroup ntop e os st =
    (st\<lparr>sd_eventgroups := om_put (se_service_id e, se_instance_id e, get_eventgroup_id e)
        (subscribed_group ntop e os
          (case om_get (sd_eventgroups st) (se_service_id e, se_instance_id e, get_eventgroup_id e) of
             None \<Rightarrow> fresh_eventgroup | Some eg \<Rightarrow> eg)) (sd_eventgroups st)\<rparr>,
     send_subscribe_eventgroup_ack st service (get_eventgroup_id e))"
  using assms by (simp add: handle_subscribe_eventgroup_def Let_def subscribed_group_def)

lemma subscribed_group_again:
  assumes "distinct (eg_subscribers eg)"
  shows "subscribed_group ntop e os (subscribed_group ntop e os eg) = subscribed_group ntop e os eg"
proof -
  have "add_subscribers (endpoints_of ntop os) (add_subscribers (endpoints_of ntop os) (eg_subscribers eg)) =
      add_subscribers (endpoints_of ntop os) (eg_subscribers eg)"
    by (rule add_subscribers_again) (use add_subscribers_eq [OF assms, of "endpoints_of ntop os"] in simp)
  then show ?thesis by (simp add: subscribed_group_def)
qed

text \<open> A subscription is recorded once and answered. When a subscribe entry names a local
  service and the subscription handler, if there is one, accepts, the endpoints of the
  options are appended to the subscribers of the eventgroup without duplicates, those
  already there keep their places, and one acknowledge is sent; handling the same entry
  again changes nothing more. When the handler refuses, nothing is stored and a negative
  acknowledge is sent; for a service that is not local nothing happens at all. \<close>
theorem subscribe_recorded:
  assumes "sd_ok st"
    and "handle_subscribe_eventgroup ntop e os st = (st', actions)"
  shows "case om_get (sd_local_services st) (se_service_id e, se_instance_id e) of
      None \<Rightarrow> st' = st \<and> actions = []
    | Some service \<Rightarrow>
        let accepted = (case sd_subscription_handler st of None \<Rightarrow> True
              | Some f \<Rightarrow> f (subscription_of ntop e os));
            old = get_subscribers (se_service_id e) (se_instance_id e) (get_eventgroup_id e) st;
            new = get_subscribers (se_service_id e) (se_instance_id e) (get_eventgroup_id e) st'
        in if accepted then
             set new = set old \<union> set (endpoints_of ntop os) \<and> distinct new \<and>
             take (length old) new = old \<and>
             actions = send_subscribe_eventgroup_ack st service (get_eventgroup_id e) \<and>
             fst (handle_subscribe_eventgroup ntop e os st') = st'
           else st' = st \<and>
             actions = send_subscribe_eventgroup_nack st service (get_eventgroup_id e)"
proof (cases "om_get (sd_local_services st) (se_service_id e, se_instance_id e)")
  case None
  then show ?thesis using assms(2) by (simp add: handle_subscribe_eventgroup_def)
next
  case (Some service)
  let ?k = "(se_service_id e, se_instance_id e, get_eventgroup_id e)"
  let ?acc = "case sd_subscription_handler st of None \<Rightarrow> True | Some f \<Rightarrow> f (subscription_of ntop e os)"
  let ?old = "get_subscribers (se_service_id e) (se_instance_id e) (get_eventgroup_id e) st"
  let ?new = "add_subscribers (endpoints_of ntop os) ?old"
  let ?prev = "case om_get (sd_eventgroups st) ?k of None \<Rightarrow> fresh_eventgroup | Some eg \<Rightarrow> eg"
  let ?eg = "subscribed_group ntop e os ?prev"
  have om: "om_ok (sd_eventgroups st)" using assms(1) by (simp add: sd_ok_def om_all_def)
  have old: "eg_subscribers ?prev = ?old"
    by (simp add: get_subscribers_def fresh_eventgroup_def split: option.split)
  have dist: "distinct ?old"
    using assms(1) by (auto simp: sd_ok_def get_subscribers_def eventgroup_ok_def
        dest: om_all_get split: option.split)
  show ?thesis
  proof (cases ?acc)
    case False
    then show ?thesis using assms(2) Some by (auto simp: handle_subscribe_eventgroup_def Let_def)
  next
    case True
    note acc = handle_subscribe_accepted [OF Some True]
    have st': "st' = st\<lparr>sd_eventgroups := om_put ?k ?eg (sd_eventgroups st)\<rparr>"
      and act: "actions = send_subscribe_eventgroup_ack st service (get_eventgroup_id e)"
      using assms(2) acc by simp_all
    have subs: "eg_subscribers ?eg = ?new" by (simp add: subscribed_group_def old)
    have "get_subscribers (se_service_id e) (se_instance_id e) (get_eventgroup_id e) st' = eg_subscribers ?eg"
      by (simp add: get_subscribers_def st' om_get_put om)
    then have new: "get_subscribers (se_service_id e) (se_instance_id e) (get_eventgroup_id e) st' = ?new"
      by (simp only: subs)
    have "fst (handle_subscribe_eventgroup ntop e os st') = st'"
      using handle_subscribe_accepted [of st' e service ntop os] Some True
        subscribed_group_again [of ?prev ntop e os] dist old
      by (simp add: st' om_get_put om std_map.put_put [OF om])
    then show ?thesis
      using Some True new act add_subscribers_eq [OF dist, of "endpoints_of ntop os"]
      by (auto simp: Let_def)
  qed
qed

theorem subscribe_recorded_witness:
  "get_subscribers 0x1234 1 5
     (fst (handle_subscribe_eventgroup raw_ntop (create_subscribe_eventgroup 0x1234 1 5 1 3)
        [IPv4EndpointOption [65, 66, 67, 68] 9 UDP] demo_offering)) \<noteq> []"
proof -
  let ?e = "create_subscribe_eventgroup 0x1234 1 5 1 3"
  have ids: "se_service_id ?e = 0x1234" "se_instance_id ?e = 1" "get_eventgroup_id ?e = 5"
    by (simp_all add: create_subscribe_eventgroup_def get_eventgroup_id_def)
  have "sd_ok demo_offering" by (rule sd_reach_ok [OF demo_offering_reach])
  from subscribe_recorded [OF this surjective_pairing, of raw_ntop ?e
      "[IPv4EndpointOption [65, 66, 67, 68] 9 UDP]"]
  have "set (get_subscribers 0x1234 1 5
     (fst (handle_subscribe_eventgroup raw_ntop ?e
        [IPv4EndpointOption [65, 66, 67, 68] 9 UDP] demo_offering))) \<noteq> {}"
    unfolding ids by (simp add: demo_offering_def demo_config_def offer_service_def Let_def
        set_send_message_callback_def ServiceDiscovery_def om_get_def om_empty_def endpoints_of_def)
  then show ?thesis by simp
qed

text \<open> Subscriptions are retried without end. In a reachable state every worker turn sends
  one subscribe message for each pending subscription, in order, however often it has
  been sent before: the retry counter the code compares with the maximum is never
  incremented. Only an acknowledge entry, a negative one as well, or \<open>unsubscribe\<close> for
  the same ids ends it, and it then leaves the other subscriptions alone. \<close>
theorem subscriptions_retried:
  assumes "sd_reach pton ntop config st" and "0 < cf_repetition_max (sd_config st)"
    and "e = create_subscribe_eventgroup_ack s i g v t \<or> e = create_subscribe_eventgroup_nack s i g"
  shows "retry_pending_subscriptions st =
      concat (map (send_subscribe_eventgroup st) (sd_pending_subscriptions st)) \<and>
    sd_pending_subscriptions (handle_subscribe_eventgroup_ack e st) =
      filter (\<lambda>sub. \<not> (ps_service_id sub = s \<and> ps_instance_id sub = i \<and> ps_eventgroup_id sub = g))
        (sd_pending_subscriptions st) \<and>
    handle_subscribe_eventgroup_ack e st = unsubscribe_eventgroup s i g st"
proof -
  have "\<forall>sub \<in> set (sd_pending_subscriptions st). ps_retry_count sub = 0"
    using sd_reach_ok [OF assms(1)] by (simp add: sd_ok_def)
  then have "retry_pending_subscriptions st =
      concat (map (send_subscribe_eventgroup st) (sd_pending_subscriptions st))"
    unfolding retry_pending_subscriptions_def
    by (intro arg_cong [where f = concat] map_cong) (use assms(2) in auto)
  moreover have "se_service_id e = s" "se_instance_id e = i" "get_eventgroup_id e = g"
    using assms(3)
    by (auto simp: create_subscribe_eventgroup_ack_def create_subscribe_eventgroup_nack_def
        get_eventgroup_id_def eventgroup_of_minor new_entry_def)
  ultimately show ?thesis
    by (simp add: handle_subscribe_eventgroup_ack_def unsubscribe_eventgroup_def ps_matches_def)
qed

theorem subscriptions_retried_witness:
  "retry_pending_subscriptions (ServiceDiscovery default_config) = []"
  using subscriptions_retried [OF sd_reach_new, of default_config
      "create_subscribe_eventgroup_nack 1 2 3" 1 2 3]
  by (simp add: ServiceDiscovery_def default_config_def)

section \<open>What the senders put on the wire\<close>

text \<open>Every message the object sends is a notification around one bare entry.\<close>

definition sd_sent :: "sd_action \<Rightarrow> bool" where
  "sd_sent a \<longleftrightarrow> (\<forall>cb m address port. a = Send_message cb m address port \<longrightarrow>
     (\<exists>method e. m = sd_notification method e \<and>
        method \<in> {SOMEIP_SD_METHOD_FIND_SERVICE, SOMEIP_SD_METHOD_OFFER_SERVICE,
          SOMEIP_SD_METHOD_SUBSCRIBE_EVENTGROUP, SOMEIP_SD_METHOD_SUBSCRIBE_EVENTGROUP_ACK,
          SOMEIP_SD_METHOD_SUBSCRIBE_EVENTGROUP_NACK}))"

lemma senders_sent:
  "a \<in> set (send_find_service st s i) \<Longrightarrow> sd_sent a"
  "a \<in> set (send_offer_service st info) \<Longrightarrow> sd_sent a"
  "a \<in> set (send_subscribe_eventgroup st sub) \<Longrightarrow> sd_sent a"
  "a \<in> set (send_subscribe_eventgroup_ack st info g) \<Longrightarrow> sd_sent a"
  "a \<in> set (send_subscribe_eventgroup_nack st info g) \<Longrightarrow> sd_sent a"
  by (auto simp: sd_sent_def send_find_service_def send_offer_service_def
      send_subscribe_eventgroup_def send_subscribe_eventgroup_ack_def
      send_subscribe_eventgroup_nack_def sd_send_cases Let_def)

lemma sd_sent_available [simp]: "sd_sent (Service_available f s i b)"
  by (simp add: sd_sent_def)

lemma handle_entry_sent: "a \<in> set (snd (handle_entry ntop now os e st)) \<Longrightarrow> sd_sent a"
  by (auto simp: handle_entry_def handle_find_service_def handle_offer_service_def
      handle_subscribe_eventgroup_def Let_def
      split: sd_entry_type.splits option.splits if_splits intro: senders_sent)

lemma handle_entries_sent: "a \<in> set (snd (handle_entries ntop now os es st)) \<Longrightarrow> sd_sent a"
  by (induction es arbitrary: st) (auto simp: split_beta dest: handle_entry_sent)

lemma worker_turn_sent: "a \<in> set (snd (snd (worker_turn t1 t2 t3 st))) \<Longrightarrow> sd_sent a"
  by (auto simp: worker_turn_def Let_def check_ttl_expiration_def expire_services_eq
      send_periodic_offers_def retry_pending_subscriptions_def
      split: option.splits if_splits prod.splits intro: senders_sent)

lemma sd_step_sent:
  assumes "sd_step pton ntop e st = Inr (st', actions)" and "a \<in> set actions"
  shows "sd_sent a"
proof (cases e)
  case (Ev_receive now m)
  then show ?thesis
    using process_sd_message_state [of pton ntop now m st st' actions] assms
    by (metis empty_iff empty_set handle_entries_sent sd_step.simps(15) snd_conv)
next
  case (Ev_worker t1 t2 t3)
  then show ?thesis using assms worker_turn_sent [of a t1 t2 t3 st] by auto
qed (use assms in \<open>auto simp: offer_service_def stop_offer_service_def find_service_def Let_def
       split: option.splits intro: senders_sent\<close>)

lemma be32_halves:
  "be32 (ucast (drop_bit 8 (a :: u16))) (ucast (a AND 0xFF)) (ucast (drop_bit 8 (b :: u16)))
     (ucast (b AND 0xFF)) = push_bit 16 (ucast a) OR ucast b"
  unfolding be32_def mask_byte
  apply (rule bit_word_eqI)
  subgoal for n
    by (cases "n < 8"; cases "n < 16"; cases "n < 24") (auto simp: bit_simps u16_no_high_bit)
  done

lemma high_half_large:
  fixes a b :: u16
  assumes "a \<noteq> 0"
  shows "65536 \<le> unat (push_bit 16 (ucast a) OR ucast b :: u32)"
proof -
  let ?w = "push_bit 16 (ucast a) OR ucast b :: u32"
  have "(ucast (drop_bit 16 ?w) :: u16) = a" by (rule split_u16_u32)
  then have "drop_bit 16 ?w \<noteq> 0" using assms by auto
  then have "unat (drop_bit 16 ?w) \<noteq> 0" by (simp add: unat_eq_zero)
  then have "unat ?w div 65536 \<noteq> 0"
    by (simp add: drop_bit_eq_div unat_div del: drop_bit_or)
  then show ?thesis by (simp add: div_eq_0_iff not_less)
qed

text \<open> C36: the library does not understand its own service discovery messages. Whatever a
  service discovery object sends in any step carries a method id with the event bit, never
  the id 0x8100 a receiver routes to service discovery, and as payload one bare 16-byte
  entry; given to \<open>process_sd_message\<close> after the trip over the wire, the service and
  instance ids are taken for the length of the entries array and the message is dropped
  without any effect, for every service id but 0. \<close>
theorem sd_messages_not_understood:
  assumes "sd_step pton ntop ev st = Inr (st', actions)"
    and "Send_message cb m address port \<in> set actions"
  shows "m_method_id m \<noteq> SOMEIP_SD_METHOD_ID \<and> m_method_id m AND 0x8000 \<noteq> 0 \<and>
    (\<exists>e. payload_bytes m = entry_serialize e \<and>
       (se_service_id e \<noteq> 0 \<longrightarrow>
          process_sd_message pton ntop now (wire_view m) peer = Inr (peer, [])))"
proof -
  obtain mth e where m: "m = sd_notification mth e"
    and mth: "mth \<in> {SOMEIP_SD_METHOD_FIND_SERVICE, SOMEIP_SD_METHOD_OFFER_SERVICE,
          SOMEIP_SD_METHOD_SUBSCRIBE_EVENTGROUP, SOMEIP_SD_METHOD_SUBSCRIBE_EVENTGROUP_ACK,
          SOMEIP_SD_METHOD_SUBSCRIBE_EVENTGROUP_NACK}"
    using sd_step_sent [OF assms] by (auto simp: sd_sent_def)
  have mid: "m_method_id m = mth OR 0x8000"
    by (simp add: m sd_notification_def create_notification_def set_payload_def)
  have ids: "m_method_id m \<noteq> SOMEIP_SD_METHOD_ID \<and> m_method_id m AND 0x8000 \<noteq> 0"
    using mth unfolding mid
    by (auto simp: SOMEIP_SD_METHOD_ID_def SOMEIP_SD_METHOD_FIND_SERVICE_def
        SOMEIP_SD_METHOD_OFFER_SERVICE_def SOMEIP_SD_METHOD_SUBSCRIBE_EVENTGROUP_def
        SOMEIP_SD_METHOD_SUBSCRIBE_EVENTGROUP_ACK_def
        SOMEIP_SD_METHOD_SUBSCRIBE_EVENTGROUP_NACK_def)
  have "process_sd_message pton ntop now (wire_view m) peer = Inr (peer, [])"
    if "se_service_id e \<noteq> 0"
  proof -
    let ?d = "entry_serialize e"
    have "65536 \<le> unat (be32 (?d ! 4) (?d ! 5) (?d ! 6) (?d ! 7))"
      using high_half_large [OF that, of "se_instance_id e"]
      by (simp add: entry_serialize_def be32_halves)
    moreover have "rd32 ?d 4 = Inr (be32 (?d ! 4) (?d ! 5) (?d ! 6) (?d ! 7))"
      by (simp add: rd_simps)
    moreover have "rd ?d 0 = Inr (?d ! 0)" by (rule rd_ok) simp
    ultimately show ?thesis
      by (simp add: process_sd_message_def wire_view_def m payload_of_def payload_size_def Let_def
          chunk_loop_stop ENTRY_SIZE_def)
  qed
  then show ?thesis using ids m by auto
qed

theorem sd_messages_not_understood_witness:
  "\<exists>m. snd (find_service 0 0x1234 1 demo_offering) =
      [Send_message 7 m (cf_multicast_address (sd_config demo_offering))
         (cf_port (sd_config demo_offering))] \<and> m_method_id m \<noteq> SOMEIP_SD_METHOD_ID"
proof -
  have acts: "snd (find_service 0 0x1234 1 demo_offering) =
      [Send_message 7 (sd_notification SOMEIP_SD_METHOD_FIND_SERVICE (create_find_service 0x1234 1))
         (cf_multicast_address (sd_config demo_offering)) (cf_port (sd_config demo_offering))]"
    by (simp add: find_service_def send_find_service_def sd_send_def demo_offering_def
        offer_service_def set_send_message_callback_def Let_def)
  have "sd_step raw_pton raw_ntop (Ev_find 0 0x1234 1) demo_offering =
      Inr (fst (find_service 0 0x1234 1 demo_offering), snd (find_service 0 0x1234 1 demo_offering))"
    by simp
  from sd_messages_not_understood [OF this, unfolded acts] show ?thesis
    using acts by auto
qed

end
