(* ===== verification/Runtime.thy ===== *)
theory Runtime
  imports TpReassembler SdProcess Tcp ShmAgent
begin

text \<open>
  \<open>runtime.h\<close> and \<open>runtime.cpp\<close>: the object that owns the transports, the service discovery and
  the reassembler, sends messages, segmented where needed, and routes what it receives. The
  handlers of the services are tokens, and a call of one is an \<open>rt_action\<close>; an empty
  \<open>std::function\<close> is \<open>None\<close>. The shared memory agent is made and connected by \<open>init\<close>; what the
  library \<open>shm\<close> returns for a name is an argument, as is the random client id.
\<close>

section \<open>State\<close>

record runtime_config =
  rc_name :: string
  rc_address :: string
  rc_udp_port :: u16
  rc_tcp_port :: u16
  rc_enable_sd :: bool
  rc_shm_name :: string
  rc_sd_config :: sd_config

definition default_runtime_config :: runtime_config where
  "default_runtime_config = \<lparr>rc_name = '''', rc_address = ''127.0.0.1'', rc_udp_port = 0,
     rc_tcp_port = 0, rc_enable_sd = True, rc_shm_name = '''', rc_sd_config = default_config\<rparr>"

record runtime =
  rt_config :: runtime_config
  rt_client_id :: u16
  rt_udp_transport :: udp_transport
  rt_tcp_transport :: tcp_transport
  rt_service_discovery :: "service_discovery option"
  rt_tp_reassembler :: reassembler
  rt_shm_agent :: "shm_agent option"
  rt_service_handlers :: "service_id_tuple \<rightharpoonup> handler option"
  rt_initialized :: bool
  rt_running :: bool

datatype rt_action =
    Rt_handler handler message
  | Rt_sd sd_action

text \<open>Tokens for the three lambdas \<open>init\<close> installs in the transports.\<close>

definition ON_UDP :: handler where "ON_UDP = 1"
definition ON_TCP :: handler where "ON_TCP = 2"
definition ON_TCP_CONNECTION :: handler where "ON_TCP_CONNECTION = 3"

definition Runtime :: "runtime_config \<Rightarrow> u16 \<Rightarrow> runtime" where
  "Runtime config client_id = \<lparr>rt_config = config, rt_client_id = client_id,
     rt_udp_transport = UdpTransport, rt_tcp_transport = TcpTransport,
     rt_service_discovery = None, rt_tp_reassembler = TpReassembler 5000, rt_shm_agent = None,
     rt_service_handlers = Map.empty, rt_initialized = False, rt_running = False\<rparr>"

section \<open>Life cycle\<close>

definition rt_init ::
    "'w os \<Rightarrow> (string \<Rightarrow> (bytes option \<times> nat \<times> int) option) \<Rightarrow> runtime \<Rightarrow> 'w \<Rightarrow>
     bool \<times> runtime \<times> 'w" where
  "rt_init os attach rt w =
     (if rt_initialized rt then (True, rt, w)
      else
        let config = rt_config rt;
            (udp_ok, udp, w) = udp_init os (rc_address config) (rc_udp_port config) UdpTransport w;
            rt = rt\<lparr>rt_initialized := True, rt_udp_transport := udp\<rparr>
        in if \<not> udp_ok then (False, rt, w)
           else
             let (tcp_ok, tcp, w) =
                   tcp_listen os (rc_address config) (rc_tcp_port config) TcpTransport w;
                 rt = rt\<lparr>rt_tcp_transport := tcp\<rparr>
             in if \<not> tcp_ok then (False, rt, w)
                else
                  let udp = udp_set_message_received_callback (Some ON_UDP) udp;
                      tcp = tcp_set_connection_callback (Some ON_TCP_CONNECTION)
                        (tcp_set_message_received_callback (Some ON_TCP) tcp);
                      rt = rt\<lparr>rt_udp_transport := udp, rt_tcp_transport := tcp,
                        rt_service_discovery :=
                          (if rc_enable_sd config
                           then Some (sd_init (rc_address config) (ut_local_port udp)
                             (Some (tt_local_port tcp)) (ServiceDiscovery (rc_sd_config config)))
                           else rt_service_discovery rt),
                        rt_tp_reassembler := TpReassembler 5000,
                        rt_shm_agent :=
                          (if rc_shm_name config = '''' then rt_shm_agent rt
                           else Some (snd (shm_connect (attach (rc_shm_name config))
                             (set_client_id (ucast (rt_client_id rt)) ShmAgent))))\<rparr>;
                      w = (if rc_enable_sd config
                           then snd (udp_join_multicast os
                             (cf_multicast_address (rc_sd_config config)) (rc_address config) udp w)
                           else w)
                  in (True, rt, w))"

definition rt_start :: "runtime \<Rightarrow> runtime" where
  "rt_start rt =
     (if rt_running rt then rt
      else rt\<lparr>rt_running := True,
        rt_udp_transport := snd (udp_start (rt_udp_transport rt)),
        rt_tcp_transport := snd (tcp_start (rt_tcp_transport rt)),
        rt_service_discovery :=
          map_option (\<lambda>sd. snd (sd_start sd)) (rt_service_discovery rt)\<rparr>)"

text \<open>
  A \<open>stop\<close> that returns: with a connection in the table of the TCP transport it does not
  (\<open>tcp_stop_returns\<close>). \<open>order\<close> is the order of that table.
\<close>

definition rt_stop :: "'w os \<Rightarrow> u32 list \<Rightarrow> runtime \<Rightarrow> 'w \<Rightarrow> runtime \<times> 'w" where
  "rt_stop os order rt w =
     (if \<not> rt_running rt then (rt, w)
      else
        let sd = map_option sd_stop (rt_service_discovery rt);
            (udp, w) = udp_stop os (rt_udp_transport rt) w;
            (tcp, w) = tcp_stop os order (rt_tcp_transport rt) w
        in (rt\<lparr>rt_running := False, rt_service_discovery := sd, rt_udp_transport := udp,
              rt_tcp_transport := tcp\<rparr>, w))"

definition register_service_handler :: "u16 \<Rightarrow> u16 \<Rightarrow> handler option \<Rightarrow> runtime \<Rightarrow> runtime" where
  "register_service_handler service instance h rt = rt\<lparr>rt_service_handlers :=
     hm_put (ServiceIdTuple service instance) h (rt_service_handlers rt)\<rparr>"

definition unregister_service_handler :: "u16 \<Rightarrow> u16 \<Rightarrow> runtime \<Rightarrow> runtime" where
  "unregister_service_handler service instance rt = rt\<lparr>rt_service_handlers :=
     hm_del (ServiceIdTuple service instance) (rt_service_handlers rt)\<rparr>"

section \<open>Sending\<close>

text \<open>One message on the transport the flag selects.\<close>

definition rt_send_one ::
    "'w os \<Rightarrow> message \<Rightarrow> string \<Rightarrow> u16 \<Rightarrow> bool \<Rightarrow> runtime \<Rightarrow> 'w \<Rightarrow> bool \<times> runtime \<times> 'w" where
  "rt_send_one os m address port reliable rt w =
     (if reliable then
        let (sent, tcp, actions, w) = tcp_send_to_endpoint os address port m (rt_tcp_transport rt) w
        in (sent, rt\<lparr>rt_tcp_transport := tcp\<rparr>, w)
      else
        let (sent, w) = udp_send_to os m address port (rt_udp_transport rt) w in (sent, rt, w))"

text \<open>The loop over the segments, which stops at the first one that is not sent.\<close>

fun rt_send_segments ::
    "'w os \<Rightarrow> message list \<Rightarrow> string \<Rightarrow> u16 \<Rightarrow> bool \<Rightarrow> runtime \<Rightarrow> 'w \<Rightarrow> bool \<times> runtime \<times> 'w" where
  "rt_send_segments os [] address port reliable rt w = (True, rt, w)"
| "rt_send_segments os (s # segments) address port reliable rt w =
     (let (sent, rt, w) = rt_send_one os s address port reliable rt w in
      if \<not> sent then (False, rt, w) else rt_send_segments os segments address port reliable rt w)"

definition send_message ::
    "'w os \<Rightarrow> message \<Rightarrow> string \<Rightarrow> u16 \<Rightarrow> bool \<Rightarrow> runtime \<Rightarrow> 'w \<Rightarrow> fault + bool \<times> runtime \<times> 'w" where
  "send_message os m address port reliable rt w =
     (let n = (case m_payload m of None \<Rightarrow> 0 | Some p \<Rightarrow> payload_size p);
          max_segment_size = (if reliable then TCP_SEGMENT_SIZE else UDP_SEGMENT_SIZE)
      in if needs_segmentation n max_segment_size then
           rbind (segment m max_segment_size) (\<lambda>segments.
             if segments = [] then Inr (False, rt, w)
             else Inr (rt_send_segments os segments address port reliable rt w))
         else Inr (rt_send_one os m address port reliable rt w))"

section \<open>Receiving\<close>

text \<open>The reassembly both handlers start with: the message to go on with, if there is one.\<close>

definition reassembled :: "time_point \<Rightarrow> message \<Rightarrow> runtime \<Rightarrow> message option \<times> runtime" where
  "reassembled now m rt =
     (if is_tp_message m then
        let request_id = get_request_id m;
            (complete, ra) = add_segment now (Some m) (rt_tp_reassembler rt)
        in if complete then
             let (result, ra) = reassemble request_id ra
             in (result, rt\<lparr>rt_tp_reassembler := ra\<rparr>)
           else (None, rt\<lparr>rt_tp_reassembler := ra\<rparr>)
      else (Some m, rt))"

definition route :: "message \<Rightarrow> runtime \<Rightarrow> rt_action list" where
  "route m rt =
     (case rt_service_handlers rt (ServiceIdTuple (m_service_id m) (m_instance_id m)) of
        Some (Some h) \<Rightarrow> [Rt_handler h m]
      | _ \<Rightarrow> [])"

definition on_udp_message_received ::
    "(string \<Rightarrow> bytes option) \<Rightarrow> (bytes \<Rightarrow> string) \<Rightarrow> time_point \<Rightarrow> message \<Rightarrow> runtime \<Rightarrow>
     fault + runtime \<times> rt_action list" where
  "on_udp_message_received pton ntop now m rt =
     (case reassembled now m rt of
        (None, rt) \<Rightarrow> Inr (rt, [])
      | (Some m, rt) \<Rightarrow>
          if m_service_id m = SOMEIP_SD_SERVICE_ID \<and> m_method_id m = SOMEIP_SD_METHOD_ID then
            (case rt_service_discovery rt of
               None \<Rightarrow> Inr (rt, [])
             | Some sd \<Rightarrow>
                 rbind (process_sd_message pton ntop now m sd) (\<lambda>(sd, actions).
                   Inr (rt\<lparr>rt_service_discovery := Some sd\<rparr>, map Rt_sd actions)))
          else Inr (rt, route m rt))"

definition on_tcp_message_received ::
    "time_point \<Rightarrow> message \<Rightarrow> u32 \<Rightarrow> runtime \<Rightarrow> runtime \<times> rt_action list" where
  "on_tcp_message_received now m connection_id rt =
     (case reassembled now m rt of
        (None, rt) \<Rightarrow> (rt, [])
      | (Some m, rt) \<Rightarrow> (rt, route m rt))"

definition on_tcp_connection :: "u32 \<Rightarrow> bool \<Rightarrow> runtime \<Rightarrow> runtime" where
  "on_tcp_connection connection_id connected rt = rt"

section \<open>The default runtime\<close>

text \<open>
  The static members: the weak reference and which runtimes still have an owner. \<open>get\<close> and
  \<open>create\<close> return a runtime the caller owns; \<open>created\<close> says whether \<open>init\<close> succeeds. The local
  \<open>shared_ptr\<close> of \<open>set_default\<close> is the only owner of the runtime it makes and dies with the call.
\<close>

record runtime_statics =
  rs_default_runtime :: "nat option"
  rs_owned :: "nat set"
  rs_made :: nat

definition rs_create :: "bool \<Rightarrow> runtime_statics \<Rightarrow> nat option \<times> runtime_statics" where
  "rs_create created s =
     (if created then
        (Some (rs_made s), s\<lparr>rs_owned := insert (rs_made s) (rs_owned s), rs_made := rs_made s + 1\<rparr>)
      else (None, s))"

definition rs_get :: "bool \<Rightarrow> runtime_statics \<Rightarrow> nat option \<times> runtime_statics" where
  "rs_get created s =
     (case rs_default_runtime s of
        Some r \<Rightarrow>
          if r \<in> rs_owned s then (Some r, s)
          else let (r', s) = rs_create created s in (r', s\<lparr>rs_default_runtime := r'\<rparr>)
      | None \<Rightarrow> let (r', s) = rs_create created s in (r', s\<lparr>rs_default_runtime := r'\<rparr>))"

definition rs_set_default :: "bool \<Rightarrow> runtime_statics \<Rightarrow> runtime_statics" where
  "rs_set_default created s =
     (let (r, s) = rs_create created s in
      case r of
        None \<Rightarrow> s
      | Some r \<Rightarrow> s\<lparr>rs_default_runtime := Some r, rs_owned := rs_owned s - {r}\<rparr>)"


section \<open>Sending over UDP\<close>

text \<open>A socket whose datagrams are logged, each sent whole.\<close>

definition dgram_send :: "'w os \<Rightarrow> int \<Rightarrow> ('w \<Rightarrow> (bytes \<times> bytes \<times> u16) list) \<Rightarrow> bool" where
  "dgram_send os fd log \<longleftrightarrow>
     (\<forall>d a p w. \<exists>w'. os_sendto os fd d a p w = (int (length d), w') \<and> log w' = log w @ [(d, a, p)])"

lemma udp_send_logged:
  assumes "dgram_send os (ut_socket_fd ut) log" and "0 \<le> ut_socket_fd ut"
    and "os_pton os address = Some a"
  shows "\<exists>w'. udp_send_to os m address port ut w = (True, w') \<and>
    log w' = log w @ [(serialize m, a, port)]"
proof -
  obtain w' where "os_sendto os (ut_socket_fd ut) (serialize m) a port w =
      (int (length (serialize m)), w')" "log w' = log w @ [(serialize m, a, port)]"
    using assms(1) unfolding dgram_send_def by blast
  then show ?thesis using assms(2,3) by (simp add: udp_send_to_def udp_send_bytes_def)
qed

text \<open>
  A socket whose datagrams either go out whole or not at all; every attempt is logged with its
  outcome.
\<close>

definition dgram_tries :: "'w os \<Rightarrow> int \<Rightarrow> ('w \<Rightarrow> (bytes \<times> bytes \<times> u16 \<times> bool) list) \<Rightarrow> bool" where
  "dgram_tries os fd log \<longleftrightarrow>
     (\<forall>d a p w. \<exists>r w'. os_sendto os fd d a p w = (r, w') \<and> (r = int (length d) \<or> r = -1) \<and>
        log w' = log w @ [(d, a, p, r = int (length d))])"

lemma udp_send_tried:
  assumes "dgram_tries os (ut_socket_fd ut) log" and "0 \<le> ut_socket_fd ut"
    and "os_pton os address = Some a"
  obtains ok w' where "udp_send_to os m address port ut w = (ok, w')"
    and "log w' = log w @ [(serialize m, a, port, ok)]"
proof -
  obtain r w' where "os_sendto os (ut_socket_fd ut) (serialize m) a port w = (r, w')"
      "log w' = log w @ [(serialize m, a, port, r = int (length (serialize m)))]"
    using assms(1) unfolding dgram_tries_def by blast
  then show thesis using assms(2,3) that by (simp add: udp_send_to_def udp_send_bytes_def)
qed

text \<open>The attempts of a loop that stops at the first failure, after \<open>k\<close> successes.\<close>

definition attempts :: "message list \<Rightarrow> nat \<Rightarrow> bytes \<Rightarrow> u16 \<Rightarrow> (bytes \<times> bytes \<times> u16 \<times> bool) list" where
  "attempts ms k a port = map (\<lambda>m. (serialize m, a, port, True)) (take k ms) @
     (if k < length ms then [(serialize (ms ! k), a, port, False)] else [])"

lemma rt_send_segments_tried:
  assumes "dgram_tries os (ut_socket_fd (rt_udp_transport rt)) log"
    and "0 \<le> ut_socket_fd (rt_udp_transport rt)" and "os_pton os address = Some a"
  shows "\<exists>k w'. k \<le> length segs \<and>
    rt_send_segments os segs address port False rt w = (k = length segs, rt, w') \<and>
    log w' = log w @ attempts segs k a port"
proof (induction segs arbitrary: w)
  case Nil
  show ?case by (simp add: attempts_def)
next
  case (Cons s segs)
  obtain ok w1 where w1: "udp_send_to os s address port (rt_udp_transport rt) w = (ok, w1)"
    "log w1 = log w @ [(serialize s, a, port, ok)]"
    by (rule udp_send_tried [OF assms])
  show ?case
  proof (cases ok)
    case False
    then show ?thesis using w1 by (intro exI [of _ 0]) (simp add: rt_send_one_def attempts_def)
  next
    case True
    obtain k w' where k: "k \<le> length segs"
      "rt_send_segments os segs address port False rt w1 = (k = length segs, rt, w')"
      "log w' = log w1 @ attempts segs k a port"
      using Cons.IH [of w1] by blast
    then show ?thesis using w1 True
      by (intro exI [of _ "Suc k"] exI [of _ w']) (simp add: rt_send_one_def attempts_def)
  qed
qed

section \<open>Receiving runs\<close>

text \<open>The messages the UDP transport hands over, one after the other.\<close>

fun on_udp_all ::
    "(string \<Rightarrow> bytes option) \<Rightarrow> (bytes \<Rightarrow> string) \<Rightarrow> (time_point \<times> message) list \<Rightarrow> runtime \<Rightarrow>
     fault + runtime \<times> rt_action list" where
  "on_udp_all pton ntop [] rt = Inr (rt, [])"
| "on_udp_all pton ntop ((now, m) # ms) rt =
     rbind (on_udp_message_received pton ntop now m rt) (\<lambda>(rt, actions).
     rbind (on_udp_all pton ntop ms rt) (\<lambda>(rt, actions'). Inr (rt, actions @ actions')))"

text \<open>A reassembler that has only seen segments with data.\<close>

definition data_only :: "reassembler \<Rightarrow> bool" where
  "data_only r \<longleftrightarrow> ra_ok r \<and> segs_all (\<lambda>d. d \<noteq> []) r"

lemma data_only_new [simp]: "data_only (TpReassembler t)"
  by (simp add: data_only_def ra_ok_empty segs_all_empty)

lemma data_only_add:
  assumes "data_only r" and "4 < length (payload_bytes m)"
  shows "data_only (snd (add_segment now (Some m) r)) \<and> \<not> fst (add_segment now (Some m) r)"
proof -
  have d: "data_only (snd (add_segment now (Some m) r))"
    using assms segs_all_step [of r "\<lambda>d. d \<noteq> []" "Add_segment now (Some m)"]
    by (auto simp: data_only_def intro: add_segment_ok)
  have "\<not> is_complete_unlocked (get_request_id m) (snd (add_segment now (Some m) r))"
    by (rule no_empty_never_complete) (use d in \<open>simp_all add: data_only_def\<close>)
  then show ?thesis using d by (auto simp: add_segment_eq Let_def)
qed

lemma tp_data_ignored:
  assumes "is_tp_message m" and "4 < length (payload_bytes m)"
    and "data_only (rt_tp_reassembler rt)"
  shows "\<exists>ra. reassembled now m rt = (None, rt\<lparr>rt_tp_reassembler := ra\<rparr>) \<and> data_only ra"
  using data_only_add [OF assms(3,2), of now] assms(1)
  by (auto simp: reassembled_def split: prod.split)

lemma on_udp_all_tp:
  assumes "\<forall>(now, m) \<in> set ms. is_tp_message m \<and> 4 < length (payload_bytes m)"
    and "data_only (rt_tp_reassembler rt)"
  shows "\<exists>ra. on_udp_all pton ntop ms rt = Inr (rt\<lparr>rt_tp_reassembler := ra\<rparr>, [])"
  using assms
proof (induction ms arbitrary: rt)
  case Nil
  show ?case by (intro exI [of _ "rt_tp_reassembler rt"]) simp
next
  case (Cons x ms)
  obtain now m where x: "x = (now, m)" by (cases x)
  obtain ra where ra: "reassembled now m rt = (None, rt\<lparr>rt_tp_reassembler := ra\<rparr>)" "data_only ra"
    using tp_data_ignored [of m rt now] Cons.prems by (auto simp: x)
  then obtain ra' where "on_udp_all pton ntop ms (rt\<lparr>rt_tp_reassembler := ra\<rparr>) =
      Inr (rt\<lparr>rt_tp_reassembler := ra\<rparr>\<lparr>rt_tp_reassembler := ra'\<rparr>, [])"
    using Cons.IH [of "rt\<lparr>rt_tp_reassembler := ra\<rparr>"] Cons.prems by auto
  then show ?case using ra(1) by (auto simp: x on_udp_message_received_def)
qed

section \<open>Properties\<close>

text \<open>What \<open>send_message\<close> hands to the transport: the message or its segments.\<close>

lemma send_message_parts:
  assumes "length (payload_bytes m) < 2 ^ 63"
  obtains ms where "(if length (payload_bytes m) \<le> 1392 then ms = [m]
     else case tp_type_of (m_message_type m) of
       None \<Rightarrow> ms = []
     | Some t \<Rightarrow> segment m 1392 = Inr ms \<and> ms \<noteq> [] \<and>
         concat (map (\<lambda>s. drop 4 (payload_bytes s)) ms) = payload_bytes m \<and>
         (\<forall>s \<in> set ms. length (serialize s) \<le> 1412))"
    and "send_message os m address port False rt w =
      Inr (if ms = [] then (False, rt, w) else rt_send_segments os ms address port False rt w)"
proof (cases "length (payload_bytes m) \<le> 1392")
  case True
  have "send_message os m address port False rt w = Inr (rt_send_segments os [m] address port False rt w)"
    using True by (cases "m_payload m") (auto simp: send_message_def needs_segmentation_def
        payload_size_def payload_bytes_def UDP_SEGMENT_SIZE_def rt_send_one_def split: prod.split)
  then show thesis using that [of "[m]"] True by simp
next
  case False
  then obtain p where p: "m_payload m = Some p" and d: "payload_bytes m = p_data p"
    by (cases "m_payload m") (auto simp: payload_bytes_def)
  let ?d = "p_data p"
  have long: "1392 < length ?d" using False d by simp
  have seg: "segment m 1392 = (case tp_type_of (m_message_type m) of None \<Rightarrow> Inr []
      | Some t \<Rightarrow> Inr (map (segment_at m t ?d 1392) [0..<segment_count ?d 1392]))"
    by (rule segment_large [OF p]) (use long assms d in \<open>auto simp: size_max_def\<close>)
  have send: "send_message os m address port False rt w = rbind (segment m 1392) (\<lambda>segments.
      Inr (if segments = [] then (False, rt, w)
        else rt_send_segments os segments address port False rt w))"
    using long by (simp add: send_message_def p needs_segmentation_def payload_size_def UDP_SEGMENT_SIZE_def
        if_distrib [of Inr] cong: if_cong)
  show thesis
  proof (cases "tp_type_of (m_message_type m)")
    case None
    then show thesis using that [of "[]"] False seg send by simp
  next
    case (Some t)
    define ms where "ms = map (segment_at m t ?d 1392) [0..<segment_count ?d 1392]"
    have "0 < segment_count ?d 1392" using long by (subst segment_count_iff) auto
    then have "ms \<noteq> []" by (simp add: ms_def)
    moreover have "length ?d \<le> segment_count ?d 1392 * 1392"
      using segment_count_iff [of 1392 "segment_count ?d 1392" ?d] by simp
    then have "concat (map (\<lambda>s. drop 4 (payload_bytes s)) ms) = ?d"
      using concat_slices [of ?d 1392 "segment_count ?d 1392"] by (simp add: ms_def comp_def segment_at_bytes)
    moreover have "\<forall>s \<in> set ms. length (serialize s) \<le> 1412"
      by (auto simp: ms_def length_serialize segment_at_bytes slice_of_def)
    moreover have "segment m 1392 = Inr ms" using seg Some by (simp add: ms_def)
    ultimately show thesis using that [of ms] False Some send d by simp
  qed
qed

text \<open> C37: what goes out over UDP, when the socket is open, the address converts and the payload has
  less than 2^63 bytes. A message of at most 1392 payload bytes is one datagram; a longer one is
  the segments of its segmentation, whose data concatenated is the payload and none of which exceeds
  1412 bytes, or nothing if its type has no TP counterpart. \<open>send_message\<close> tries the datagrams in order
  up to the first that \<open>sendto\<close> refuses, and no further; it reports success exactly if there is
  something to send and all of it was sent. It never faults. \<close>
theorem send_message_udp:
  assumes "dgram_tries os (ut_socket_fd (rt_udp_transport rt)) log"
    and "0 \<le> ut_socket_fd (rt_udp_transport rt)" and "os_pton os address = Some a"
    and "length (payload_bytes m) < 2 ^ 63"
  shows "\<exists>ms k w'.
    (if length (payload_bytes m) \<le> 1392 then ms = [m]
     else case tp_type_of (m_message_type m) of
       None \<Rightarrow> ms = []
     | Some t \<Rightarrow> segment m 1392 = Inr ms \<and> ms \<noteq> [] \<and>
         concat (map (\<lambda>s. drop 4 (payload_bytes s)) ms) = payload_bytes m \<and>
         (\<forall>s \<in> set ms. length (serialize s) \<le> 1412)) \<and>
    k \<le> length ms \<and>
    send_message os m address port False rt w = Inr (ms \<noteq> [] \<and> k = length ms, rt, w') \<and>
    log w' = log w @ map (\<lambda>s. (serialize s, a, port, True)) (take k ms) @
      (if k < length ms then [(serialize (ms ! k), a, port, False)] else [])"
proof -
  obtain ms where ms: "(if length (payload_bytes m) \<le> 1392 then ms = [m]
     else case tp_type_of (m_message_type m) of
       None \<Rightarrow> ms = []
     | Some t \<Rightarrow> segment m 1392 = Inr ms \<and> ms \<noteq> [] \<and>
         concat (map (\<lambda>s. drop 4 (payload_bytes s)) ms) = payload_bytes m \<and>
         (\<forall>s \<in> set ms. length (serialize s) \<le> 1412))"
    and send: "send_message os m address port False rt w =
      Inr (if ms = [] then (False, rt, w) else rt_send_segments os ms address port False rt w)"
    by (rule send_message_parts [OF assms(4)])
  obtain k w' where k: "k \<le> length ms"
    "rt_send_segments os ms address port False rt w = (k = length ms, rt, w')"
    "log w' = log w @ attempts ms k a port"
    using rt_send_segments_tried [OF assms(1-3)] by blast
  show ?thesis
  proof (cases "ms = []")
    case True
    then show ?thesis using ms send by (intro exI [of _ ms] exI [of _ 0] exI [of _ w]) simp
  next
    case False
    then have "send_message os m address port False rt w = Inr (ms \<noteq> [] \<and> k = length ms, rt, w')"
      using send k(2) by simp
    then show ?thesis using ms k(1,3) unfolding attempts_def by blast
  qed
qed

lemma queue_os_send: "dgram_send queue_os fd (\<lambda>w. w)"
  by (simp add: dgram_send_def queue_os_def)

definition demo_runtime :: runtime where
  "demo_runtime = (Runtime default_runtime_config 7)\<lparr>rt_udp_transport := demo_udp\<rparr>"

lemma demo_runtime_fd: "ut_socket_fd (rt_udp_transport demo_runtime) = 3"
  by (simp add: demo_runtime_def demo_udp_def)

lemma queue_os_pton: "os_pton queue_os a = Some [127, 0, 0, 1]"
  by (simp add: queue_os_def)

text \<open>A network that takes the first \<open>n\<close> datagrams.\<close>

definition limited_os :: "nat \<Rightarrow> (bytes \<times> bytes \<times> u16 \<times> bool) list os" where
  "limited_os n = \<lparr>os_socket = \<lambda>stream w. (3, w), os_reuseaddr = \<lambda>fd w. (0, w),
     os_add_membership = \<lambda>fd g i w. (0, w), os_bind = \<lambda>fd a p w. (0, w),
     os_getsockname = \<lambda>fd w. (None, w), os_listen = \<lambda>fd n w. (0, w),
     os_connect = \<lambda>fd a p w. (-1, w), os_accept = \<lambda>fd w. ((-1, [], 0), w),
     os_shutdown = \<lambda>fd w. w, os_close = \<lambda>fd w. w,
     os_sendto = \<lambda>fd d a p w. (if length w < n then int (length d) else -1, w @ [(d, a, p, length w < n)]),
     os_send = \<lambda>fd d w. (-1, w), os_recvfrom = \<lambda>fd n w. (None, w), os_recv = \<lambda>fd n all w. (None, w),
     os_pton = \<lambda>s. Some [127, 0, 0, 1], os_ntop = \<lambda>a. ''127.0.0.1''\<rparr>"

lemma limited_os_tries: "dgram_tries (limited_os n) fd (\<lambda>w. w)"
  by (simp add: dgram_tries_def limited_os_def)

theorem send_message_udp_witness:
  "\<exists>w'. send_message (limited_os 0) big_message ''127.0.0.1'' 9 False demo_runtime [] =
      Inr (False, demo_runtime, w') \<and> w' = [(serialize big_message, [127, 0, 0, 1], 9, False)]"
proof -
  have p: "os_pton (limited_os 0) ''127.0.0.1'' = Some [127, 0, 0, 1]" by (simp add: limited_os_def)
  have len: "length (payload_bytes big_message) = 5" by (simp add: big_message_def payload_bytes_def payload_of_def)
  have refused: "\<not> fst (projr (send_message (limited_os 0) big_message ''127.0.0.1'' 9 False demo_runtime []))"
    by (simp add: send_message_def big_message_def payload_size_def payload_of_def needs_segmentation_def
        UDP_SEGMENT_SIZE_def rt_send_one_def udp_send_to_def udp_send_bytes_def demo_runtime_fd limited_os_def
        Let_def)
  show ?thesis
    using send_message_udp [OF limited_os_tries _ p, of demo_runtime big_message 9 "[]"] len refused
    by (auto simp: demo_runtime_fd le_Suc_eq)
qed

text \<open> C23: long messages are lost. When a runtime that has so far received only TP segments with
  data gets the segments of a message longer than 1392 bytes, as a peer decodes them from
  the wire, in any order, any number of times, at any times, no handler is called and
  nothing but the reassembler changes: no message that needs segmentation over UDP is
  ever delivered. \<close>
theorem long_messages_lost:
  assumes "segment m UDP_SEGMENT_SIZE = Inr segs" and "m_payload m = Some p"
    and "UDP_SEGMENT_SIZE < length (p_data p)" and "length (p_data p) < 2 ^ 63"
    and "data_only (rt_tp_reassembler rt)"
    and "snd ` set deliveries \<subseteq> wire_view ` set segs"
  shows "\<exists>ra. on_udp_all pton ntop deliveries rt = Inr (rt\<lparr>rt_tp_reassembler := ra\<rparr>, [])"
proof -
  let ?d = "p_data p" and ?n = "UDP_SEGMENT_SIZE"
  have n: "0 < ?n" by (simp add: UDP_SEGMENT_SIZE_def)
  have seg: "segment m ?n = (case tp_type_of (m_message_type m) of None \<Rightarrow> Inr []
      | Some t \<Rightarrow> Inr (map (segment_at m t ?d ?n) [0..<segment_count ?d ?n]))"
    by (rule segment_large [OF assms(2) n assms(3)])
      (use assms(4) in \<open>simp add: UDP_SEGMENT_SIZE_def size_max_def\<close>)
  have data: "is_tp_message (wire_view s) \<and> 4 < length (payload_bytes (wire_view s))"
    if mem: "s \<in> set segs" for s
  proof -
    obtain t where t: "tp_type_of (m_message_type m) = Some t"
      and segs: "segs = map (segment_at m t ?d ?n) [0..<segment_count ?d ?n]"
      using mem seg assms(1) by (cases "tp_type_of (m_message_type m)") auto
    obtain i where i: "i < segment_count ?d ?n" and s: "s = segment_at m t ?d ?n i"
      using mem segs by auto
    have "is_tp_message (wire_view s)"
      by (rule tp_type_of_tp [OF t]) (simp add: wire_view_def s)
    moreover have "payload_bytes (wire_view s) = payload_bytes s"
      by (simp add: wire_view_def payload_bytes_def payload_of_def split: option.split)
    moreover have "0 < length (slice_of ?d ?n (i * ?n))"
      using slice_length [OF n, of i ?d] i by (simp add: segment_count_iff [OF n])
    ultimately show ?thesis by (simp add: s segment_at_bytes)
  qed
  show ?thesis
  proof (rule on_udp_all_tp [OF _ assms(5)], safe)
    fix now x assume "(now, x) \<in> set deliveries"
    then have "x \<in> snd ` set deliveries" by force
    then obtain s where "s \<in> set segs" and "x = wire_view s" using assms(6) by blast
    with data show "is_tp_message x" and "4 < length (payload_bytes x)" by auto
  qed
qed

definition long_message :: message where
  "long_message = big_message\<lparr>m_payload := Some (payload_of (replicate 1393 9))\<rparr>"

theorem long_messages_lost_witness:
  "\<exists>segs ra. segment long_message UDP_SEGMENT_SIZE = Inr segs \<and> segs \<noteq> [] \<and>
     on_udp_all raw_pton raw_ntop [(0, wire_view (hd segs))] demo_runtime =
       Inr (demo_runtime\<lparr>rt_tp_reassembler := ra\<rparr>, [])"
proof -
  let ?p = "payload_of (replicate 1393 9)"
  have p: "m_payload long_message = Some ?p" and len: "length (p_data ?p) = 1393"
    by (simp_all add: long_message_def payload_of_def)
  have t: "tp_type_of (m_message_type long_message) = Some TP_REQUEST"
    by (simp add: long_message_def big_message_def create_request_def)
  obtain segs where segs: "segment long_message UDP_SEGMENT_SIZE = Inr segs" "segs \<noteq> []"
    using segment_large [OF p, of UDP_SEGMENT_SIZE] t len
    by (auto simp: UDP_SEGMENT_SIZE_def size_max_def segment_count_def)
  moreover have "data_only (rt_tp_reassembler demo_runtime)"
    by (simp add: demo_runtime_def Runtime_def)
  ultimately have "\<exists>ra. on_udp_all raw_pton raw_ntop [(0, wire_view (hd segs))] demo_runtime =
       Inr (demo_runtime\<lparr>rt_tp_reassembler := ra\<rparr>, [])"
    by (intro long_messages_lost [OF segs(1) p]) (simp_all add: len UDP_SEGMENT_SIZE_def)
  then show ?thesis using segs by blast
qed

text \<open> Received messages are routed by service id alone. A datagram with a message that is
  neither a TP segment nor for service discovery changes nothing in the runtime and calls
  at most one handler, with the message the datagram spells: the one registered for its
  service id under instance 0xFFFF, the default the decoder leaves, since the instance
  does not travel. A handler registered for any other instance of the service is never
  called by a received message. \<close>
theorem datagram_routing:
  assumes "deserialize data (length data) = Inr (Some m)" and "\<not> is_tp_message m"
    and "\<not> (m_service_id m = SOMEIP_SD_SERVICE_ID \<and> m_method_id m = SOMEIP_SD_METHOD_ID)"
  shows "m_instance_id m = 0xFFFF \<and>
    on_udp_message_received pton ntop now m rt = Inr (rt,
      case rt_service_handlers rt (ServiceIdTuple (m_service_id m) 0xFFFF) of
        Some (Some h) \<Rightarrow> [Rt_handler h m] | _ \<Rightarrow> []) \<and>
    (i \<noteq> 0xFFFF \<longrightarrow>
      on_udp_message_received pton ntop now m (register_service_handler s i h rt) =
      Inr (register_service_handler s i h rt, route m rt))"
proof -
  have "deserialize data (length data) =
      (if accepted data (length data) then Inr (Some (wire_message data)) else Inr None)"
    by (rule deserialize_eq) (auto simp: accepted_def)
  then have "m_instance_id m = 0xFFFF"
    using assms(1) by (auto simp: wire_message_def new_message_def split: if_splits)
  then show ?thesis
    using assms(2,3)
    by (auto simp: on_udp_message_received_def reassembled_def route_def
        register_service_handler_def hm_put_def)
qed

theorem datagram_routing_witness:
  "on_udp_message_received raw_pton raw_ntop 0 (wire_view sample_message)
     (register_service_handler 0x1234 1 (Some 8)
        (register_service_handler 0x1234 0xFFFF (Some 9) demo_runtime)) =
   Inr (register_service_handler 0x1234 1 (Some 8)
        (register_service_handler 0x1234 0xFFFF (Some 9) demo_runtime),
      [Rt_handler 9 (wire_view sample_message)])"
proof -
  have d: "deserialize (serialize sample_message) (length (serialize sample_message)) =
      Inr (Some (wire_view sample_message))"
    by (rule msg_codec.dec_enc_exact [OF sample_message_ok])
  have f: "m_service_id (wire_view sample_message) = 0x1234"
    "m_message_type (wire_view sample_message) = REQUEST"
    "m_instance_id (wire_view sample_message) = 0xFFFF"
    by (simp_all add: wire_view_def sample_message_def create_request_def)
  then show ?thesis
    using datagram_routing [OF d, of raw_pton raw_ntop 0
        "register_service_handler 0x1234 0xFFFF (Some 9) demo_runtime" 1 "0x1234" "Some 8"]
    by (simp add: is_tp_message_def SOMEIP_SD_SERVICE_ID_def route_def
        register_service_handler_def hm_put_def)
qed

text \<open> Service discovery gets its messages, and only these. A received message of service
  0xFFFF and method 0x8100 is processed by the service discovery object, if there is one,
  and never reaches a service handler; over TCP the same message goes to the handlers
  instead. Reassembler, handlers and transports stay as they were. \<close>
theorem sd_dispatch:
  assumes "\<not> is_tp_message m" and "m_service_id m = SOMEIP_SD_SERVICE_ID"
    and "m_method_id m = SOMEIP_SD_METHOD_ID"
  shows "on_udp_message_received pton ntop now m rt =
      (case rt_service_discovery rt of
         None \<Rightarrow> Inr (rt, [])
       | Some sd \<Rightarrow>
           (case process_sd_message pton ntop now m sd of
              Inl f \<Rightarrow> Inl f
            | Inr (sd', actions) \<Rightarrow>
                Inr (rt\<lparr>rt_service_discovery := Some sd'\<rparr>, map Rt_sd actions))) \<and>
    on_tcp_message_received now m cid rt = (rt, route m rt)"
  using assms
  by (auto simp: on_udp_message_received_def on_tcp_message_received_def reassembled_def
      split: option.split sum.split prod.split)

theorem sd_dispatch_witness:
  "on_udp_message_received raw_pton raw_ntop 0
     (new_message\<lparr>m_service_id := SOMEIP_SD_SERVICE_ID, m_method_id := SOMEIP_SD_METHOD_ID\<rparr>)
     demo_runtime = Inr (demo_runtime, [])"
  using sd_dispatch [of "new_message\<lparr>m_service_id := SOMEIP_SD_SERVICE_ID,
      m_method_id := SOMEIP_SD_METHOD_ID\<rparr>" raw_pton raw_ntop 0 demo_runtime 1]
  by (simp add: is_tp_message_def new_message_def demo_runtime_def Runtime_def)

text \<open> \<open>set_default\<close> has no lasting effect. \<open>get\<close> returns the same runtime as long as somebody
  owns it; but the runtime \<open>set_default\<close> makes is owned by nobody once the call is over, so
  the next \<open>get\<close> makes a new one, with the default configuration, and never returns it. \<close>
theorem set_default_forgotten:
  assumes "\<forall>r \<in> rs_owned s. r < rs_made s"
  shows "(\<exists>r s'. rs_get True s = (Some r, s') \<and> r \<in> rs_owned s' \<and> rs_get created s' = (Some r, s')) \<and>
    fst (rs_get True (rs_set_default True s)) \<noteq> Some (rs_made s) \<and>
    rs_made s \<notin> rs_owned (rs_set_default True s)"
  using assms
  by (auto simp: rs_get_def rs_set_default_def rs_create_def Let_def split: option.split)

theorem set_default_forgotten_witness:
  "fst (rs_get True (rs_set_default True
     \<lparr>rs_default_runtime = None, rs_owned = {}, rs_made = 0\<rparr>)) \<noteq> Some 0"
  using set_default_forgotten [of "\<lparr>rs_default_runtime = None, rs_owned = {}, rs_made = 0\<rparr>"]
  by simp

end
