(* ===== verification/Application.thy ===== *)
theory Application
  imports Runtime
begin

text \<open>
  \<open>application.h\<close> and \<open>application.cpp\<close>: the client and server API over a runtime. A
  \<open>std::promise\<close> is the index of its shared state in \<open>ap_promises\<close>, which is also the future
  the caller holds; satisfying it twice throws. The pending requests of a client are an ordered
  map, one of the iteration orders \<open>unordered_map\<close> allows. Handlers are tokens and their calls
  actions; what a handler does in turn is not part of the step. The runtime and the world of its
  sockets are passed and returned; a missing service discovery object is dereferenced, a fault.
\<close>

section \<open>State\<close>

datatype promise = Unset | Value message | Broken

record pending_request =
  pr_promise :: nat
  pr_timestamp :: time_point
  pr_timeout :: int

record field_info =
  fi_value :: bytes
  fi_getter :: "handler option"
  fi_setter :: "handler option"
  fi_subscribers :: "endpoint list"

record application =
  ap_name :: string
  ap_session_id :: u16
  ap_pending_requests :: "(u32, pending_request) omap"
  ap_promises :: "promise list"
  ap_method_handlers :: "u16 \<rightharpoonup> handler option"
  ap_event_handlers :: "u16 \<rightharpoonup> handler option"
  ap_availability_handler :: "handler option"
  ap_fields :: "u16 \<rightharpoonup> field_info"
  ap_event_configs :: "u16 \<rightharpoonup> event_config"
  ap_running :: bool

datatype app_action =
    Ap_handler handler message
  | Ap_availability handler u16 u16 bool
  | Ap_sd sd_action
  | Ap_shm shm_action

definition Application :: "string \<Rightarrow> application" where
  "Application name = \<lparr>ap_name = name, ap_session_id = 1, ap_pending_requests = om_empty,
     ap_promises = [], ap_method_handlers = Map.empty, ap_event_handlers = Map.empty,
     ap_availability_handler = None, ap_fields = Map.empty, ap_event_configs = Map.empty,
     ap_running = False\<rparr>"

text \<open>The token of the lambda \<open>init\<close> registers with the runtime.\<close>

definition HANDLE_MESSAGE :: handler where "HANDLE_MESSAGE = 4"

definition app_init :: "runtime \<Rightarrow> runtime" where
  "app_init rt = register_service_handler 0 0 (Some HANDLE_MESSAGE) rt"

text \<open>\<open>Runtime::create_application\<close>: the application holds the runtime, which the operations get.\<close>

definition create_application :: "string \<Rightarrow> application" where
  "create_application name = Application name"

definition app_start :: "application \<Rightarrow> application" where
  "app_start ap = (if ap_running ap then ap else ap\<lparr>ap_running := True\<rparr>)"

section \<open>Promises\<close>

definition set_value :: "nat \<Rightarrow> message \<Rightarrow> promise list \<Rightarrow> fault + promise list" where
  "set_value p m ps =
     (if length ps \<le> p then Inl Null_dereference
      else if ps ! p = Unset then Inr (ps[p := Value m]) else Inl Promise_already_satisfied)"

text \<open>The last owner of a promise lets go of it: an unset shared state becomes broken.\<close>

definition abandon :: "nat \<Rightarrow> promise list \<Rightarrow> promise list" where
  "abandon p ps = (if p < length ps \<and> ps ! p = Unset then ps[p := Broken] else ps)"

text \<open>The loop of \<open>stop\<close> over the pending requests.\<close>

definition stop_response :: message where
  "stop_response = create_error_response (create_request 0 0 0 0 False) E_NOT_OK"

fun stop_loop :: "(u32, pending_request) omap \<Rightarrow> promise list \<Rightarrow> fault + promise list" where
  "stop_loop [] ps = Inr ps"
| "stop_loop ((k, req) # it) ps =
     rbind (set_value (pr_promise req) stop_response ps) (stop_loop it)"

definition app_stop :: "application \<Rightarrow> fault + application" where
  "app_stop ap =
     (if \<not> ap_running ap then Inr ap
      else rbind (stop_loop (ap_pending_requests ap) (ap_promises ap)) (\<lambda>ps.
        Inr (ap\<lparr>ap_running := False, ap_promises := ps, ap_pending_requests := om_empty\<rparr>)))"

text \<open>The loop of \<open>cleanup_expired_requests\<close>.\<close>

definition timeout_response :: message where
  "timeout_response = create_error_response (create_request 0 0 0 0 False) E_TIMEOUT"

definition request_expired :: "time_point \<Rightarrow> pending_request \<Rightarrow> bool" where
  "request_expired now req \<longleftrightarrow> pr_timeout req < to_milliseconds (now - pr_timestamp req)"

fun cleanup_loop ::
    "time_point \<Rightarrow> (u32, pending_request) omap \<Rightarrow> promise list \<Rightarrow>
     fault + (u32, pending_request) omap \<times> promise list" where
  "cleanup_loop now [] ps = Inr ([], ps)"
| "cleanup_loop now ((k, req) # it) ps =
     (if request_expired now req then
        rbind (set_value (pr_promise req) timeout_response ps) (cleanup_loop now it)
      else
        rbind (cleanup_loop now it ps) (\<lambda>(m, ps). Inr ((k, req) # m, ps)))"

definition cleanup_expired_requests :: "time_point \<Rightarrow> application \<Rightarrow> fault + application" where
  "cleanup_expired_requests now ap =
     rbind (cleanup_loop now (ap_pending_requests ap) (ap_promises ap)) (\<lambda>(m, ps).
       Inr (ap\<lparr>ap_pending_requests := m, ap_promises := ps\<rparr>))"

section \<open>The client side\<close>

text \<open>\<open>get_service_discovery\<close> dereferences the pointer of the runtime.\<close>

definition with_sd :: "runtime \<Rightarrow> (service_discovery \<Rightarrow> fault + 'a) \<Rightarrow> fault + 'a" where
  "with_sd rt f = (case rt_service_discovery rt of None \<Rightarrow> Inl Null_dereference | Some sd \<Rightarrow> f sd)"

text \<open>The loop over the endpoints, which ends at the first one that takes the message.\<close>

fun send_first ::
    "'w os \<Rightarrow> message \<Rightarrow> bool \<Rightarrow> endpoint list \<Rightarrow> runtime \<Rightarrow> 'w \<Rightarrow> fault + bool \<times> runtime \<times> 'w" where
  "send_first os m reliable [] rt w = Inr (False, rt, w)"
| "send_first os m reliable (ep # eps) rt w =
     (if ep_protocol ep = UDP \<and> \<not> reliable then
        rbind (send_message os m (ep_address ep) (ep_port ep) False rt w) (\<lambda>(sent, rt, w).
          if sent then Inr (True, rt, w) else send_first os m reliable eps rt w)
      else if ep_protocol ep = TCP \<and> reliable then
        rbind (send_message os m (ep_address ep) (ep_port ep) True rt w) (\<lambda>(sent, rt, w).
          if sent then Inr (True, rt, w) else send_first os m reliable eps rt w)
      else send_first os m reliable eps rt w)"

text \<open>The request a call makes, and the state after it is entered into the pending ones: the
  promise of an older request with the same id is abandoned.\<close>

definition request_message ::
    "u16 \<Rightarrow> u16 \<Rightarrow> u16 \<Rightarrow> bytes \<Rightarrow> bool \<Rightarrow> application \<Rightarrow> runtime \<Rightarrow> message" where
  "request_message service instance method payload reliable ap rt =
     set_payload payload
       ((create_request service instance method (rt_client_id rt) reliable)
         \<lparr>m_session_id := ap_session_id ap\<rparr>)"

definition enter_request :: "time_point \<Rightarrow> int \<Rightarrow> message \<Rightarrow> application \<Rightarrow> application" where
  "enter_request now timeout m ap =
     (let k = get_request_id m;
          ps = ap_promises ap @ [Unset];
          ps = (case om_get (ap_pending_requests ap) k of
                  None \<Rightarrow> ps | Some old \<Rightarrow> abandon (pr_promise old) ps)
      in ap\<lparr>ap_session_id := ap_session_id ap + 1, ap_promises := ps,
           ap_pending_requests := om_put k \<lparr>pr_promise = length (ap_promises ap),
             pr_timestamp = now, pr_timeout = timeout\<rparr> (ap_pending_requests ap)\<rparr>)"

definition app_send_request ::
    "'w os \<Rightarrow> time_point \<Rightarrow> u16 \<Rightarrow> u16 \<Rightarrow> u16 \<Rightarrow> bytes \<Rightarrow> bool \<Rightarrow> int \<Rightarrow> application \<Rightarrow> runtime \<Rightarrow> 'w \<Rightarrow>
     fault + nat \<times> application \<times> runtime \<times> 'w" where
  "app_send_request os now service instance method payload reliable timeout ap rt w =
     (let m = request_message service instance method payload reliable ap rt;
          future = length (ap_promises ap);
          ap = enter_request now timeout m ap
      in with_sd rt (\<lambda>sd.
        let endpoints = get_service_endpoints service instance sd in
        if endpoints = [] then
          rbind (set_value future (create_error_response m E_NOT_REACHABLE) (ap_promises ap))
            (\<lambda>ps. Inr (future, ap\<lparr>ap_promises := ps\<rparr>, rt, w))
        else
          rbind (send_first os m reliable endpoints rt w) (\<lambda>(sent, rt, w).
            if sent then Inr (future, ap, rt, w)
            else
              rbind (set_value future (create_error_response m E_NOT_REACHABLE) (ap_promises ap))
                (\<lambda>ps. Inr (future, ap\<lparr>ap_promises := ps\<rparr>, rt, w)))))"

definition app_send_request_no_return ::
    "'w os \<Rightarrow> u16 \<Rightarrow> u16 \<Rightarrow> u16 \<Rightarrow> bytes \<Rightarrow> bool \<Rightarrow> application \<Rightarrow> runtime \<Rightarrow> 'w \<Rightarrow>
     fault + bool \<times> application \<times> runtime \<times> 'w" where
  "app_send_request_no_return os service instance method payload reliable ap rt w =
     (let m = set_payload payload
            ((create_request service instance method (rt_client_id rt) reliable)
              \<lparr>m_session_id := ap_session_id ap, m_message_type := REQUEST_NO_RETURN\<rparr>);
          ap = ap\<lparr>ap_session_id := ap_session_id ap + 1\<rparr>
      in with_sd rt (\<lambda>sd.
        rbind (send_first os m reliable (get_service_endpoints service instance sd) rt w)
          (\<lambda>(sent, rt, w). Inr (sent, ap, rt, w))))"

text \<open>A command of the shared memory agent, where the runtime has one.\<close>

definition with_shm ::
    "(shm_agent \<Rightarrow> fault + bool \<times> shm_agent \<times> shm_action list) \<Rightarrow> runtime \<Rightarrow>
     fault + bool \<times> runtime \<times> app_action list" where
  "with_shm command rt =
     (case rt_shm_agent rt of
        None \<Rightarrow> Inr (False, rt, [])
      | Some shm \<Rightarrow>
          rbind (command shm) (\<lambda>(sent, shm, actions).
            Inr (sent, rt\<lparr>rt_shm_agent := Some shm\<rparr>, map Ap_shm actions)))"

definition app_subscribe_event ::
    "bool \<Rightarrow> bool \<Rightarrow> time_point \<Rightarrow> u16 \<Rightarrow> u16 \<Rightarrow> u16 \<Rightarrow> u16 \<Rightarrow> u8 \<Rightarrow> application \<Rightarrow> runtime \<Rightarrow>
     fault + bool \<times> application \<times> runtime \<times> app_action list" where
  "app_subscribe_event le locked now service instance eventgroup event major_version ap rt =
     (let ap = ap\<lparr>ap_event_configs := hm_put event
            \<lparr>ec_service_id = service, ec_instance_id = instance, ec_event_id = event,
             ec_eventgroup_id = eventgroup, ec_is_field = False, ec_is_reliable = False\<rparr>
            (ap_event_configs ap)\<rparr>
      in rbind (with_shm (send_subscribe le locked service instance eventgroup major_version) rt)
        (\<lambda>(sent, rt, actions).
          if sent then Inr (True, ap, rt, actions)
          else with_sd rt (\<lambda>sd.
            let (subscribed, sd) =
                  subscribe_eventgroup now service instance eventgroup major_version sd
            in Inr (subscribed, ap, rt\<lparr>rt_service_discovery := Some sd\<rparr>, actions))))"

definition app_unsubscribe_event ::
    "bool \<Rightarrow> bool \<Rightarrow> u16 \<Rightarrow> u16 \<Rightarrow> u16 \<Rightarrow> runtime \<Rightarrow> fault + runtime \<times> app_action list" where
  "app_unsubscribe_event le locked service instance eventgroup rt =
     rbind (with_shm (send_unsubscribe le locked service instance eventgroup) rt)
       (\<lambda>(sent, rt, actions).
         with_sd rt (\<lambda>sd.
           Inr (rt\<lparr>rt_service_discovery :=
             Some (unsubscribe_eventgroup service instance eventgroup sd)\<rparr>, actions)))"

definition app_set_event_handler :: "u16 \<Rightarrow> handler option \<Rightarrow> application \<Rightarrow> application" where
  "app_set_event_handler event h ap =
     ap\<lparr>ap_event_handlers := hm_put event h (ap_event_handlers ap)\<rparr>"

section \<open>The server side\<close>

definition app_offer_service ::
    "bool \<Rightarrow> bool \<Rightarrow> time_point \<Rightarrow> service_config \<Rightarrow> runtime \<Rightarrow> fault + runtime \<times> app_action list" where
  "app_offer_service le locked now config rt =
     with_sd rt (\<lambda>sd.
       let (sd, sd_actions) = offer_service now config sd;
           rt = rt\<lparr>rt_service_discovery := Some sd\<rparr>
       in rbind (with_shm (send_register_service le locked config) rt) (\<lambda>(sent, rt, actions).
         Inr (rt, map Ap_sd sd_actions @ actions)))"

definition app_stop_offer_service ::
    "bool \<Rightarrow> bool \<Rightarrow> u16 \<Rightarrow> u16 \<Rightarrow> runtime \<Rightarrow> fault + runtime \<times> app_action list" where
  "app_stop_offer_service le locked service instance rt =
     with_sd rt (\<lambda>sd.
       let (sd, sd_actions) = stop_offer_service service instance sd;
           rt = rt\<lparr>rt_service_discovery := Some sd\<rparr>
       in rbind (with_shm (send_unregister_service le locked service instance) rt)
         (\<lambda>(sent, rt, actions). Inr (rt, map Ap_sd sd_actions @ actions)))"

definition app_register_method_handler :: "u16 \<Rightarrow> handler option \<Rightarrow> application \<Rightarrow> application" where
  "app_register_method_handler method h ap =
     ap\<lparr>ap_method_handlers := hm_put method h (ap_method_handlers ap)\<rparr>"

definition app_unregister_method_handler :: "u16 \<Rightarrow> application \<Rightarrow> application" where
  "app_unregister_method_handler method ap =
     ap\<lparr>ap_method_handlers := hm_del method (ap_method_handlers ap)\<rparr>"

text \<open>A response goes to the first UDP endpoint discovery knows of the service.\<close>

fun respond_first ::
    "'w os \<Rightarrow> message \<Rightarrow> endpoint list \<Rightarrow> runtime \<Rightarrow> 'w \<Rightarrow> fault + runtime \<times> 'w" where
  "respond_first os m [] rt w = Inr (rt, w)"
| "respond_first os m (ep # eps) rt w =
     (if ep_protocol ep = UDP then
        rbind (send_message os m (ep_address ep) (ep_port ep) False rt w) (\<lambda>(sent, rt, w).
          Inr (rt, w))
      else respond_first os m eps rt w)"

definition app_send_response ::
    "'w os \<Rightarrow> message \<Rightarrow> bytes \<Rightarrow> runtime \<Rightarrow> 'w \<Rightarrow> fault + runtime \<times> 'w" where
  "app_send_response os request payload rt w =
     (let response = set_payload payload (create_response request) in
      with_sd rt (\<lambda>sd.
        respond_first os response
          (get_service_endpoints (m_service_id request) (m_instance_id request) sd) rt w))"

definition app_send_error_response ::
    "'w os \<Rightarrow> message \<Rightarrow> return_code \<Rightarrow> runtime \<Rightarrow> 'w \<Rightarrow> fault + runtime \<times> 'w" where
  "app_send_error_response os request code rt w =
     (let response = create_error_response request code in
      with_sd rt (\<lambda>sd.
        respond_first os response
          (get_service_endpoints (m_service_id request) (m_instance_id request) sd) rt w))"

definition app_offer_event ::
    "u8 \<Rightarrow> event_config \<Rightarrow> application \<Rightarrow> runtime \<Rightarrow> fault + application \<times> runtime" where
  "app_offer_event junk config ap rt =
     (let ap = ap\<lparr>ap_event_configs := hm_put (ec_event_id config) config (ap_event_configs ap)\<rparr>
      in with_sd rt (\<lambda>sd.
        Inr (ap, rt\<lparr>rt_service_discovery := Some (offer_eventgroup junk (ec_service_id config)
          (ec_instance_id config) (ec_eventgroup_id config) [] sd)\<rparr>)))"

definition app_stop_offer_event ::
    "u16 \<Rightarrow> u16 \<Rightarrow> u16 \<Rightarrow> application \<Rightarrow> runtime \<Rightarrow> fault + application \<times> runtime" where
  "app_stop_offer_event service instance event ap rt =
     (case ap_event_configs ap event of
        None \<Rightarrow> Inr (ap, rt)
      | Some config \<Rightarrow>
          with_sd rt (\<lambda>sd.
            Inr (ap\<lparr>ap_event_configs := hm_del event (ap_event_configs ap)\<rparr>,
              rt\<lparr>rt_service_discovery := Some (stop_offer_eventgroup service instance
                (ec_eventgroup_id config) sd)\<rparr>)))"

text \<open>The loop over the subscribers, which goes on whether or not a send succeeds.\<close>

fun notify_loop ::
    "'w os \<Rightarrow> message \<Rightarrow> endpoint list \<Rightarrow> runtime \<Rightarrow> 'w \<Rightarrow> fault + runtime \<times> 'w" where
  "notify_loop os m [] rt w = Inr (rt, w)"
| "notify_loop os m (ep # eps) rt w =
     rbind (send_message os m (ep_address ep) (ep_port ep) (ep_protocol ep = TCP) rt w)
       (\<lambda>(sent, rt, w). notify_loop os m eps rt w)"

definition app_notify_event ::
    "'w os \<Rightarrow> u16 \<Rightarrow> bytes \<Rightarrow> application \<Rightarrow> runtime \<Rightarrow> 'w \<Rightarrow> fault + runtime \<times> 'w" where
  "app_notify_event os event payload ap rt w =
     (case ap_event_configs ap event of
        None \<Rightarrow> Inr (rt, w)
      | Some cfg \<Rightarrow>
          let m = set_payload payload
                (create_notification (ec_service_id cfg) (ec_instance_id cfg) event)
          in with_sd rt (\<lambda>sd.
            notify_loop os m (get_subscribers (ec_service_id cfg) (ec_instance_id cfg)
              (ec_eventgroup_id cfg) sd) rt w))"

definition app_offer_field ::
    "u8 \<Rightarrow> event_config \<Rightarrow> handler option \<Rightarrow> handler option \<Rightarrow> application \<Rightarrow> runtime \<Rightarrow>
     fault + application \<times> runtime" where
  "app_offer_field junk config getter setter ap rt =
     app_offer_event junk config
       (ap\<lparr>ap_fields := hm_put (ec_event_id config)
          \<lparr>fi_value = [], fi_getter = getter, fi_setter = setter, fi_subscribers = []\<rparr> (ap_fields ap)\<rparr>) rt"

definition app_set_field_value ::
    "'w os \<Rightarrow> u16 \<Rightarrow> bytes \<Rightarrow> application \<Rightarrow> runtime \<Rightarrow> 'w \<Rightarrow>
     fault + application \<times> runtime \<times> 'w" where
  "app_set_field_value os field v ap rt w =
     (let ap = (case ap_fields ap field of
            None \<Rightarrow> ap
          | Some fi \<Rightarrow> ap\<lparr>ap_fields := hm_put field (fi\<lparr>fi_value := v\<rparr>) (ap_fields ap)\<rparr>)
      in rbind (app_notify_event os field v ap rt w) (\<lambda>(rt, w). Inr (ap, rt, w)))"

section \<open>Callbacks\<close>

definition app_on_service_available ::
    "u16 \<Rightarrow> u16 \<Rightarrow> bool \<Rightarrow> application \<Rightarrow> app_action list" where
  "app_on_service_available service instance available ap =
     (case ap_availability_handler ap of
        None \<Rightarrow> [] | Some h \<Rightarrow> [Ap_availability h service instance available])"

definition app_set_availability_handler :: "handler option \<Rightarrow> application \<Rightarrow> application" where
  "app_set_availability_handler h ap = ap\<lparr>ap_availability_handler := h\<rparr>"

text \<open>The three branches of \<open>handle_message\<close>, and the clean-up that ends it.\<close>

definition handle_response_message :: "message \<Rightarrow> application \<Rightarrow> fault + application" where
  "handle_response_message m ap =
     (let k = get_request_id m in
      case om_get (ap_pending_requests ap) k of
        None \<Rightarrow> Inr ap
      | Some req \<Rightarrow>
          rbind (set_value (pr_promise req) m (ap_promises ap)) (\<lambda>ps.
            Inr (ap\<lparr>ap_promises := ps,
              ap_pending_requests := om_del k (ap_pending_requests ap)\<rparr>)))"

definition dispatch_message ::
    "'w os \<Rightarrow> message \<Rightarrow> application \<Rightarrow> runtime \<Rightarrow> 'w \<Rightarrow>
     fault + application \<times> runtime \<times> 'w \<times> app_action list" where
  "dispatch_message os m ap rt w =
     (if is_response_type m then
        rbind (handle_response_message m ap) (\<lambda>ap. Inr (ap, rt, w, []))
      else if is_event m then
        Inr (ap, rt, w,
          (case ap_event_handlers ap (m_method_id m) of
             Some (Some h) \<Rightarrow> [Ap_handler h m] | _ \<Rightarrow> []))
      else if is_request_type m then
        (case ap_method_handlers ap (m_method_id m) of
           Some (Some h) \<Rightarrow> Inr (ap, rt, w, [Ap_handler h m])
         | _ \<Rightarrow>
             rbind (app_send_error_response os m E_UNKNOWN_METHOD rt w) (\<lambda>(rt, w).
               Inr (ap, rt, w, [])))
      else Inr (ap, rt, w, []))"

definition handle_message ::
    "'w os \<Rightarrow> time_point \<Rightarrow> message \<Rightarrow> application \<Rightarrow> runtime \<Rightarrow> 'w \<Rightarrow>
     fault + application \<times> runtime \<times> 'w \<times> app_action list" where
  "handle_message os now m ap rt w =
     rbind (dispatch_message os m ap rt w) (\<lambda>(ap, rt, w, actions).
     rbind (cleanup_expired_requests now ap) (\<lambda>ap. Inr (ap, rt, w, actions)))"

end
