(* ===== verification/AppRequests.thy ===== *)
theory AppRequests
  imports Application
begin

text \<open>
  The life of a request: every pending request has a promise of its own, in every state an
  application reaches; stopping, failing to send, answering, and running out of session ids.
\<close>

section \<open>The invariant\<close>

text \<open>Every pending request has a promise of its own.\<close>

definition promises_of :: "(u32, pending_request) omap \<Rightarrow> nat list" where
  "promises_of m = map (\<lambda>(k, req). pr_promise req) m"

definition app_ok :: "application \<Rightarrow> bool" where
  "app_ok ap \<longleftrightarrow> om_ok (ap_pending_requests ap) \<and> distinct (promises_of (ap_pending_requests ap)) \<and>
     (\<forall>p \<in> set (promises_of (ap_pending_requests ap)). p < length (ap_promises ap))"

lemma promises_of_simps [simp]:
  "promises_of [] = []" "promises_of ((k, req) # m) = pr_promise req # promises_of m"
  by (simp_all add: promises_of_def)

lemma set_value_ok: "p < length ps \<Longrightarrow> ps ! p = Unset \<Longrightarrow> set_value p m ps = Inr (ps[p := Value m])"
  by (simp add: set_value_def)

lemma set_value_twice:
  "p < length ps \<Longrightarrow> ps ! p \<noteq> Unset \<Longrightarrow> set_value p m ps = Inl Promise_already_satisfied"
  by (simp add: set_value_def)

lemma set_value_length: "set_value p m ps = Inr ps' \<Longrightarrow> length ps' = length ps"
  by (auto simp: set_value_def split: if_splits)

lemma length_abandon [simp]: "length (abandon p ps) = length ps"
  by (simp add: abandon_def)

text \<open>Stopping sets every promise once; it throws exactly when one of them is set already.\<close>

lemma stop_loop_all:
  assumes "distinct (promises_of m)" and "\<forall>p \<in> set (promises_of m). p < length ps"
  shows "stop_loop m ps =
    (if \<forall>p \<in> set (promises_of m). ps ! p = Unset
     then Inr (map (\<lambda>p. if p \<in> set (promises_of m) then Value stop_response else ps ! p) [0..<length ps])
     else Inl Promise_already_satisfied)"
  using assms
proof (induction m arbitrary: ps)
  case Nil
  show ?case by (simp add: map_nth)
next
  case (Cons e m)
  obtain k req where e: "e = (k, req)" by (cases e)
  let ?p = "pr_promise req"
  show ?case
  proof (cases "ps ! ?p = Unset")
    case True
    let ?ps = "ps[?p := Value stop_response]"
    have "stop_loop m ?ps =
        (if \<forall>p \<in> set (promises_of m). ?ps ! p = Unset
         then Inr (map (\<lambda>p. if p \<in> set (promises_of m) then Value stop_response else ?ps ! p)
           [0..<length ?ps])
         else Inl Promise_already_satisfied)"
      by (rule Cons.IH) (use Cons.prems e in auto)
    moreover have "(\<forall>p \<in> set (promises_of m). ?ps ! p = Unset) \<longleftrightarrow>
        (\<forall>p \<in> set (promises_of m). ps ! p = Unset)"
      using Cons.prems(1) by (auto simp: e) (metis nth_list_update_neq)+
    ultimately show ?thesis
      using True Cons.prems by (auto simp: e set_value_ok nth_list_update intro!: nth_equalityI)
  next
    case False
    then show ?thesis using Cons.prems by (simp add: e set_value_twice)
  qed
qed

lemma stop_loop_length: "stop_loop m ps = Inr ps' \<Longrightarrow> length ps' = length ps"
  by (induction m ps rule: stop_loop.induct) (auto simp: rbind_Inr_iff dest: set_value_length)

text \<open>Cleaning up removes the expired requests.\<close>

lemma cleanup_loop_shape:
  "cleanup_loop now m ps = Inr (m', ps') \<Longrightarrow>
     m' = filter (\<lambda>(k, req). \<not> request_expired now req) m \<and> length ps' = length ps"
  by (induction now m ps arbitrary: m' ps' rule: cleanup_loop.induct)
    (auto simp: rbind_Inr_iff dest: set_value_length split: if_splits)

lemma cleanup_loop_none:
  "\<forall>(k, req) \<in> set m. \<not> request_expired now req \<Longrightarrow> cleanup_loop now m ps = Inr (m, ps)"
  by (induction m) auto

lemma cleanup_loop_twice:
  assumes "distinct (promises_of m)" and "\<forall>p \<in> set (promises_of m). p < length ps"
    and "(k, req) \<in> set m" and "request_expired now req" and "ps ! pr_promise req \<noteq> Unset"
  shows "cleanup_loop now m ps = Inl Promise_already_satisfied"
  using assms
proof (induction now m ps rule: cleanup_loop.induct)
  case (2 now k' req' it ps)
  show ?case
  proof (cases "(k, req) = (k', req')")
    case True
    then show ?thesis using 2 by (simp add: set_value_twice)
  next
    case False
    then have mem: "(k, req) \<in> set it" using 2 by auto
    then have ne: "pr_promise req \<noteq> pr_promise req'"
      using 2(3) by (force simp: promises_of_def)
    show ?thesis
    proof (cases "request_expired now req'")
      case True
      then show ?thesis
        using 2 mem ne by (cases "ps ! pr_promise req' = Unset") (auto simp: set_value_ok set_value_twice)
    next
      case False
      then show ?thesis using 2 mem by auto
    qed
  qed
qed simp

lemma app_ok_filter:
  assumes "app_ok ap" and "length ps = length (ap_promises ap)"
  shows "app_ok (ap\<lparr>ap_pending_requests := filter P (ap_pending_requests ap), ap_promises := ps\<rparr>)"
  using assms
  by (auto simp: app_ok_def om_ok_filter promises_of_def distinct_map
      intro: inj_on_subset)

lemma promises_of_put:
  "set (promises_of (om_put k v m)) \<subseteq> insert (pr_promise v) (set (promises_of m)) \<and>
   (distinct (promises_of m) \<and> pr_promise v \<notin> set (promises_of m) \<longrightarrow>
      distinct (promises_of (om_put k v m)))"
proof (induction k v m rule: om_put.induct)
  case (2 k v a b m)
  then show ?case by (cases "k < a"; cases "k = a") auto
qed simp

lemma enter_request_facts:
  assumes "app_ok ap"
  defines "f \<equiv> length (ap_promises ap)"
  shows "app_ok (enter_request now timeout m ap)"
    and "length (ap_promises (enter_request now timeout m ap)) = Suc f"
    and "ap_promises (enter_request now timeout m ap) ! f = Unset"
    and "om_get (ap_pending_requests (enter_request now timeout m ap)) (get_request_id m) =
      Some \<lparr>pr_promise = f, pr_timestamp = now, pr_timeout = timeout\<rparr>"
    and "ap_running (enter_request now timeout m ap) = ap_running ap"
    and "ap_method_handlers (enter_request now timeout m ap) = ap_method_handlers ap"
proof -
  let ?ap = "enter_request now timeout m ap"
  let ?m = "ap_pending_requests ap" and ?k = "get_request_id m"
  let ?v = "\<lparr>pr_promise = f, pr_timestamp = now, pr_timeout = timeout\<rparr>"
  have range: "\<forall>p \<in> set (promises_of ?m). p < f" and om: "om_ok ?m"
    and d: "distinct (promises_of ?m)"
    using assms by (auto simp: app_ok_def)
  have pend: "ap_pending_requests ?ap = om_put ?k ?v ?m"
    by (simp add: enter_request_def Let_def f_def)
  show len: "length (ap_promises ?ap) = Suc f"
    by (simp add: enter_request_def Let_def f_def split: option.split)
  show "app_ok ?ap"
    using promises_of_put [of ?k ?v ?m] range om d len
    by (fastforce simp: app_ok_def pend om_ok_put)
  show "om_get (ap_pending_requests ?ap) ?k = Some ?v"
    using om by (simp add: pend om_get_put)
  have "pr_promise old < f" if "om_get ?m ?k = Some old" for old
    using that range om_get_set [OF om] by (force simp: promises_of_def)
  then show "ap_promises ?ap ! f = Unset"
    by (auto simp: enter_request_def Let_def f_def abandon_def nth_append nth_list_update
        split: option.split)
qed (simp_all add: enter_request_def Let_def)

lemma app_ok_promises:
  "app_ok ap \<Longrightarrow> length ps = length (ap_promises ap) \<Longrightarrow> app_ok (ap\<lparr>ap_promises := ps\<rparr>)"
  by (simp add: app_ok_def)

lemma app_ok_pending:
  "app_ok ap \<Longrightarrow> om_get (ap_pending_requests ap) k = Some req \<Longrightarrow>
     pr_promise req < length (ap_promises ap)"
  by (force simp: app_ok_def promises_of_def om_get_set)

lemma app_ok_send_request:
  assumes "app_ok ap"
    and "app_send_request os now service instance method payload reliable timeout ap rt w =
      Inr (f, ap', rt', w')"
  shows "app_ok ap'"
  using assms enter_request_facts(1) [OF assms(1)]
  by (auto simp: app_send_request_def Let_def with_sd_def rbind_Inr_iff
      intro!: app_ok_promises dest: set_value_length split: option.splits if_splits)

lemma app_ok_stop: "app_ok ap \<Longrightarrow> app_stop ap = Inr ap' \<Longrightarrow> app_ok ap'"
  by (auto simp: app_stop_def rbind_Inr_iff app_ok_def om_empty_def split: if_splits)

lemma app_ok_cleanup:
  "app_ok ap \<Longrightarrow> cleanup_expired_requests now ap = Inr ap' \<Longrightarrow> app_ok ap'"
  by (auto simp: cleanup_expired_requests_def rbind_Inr_iff dest!: cleanup_loop_shape
      intro: app_ok_filter)

lemma app_ok_response:
  assumes "app_ok ap" and "handle_response_message m ap = Inr ap'"
  shows "app_ok ap'"
proof (cases "om_get (ap_pending_requests ap) (get_request_id m)")
  case (Some req)
  then obtain ps where "set_value (pr_promise req) m (ap_promises ap) = Inr ps"
    and "ap' = ap\<lparr>ap_promises := ps,
      ap_pending_requests := om_del (get_request_id m) (ap_pending_requests ap)\<rparr>"
    using assms(2) by (auto simp: handle_response_message_def rbind_Inr_iff)
  then show ?thesis
    using app_ok_filter [OF assms(1), of ps "\<lambda>e. fst e \<noteq> get_request_id m"]
    by (auto simp: om_del_def app_ok_def dest: set_value_length)
qed (use assms in \<open>simp add: handle_response_message_def\<close>)

lemma app_ok_handle_message:
  assumes "app_ok ap" and "handle_message os now m ap rt w = Inr (ap', rt', w', actions)"
  shows "app_ok ap'"
  using assms
  by (auto simp: handle_message_def dispatch_message_def rbind_Inr_iff
      intro: app_ok_cleanup app_ok_response split: if_splits option.splits)

text \<open>Runs of an application: its operations, each on some runtime and world.\<close>

inductive app_step :: "'w os \<Rightarrow> application \<Rightarrow> application \<Rightarrow> bool" for os where
  Start: "app_step os ap (app_start ap)"
| Stop: "app_stop ap = Inr ap' \<Longrightarrow> app_step os ap ap'"
| Send_request: "app_send_request os now service instance method payload reliable timeout ap rt w =
    Inr (f, ap', rt', w') \<Longrightarrow> app_step os ap ap'"
| Send_no_return: "app_send_request_no_return os service instance method payload reliable ap rt w =
    Inr (sent, ap', rt', w') \<Longrightarrow> app_step os ap ap'"
| Subscribe: "app_subscribe_event le locked now service instance eventgroup event major ap rt =
    Inr (ok, ap', rt', actions) \<Longrightarrow> app_step os ap ap'"
| Set_event_handler: "app_step os ap (app_set_event_handler event h ap)"
| Register_method: "app_step os ap (app_register_method_handler method h ap)"
| Unregister_method: "app_step os ap (app_unregister_method_handler method ap)"
| Offer_event: "app_offer_event junk config ap rt = Inr (ap', rt') \<Longrightarrow> app_step os ap ap'"
| Stop_offer_event: "app_stop_offer_event service instance event ap rt = Inr (ap', rt') \<Longrightarrow>
    app_step os ap ap'"
| Offer_field: "app_offer_field junk config getter setter ap rt = Inr (ap', rt') \<Longrightarrow>
    app_step os ap ap'"
| Set_field: "app_set_field_value os field v ap rt w = Inr (ap', rt', w') \<Longrightarrow> app_step os ap ap'"
| Set_availability: "app_step os ap (app_set_availability_handler h ap)"
| Handle: "handle_message os now m ap rt w = Inr (ap', rt', w', actions) \<Longrightarrow> app_step os ap ap'"

inductive app_reachable :: "'w os \<Rightarrow> application \<Rightarrow> bool" for os where
  Init: "app_reachable os (Application name)"
| Step: "app_reachable os ap \<Longrightarrow> app_step os ap ap' \<Longrightarrow> app_reachable os ap'"

text \<open>The operations that touch neither requests nor promises.\<close>

definition same_requests :: "application \<Rightarrow> application \<Rightarrow> bool" where
  "same_requests ap ap' \<longleftrightarrow> ap_pending_requests ap' = ap_pending_requests ap \<and>
     ap_promises ap' = ap_promises ap"

lemma same_requests_update [simp]:
  "same_requests ap (ap\<lparr>ap_event_configs := c\<rparr>)"
  "same_requests ap (ap\<lparr>ap_session_id := i\<rparr>)"
  "same_requests ap (ap\<lparr>ap_fields := f\<rparr>)"
  "same_requests (ap\<lparr>ap_fields := f\<rparr>) ap' = same_requests ap ap'"
  by (simp_all add: same_requests_def)

lemma app_ok_frame: "app_ok ap \<Longrightarrow> same_requests ap ap' \<Longrightarrow> app_ok ap'"
  by (simp add: app_ok_def same_requests_def)

lemma send_no_return_frame:
  "app_send_request_no_return os service instance method payload reliable ap rt w =
     Inr (sent, ap', rt', w') \<Longrightarrow> same_requests ap ap'"
  by (auto simp: app_send_request_no_return_def Let_def with_sd_def rbind_Inr_iff
      split: option.splits)

lemma subscribe_event_frame:
  assumes "app_subscribe_event le locked now service instance eventgroup event major ap rt =
    Inr (ok, ap', rt', actions)"
  shows "same_requests ap ap'"
proof (cases "with_shm (send_subscribe le locked service instance eventgroup major) rt")
  case (Inr r)
  obtain sent rt1 acts where r: "r = (sent, rt1, acts)" by (cases r)
  show ?thesis
  proof (cases "rt_service_discovery rt1")
    case None
    then show ?thesis using assms
      by (cases sent) (auto simp: app_subscribe_event_def Inr r with_sd_def)
  next
    case (Some sd)
    then show ?thesis using assms
      by (cases sent) (auto simp: app_subscribe_event_def Inr r with_sd_def
          subscribe_eventgroup_def)
  qed
qed (use assms in \<open>simp add: app_subscribe_event_def\<close>)

lemma offer_event_frame:
  "app_offer_event junk config ap rt = Inr (ap', rt') \<Longrightarrow> same_requests ap ap'"
  by (auto simp: app_offer_event_def Let_def with_sd_def split: option.splits)

lemma stop_offer_event_frame:
  "app_stop_offer_event service instance event ap rt = Inr (ap', rt') \<Longrightarrow> same_requests ap ap'"
  by (auto simp: app_stop_offer_event_def with_sd_def same_requests_def split: option.splits)

lemma offer_field_frame:
  "app_offer_field junk config getter setter ap rt = Inr (ap', rt') \<Longrightarrow> same_requests ap ap'"
  unfolding app_offer_field_def by (drule offer_event_frame) simp

lemma set_field_frame:
  "app_set_field_value os field v ap rt w = Inr (ap', rt', w') \<Longrightarrow> same_requests ap ap'"
  by (auto simp: app_set_field_value_def Let_def rbind_Inr_iff same_requests_def
      split: option.splits)

lemma app_ok_step:
  assumes "app_step os ap ap'" and "app_ok ap"
  shows "app_ok ap'"
  using assms(1)
proof (cases rule: app_step.cases)
  case Stop
  then show ?thesis by (rule app_ok_stop [OF assms(2)])
next
  case Send_request
  then show ?thesis by (rule app_ok_send_request [OF assms(2)])
next
  case Handle
  then show ?thesis by (rule app_ok_handle_message [OF assms(2)])
next
  case Send_no_return
  from send_no_return_frame [OF this] show ?thesis by (rule app_ok_frame [OF assms(2)])
next
  case Subscribe
  from subscribe_event_frame [OF this] show ?thesis by (rule app_ok_frame [OF assms(2)])
next
  case Offer_event
  from offer_event_frame [OF this] show ?thesis by (rule app_ok_frame [OF assms(2)])
next
  case Stop_offer_event
  from stop_offer_event_frame [OF this] show ?thesis by (rule app_ok_frame [OF assms(2)])
next
  case Offer_field
  from offer_field_frame [OF this] show ?thesis by (rule app_ok_frame [OF assms(2)])
next
  case Set_field
  from set_field_frame [OF this] show ?thesis by (rule app_ok_frame [OF assms(2)])
qed (use assms(2) in \<open>simp_all add: app_ok_def app_start_def app_set_event_handler_def
    app_register_method_handler_def app_unregister_method_handler_def
    app_set_availability_handler_def\<close>)

lemma app_reachable_ok: "app_reachable os ap \<Longrightarrow> app_ok ap"
proof (induction rule: app_reachable.induct)
  case (Init name)
  show ?case by (simp add: Application_def app_ok_def om_empty_def)
next
  case (Step ap ap')
  then show ?case by (blast intro: app_ok_step)
qed

section \<open>Properties\<close>

text \<open> C10: stopping. In every reachable state the pending requests have pairwise different
  promises, and all of these exist. An application that is not running is left as it is, pending
  requests included. One that is running: if none of the promises is satisfied, \<open>stop\<close> answers each
  of them, and no other, with E_NOT_OK, forgets the requests and ends the running; if one of them is
  satisfied already, \<open>stop\<close>, and so the destructor, throws \<open>future_error\<close>. \<close>
theorem stop_answers_pending:
  assumes "app_reachable os ap"
  shows "distinct (promises_of (ap_pending_requests ap)) \<and>
    (\<forall>p \<in> set (promises_of (ap_pending_requests ap)). p < length (ap_promises ap)) \<and>
    (if \<not> ap_running ap then app_stop ap = Inr ap
     else if \<forall>p \<in> set (promises_of (ap_pending_requests ap)). ap_promises ap ! p = Unset then
       (\<exists>ap'. app_stop ap = Inr ap' \<and> \<not> ap_running ap' \<and> ap_pending_requests ap' = [] \<and>
          length (ap_promises ap') = length (ap_promises ap) \<and>
          (\<forall>p < length (ap_promises ap). ap_promises ap' ! p =
             (if p \<in> set (promises_of (ap_pending_requests ap)) then Value stop_response
              else ap_promises ap ! p)))
     else app_stop ap = Inl Promise_already_satisfied)"
proof -
  have d: "distinct (promises_of (ap_pending_requests ap))"
    and r: "\<forall>p \<in> set (promises_of (ap_pending_requests ap)). p < length (ap_promises ap)"
    using app_reachable_ok [OF assms(1)] by (auto simp: app_ok_def)
  then show ?thesis
    by (auto simp: app_stop_def stop_loop_all [OF d r] om_empty_def)
qed

text \<open>A client of a runtime with service discovery and no services known.\<close>

definition client_runtime :: runtime where
  "client_runtime = demo_runtime\<lparr>rt_service_discovery := Some (ServiceDiscovery default_config)\<rparr>"

definition client :: application where
  "client = app_start (Application ''client'')"

lemma client_reachable: "app_reachable os client"
  unfolding client_def by (rule app_reachable.Step [OF app_reachable.Init app_step.Start])

lemma client_runtime_simps [simp]:
  "rt_service_discovery client_runtime = Some (ServiceDiscovery default_config)"
  "rt_client_id client_runtime = rt_client_id demo_runtime"
  "get_service_endpoints service instance (ServiceDiscovery default_config) = []"
  by (simp_all add: client_runtime_def get_service_endpoints_def ServiceDiscovery_def om_get_def
      om_empty_def)

theorem stop_answers_pending_witness:
  "\<exists>ap'. app_stop client = Inr ap' \<and> ap_pending_requests ap' = []"
proof -
  have "ap_running client" "ap_pending_requests client = []"
    by (simp_all add: client_def app_start_def Application_def om_empty_def)
  then show ?thesis using stop_answers_pending [OF client_reachable [of queue_os]] by auto
qed

text \<open>An endpoint the request can be sent to.\<close>

definition usable :: "bool \<Rightarrow> endpoint \<Rightarrow> bool" where
  "usable reliable ep \<longleftrightarrow> ep_protocol ep = (if reliable then TCP else UDP)"

lemma send_first_unusable:
  "\<forall>ep \<in> set eps. \<not> usable reliable ep \<Longrightarrow> send_first os m reliable eps rt w = Inr (False, rt, w)"
  by (induction eps) (auto simp: usable_def)

text \<open>A promise that has a value keeps it: whatever would set it again throws.\<close>

lemma set_value_keeps: "set_value p m ps = Inr ps' \<Longrightarrow> ps ! f \<noteq> Unset \<Longrightarrow> ps' ! f = ps ! f"
  by (auto simp: set_value_def nth_list_update split: if_splits)

lemma abandon_keeps: "ps ! f \<noteq> Unset \<Longrightarrow> abandon p ps ! f = ps ! f"
  by (auto simp: abandon_def nth_list_update)

lemma cleanup_loop_keeps: "cleanup_loop now m ps = Inr (m', ps') \<Longrightarrow> ps ! f \<noteq> Unset \<Longrightarrow> ps' ! f = ps ! f"
proof (induction now m ps arbitrary: m' ps' rule: cleanup_loop.induct)
  case (2 now k req it ps)
  then show ?case by (fastforce simp: rbind_Inr_iff dest: set_value_keeps split: if_splits)
qed simp

text \<open>
  A request under the id \<open>k\<close> that is pending with a satisfied promise, and the states that follow as
  long as no newer request takes the id.
\<close>

definition answered_pending :: "u32 \<Rightarrow> pending_request \<Rightarrow> promise \<Rightarrow> application \<Rightarrow> bool" where
  "answered_pending k req v ap \<longleftrightarrow> om_get (ap_pending_requests ap) k = Some req \<and> v \<noteq> Unset \<and>
     pr_promise req < length (ap_promises ap) \<and> ap_promises ap ! pr_promise req = v"

inductive id_kept :: "'w os \<Rightarrow> u32 \<Rightarrow> pending_request \<Rightarrow> application \<Rightarrow> application \<Rightarrow> bool"
  for os and k and req and ap where
  Now: "id_kept os k req ap ap"
| Later: "id_kept os k req ap ap1 \<Longrightarrow> app_step os ap1 ap2 \<Longrightarrow>
    om_get (ap_pending_requests ap2) k \<in> {None, Some req} \<Longrightarrow> id_kept os k req ap ap2"

lemma answered_pending_member:
  assumes "app_ok ap" and "answered_pending k req v ap"
  shows "(k, req) \<in> set (ap_pending_requests ap)"
    and "pr_promise req \<in> set (promises_of (ap_pending_requests ap))"
  using assms by (force simp: app_ok_def answered_pending_def om_get_set promises_of_def)+

lemma answered_pending_throws:
  assumes "app_ok ap" and "answered_pending k req v ap"
  shows "ap_running ap \<Longrightarrow> app_stop ap = Inl Promise_already_satisfied"
    and "request_expired later req \<Longrightarrow> cleanup_expired_requests later ap = Inl Promise_already_satisfied"
    and "get_request_id m = k \<Longrightarrow> handle_response_message m ap = Inl Promise_already_satisfied"
proof -
  have ok: "distinct (promises_of (ap_pending_requests ap))"
    "\<forall>p \<in> set (promises_of (ap_pending_requests ap)). p < length (ap_promises ap)"
    using assms(1) by (auto simp: app_ok_def)
  note mem = answered_pending_member [OF assms]
  have set: "ap_promises ap ! pr_promise req \<noteq> Unset" "pr_promise req < length (ap_promises ap)"
    using assms(2) by (auto simp: answered_pending_def)
  show "app_stop ap = Inl Promise_already_satisfied" if "ap_running ap"
    using that mem(2) set(1) by (auto simp: app_stop_def stop_loop_all [OF ok])
  show "cleanup_expired_requests later ap = Inl Promise_already_satisfied" if "request_expired later req"
    using cleanup_loop_twice [OF ok mem(1) that set(1)] by (simp add: cleanup_expired_requests_def)
  show "handle_response_message m ap = Inl Promise_already_satisfied" if "get_request_id m = k"
    using that assms(2) set
    by (auto simp: handle_response_message_def answered_pending_def Let_def set_value_twice)
qed

lemma answered_pending_frame:
  "answered_pending k req v ap \<Longrightarrow> same_requests ap ap' \<Longrightarrow> answered_pending k req v ap'"
  by (simp add: answered_pending_def same_requests_def)

lemma answered_pending_cleanup:
  assumes "app_ok ap" and "answered_pending k req v ap" and "cleanup_expired_requests now ap = Inr ap'"
  shows "answered_pending k req v ap'"
proof -
  obtain m ps where loop: "cleanup_loop now (ap_pending_requests ap) (ap_promises ap) = Inr (m, ps)"
    and ap': "ap' = ap\<lparr>ap_pending_requests := m, ap_promises := ps\<rparr>"
    using assms(3) by (auto simp: cleanup_expired_requests_def rbind_Inr_iff)
  have "\<not> request_expired now req"
    using answered_pending_throws(2) [OF assms(1,2), of now] assms(3) by auto
  moreover have "om_ok (ap_pending_requests ap)" using assms(1) by (simp add: app_ok_def)
  ultimately have "om_get m k = Some req"
    using cleanup_loop_shape [OF loop] answered_pending_member(1) [OF assms(1,2)]
      om_get_set [of m k req] by (simp add: om_ok_filter)
  then show ?thesis
    using assms(2) cleanup_loop_shape [OF loop] cleanup_loop_keeps [OF loop, of "pr_promise req"]
    by (auto simp: answered_pending_def ap')
qed

lemma answered_pending_response:
  assumes "app_ok ap" and "answered_pending k req v ap" and "handle_response_message m ap = Inr ap'"
  shows "answered_pending k req v ap'"
proof (cases "om_get (ap_pending_requests ap) (get_request_id m)")
  case (Some r)
  then obtain ps where set: "set_value (pr_promise r) m (ap_promises ap) = Inr ps"
    and ap': "ap' = ap\<lparr>ap_promises := ps,
      ap_pending_requests := om_del (get_request_id m) (ap_pending_requests ap)\<rparr>"
    using assms(3) by (auto simp: handle_response_message_def rbind_Inr_iff)
  have "get_request_id m \<noteq> k"
    using answered_pending_throws(3) [OF assms(1,2), of m] assms(3) by auto
  then show ?thesis
    using assms(2) set_value_length [OF set] set_value_keeps [OF set, of "pr_promise req"]
    by (auto simp: answered_pending_def ap' om_get_del)
qed (use assms in \<open>simp add: handle_response_message_def\<close>)

lemma answered_pending_send:
  assumes "app_ok ap" and "answered_pending k req v ap"
    and "app_send_request os now service instance method payload reliable timeout ap rt w =
      Inr (f, ap', rt', w')"
    and "om_get (ap_pending_requests ap') k \<in> {None, Some req}"
  shows "answered_pending k req v ap'"
proof -
  define m where "m = request_message service instance method payload reliable ap rt"
  let ?ap = "enter_request now timeout m ap"
  have after: "ap' = ?ap \<or>
      (\<exists>x ps. set_value f x (ap_promises ?ap) = Inr ps \<and> ap' = ?ap\<lparr>ap_promises := ps\<rparr>)"
    using assms(3)
    by (auto simp: app_send_request_def Let_def m_def with_sd_def rbind_Inr_iff
        split: option.splits if_splits)
  have p: "pr_promise req < length (ap_promises ap)" "ap_promises ap ! pr_promise req \<noteq> Unset"
    using assms(2) by (auto simp: answered_pending_def)
  have other: "k \<noteq> get_request_id m"
    using after assms(4) p(1) enter_request_facts(4) [OF assms(1), of now timeout m] by auto
  have "om_get (ap_pending_requests ?ap) k = Some req"
    using other assms(1,2)
    by (simp add: enter_request_def Let_def answered_pending_def app_ok_def om_get_put)
  moreover have "ap_promises ?ap ! pr_promise req = ap_promises ap ! pr_promise req"
    using p by (auto simp: enter_request_def Let_def abandon_keeps nth_append split: option.split)
  moreover have "length (ap_promises ?ap) = Suc (length (ap_promises ap))"
    by (rule enter_request_facts(2) [OF assms(1)])
  ultimately have "answered_pending k req v ?ap" using assms(2) by (simp add: answered_pending_def)
  then show ?thesis
    using after by (auto simp: answered_pending_def dest: set_value_keeps set_value_length)
qed

lemma answered_pending_step:
  assumes "app_step os ap ap'" and "app_ok ap" and "answered_pending k req v ap"
    and "om_get (ap_pending_requests ap') k \<in> {None, Some req}"
  shows "answered_pending k req v ap'"
  using assms(1)
proof (cases rule: app_step.cases)
  case Stop
  then have "ap' = ap"
    using answered_pending_throws(1) [OF assms(2,3)] by (cases "ap_running ap") (auto simp: app_stop_def)
  then show ?thesis using assms(3) by simp
next
  case Send_request
  then show ?thesis by (rule answered_pending_send [OF assms(2,3) _ assms(4)])
next
  case (Handle now m rt w rt' w' actions)
  then obtain ap1 where ap1: "ap1 = ap \<or> handle_response_message m ap = Inr ap1"
      "cleanup_expired_requests now ap1 = Inr ap'"
    by (auto simp: handle_message_def dispatch_message_def rbind_Inr_iff split: if_splits option.splits)
  then show ?thesis
    using answered_pending_cleanup answered_pending_response assms(2,3) app_ok_response by blast
next
  case Send_no_return
  from send_no_return_frame [OF this] show ?thesis by (rule answered_pending_frame [OF assms(3)])
next
  case Subscribe
  from subscribe_event_frame [OF this] show ?thesis by (rule answered_pending_frame [OF assms(3)])
next
  case Offer_event
  from offer_event_frame [OF this] show ?thesis by (rule answered_pending_frame [OF assms(3)])
next
  case Stop_offer_event
  from stop_offer_event_frame [OF this] show ?thesis by (rule answered_pending_frame [OF assms(3)])
next
  case Offer_field
  from offer_field_frame [OF this] show ?thesis by (rule answered_pending_frame [OF assms(3)])
next
  case Set_field
  from set_field_frame [OF this] show ?thesis by (rule answered_pending_frame [OF assms(3)])
qed (use assms(3) in \<open>simp_all add: answered_pending_def app_start_def app_set_event_handler_def
    app_register_method_handler_def app_unregister_method_handler_def
    app_set_availability_handler_def\<close>)

lemma answered_pending_kept:
  assumes "id_kept os k req ap ap'" and "app_ok ap" and "answered_pending k req v ap"
  shows "app_ok ap' \<and> answered_pending k req v ap'"
  using assms(1)
  by (induction rule: id_kept.induct) (use assms(2,3) app_ok_step answered_pending_step in blast)+

text \<open> C17: a request that cannot be sent is a time bomb. If no endpoint discovery knows takes the
  request, its future holds E_NOT_REACHABLE at once; but the request stays among the pending ones
  with its promise satisfied. It stays there from then on, through whatever operations the
  application completes, as long as no newer request takes its id; and in every state it stays in,
  \<open>stop\<close> and the destructor of a running application, the clean-up once the timeout is over, and an
  answer with its id throw \<open>future_error\<close>, which nothing catches. \<close>
theorem unreachable_request_throws_later:
  assumes "app_reachable os ap" and "rt_service_discovery rt = Some sd"
    and "req = request_message service instance method payload reliable ap rt"
    and "send_first os req reliable (get_service_endpoints service instance sd) rt w =
      Inr (False, rt', w')"
    and "v = Value (create_error_response req E_NOT_REACHABLE)"
    and "entry = \<lparr>pr_promise = length (ap_promises ap), pr_timestamp = now, pr_timeout = timeout\<rparr>"
  shows "\<exists>ap1. app_send_request os now service instance method payload reliable timeout ap rt w =
      Inr (length (ap_promises ap), ap1, rt', w') \<and>
    (\<forall>ap2. id_kept os (get_request_id req) entry ap1 ap2 \<longrightarrow>
      om_get (ap_pending_requests ap2) (get_request_id req) = Some entry \<and>
      ap_promises ap2 ! length (ap_promises ap) = v \<and>
      (ap_running ap2 \<longrightarrow> app_stop ap2 = Inl Promise_already_satisfied) \<and>
      (\<forall>later. timeout < to_milliseconds (later - now) \<longrightarrow>
         cleanup_expired_requests later ap2 = Inl Promise_already_satisfied) \<and>
      (\<forall>m. get_request_id m = get_request_id req \<longrightarrow>
         handle_response_message m ap2 = Inl Promise_already_satisfied))"
proof -
  define f where "f = length (ap_promises ap)"
  define ap0 where "ap0 = enter_request now timeout req ap"
  let ?ap1 = "ap0\<lparr>ap_promises := (ap_promises ap0)[f := v]\<rparr>"
  note facts = enter_request_facts [OF app_reachable_ok [OF assms(1)], of now timeout req,
      folded ap0_def f_def]
  have sent: "app_send_request os now service instance method payload reliable timeout ap rt w =
      Inr (f, ?ap1, rt', w')"
    using assms(2,4,5) facts(2,3)
    by (auto simp: app_send_request_def Let_def assms(3) [symmetric] ap0_def [symmetric]
        f_def [symmetric] with_sd_def set_value_ok)
  have ok: "app_ok ?ap1" using facts(1) by (simp add: app_ok_def)
  have ans: "answered_pending (get_request_id req) entry v ?ap1"
    using facts(2,4) assms(5,6) by (simp add: answered_pending_def f_def)
  have "om_get (ap_pending_requests ap2) (get_request_id req) = Some entry \<and> ap_promises ap2 ! f = v \<and>
      (ap_running ap2 \<longrightarrow> app_stop ap2 = Inl Promise_already_satisfied) \<and>
      (\<forall>later. timeout < to_milliseconds (later - now) \<longrightarrow>
         cleanup_expired_requests later ap2 = Inl Promise_already_satisfied) \<and>
      (\<forall>m. get_request_id m = get_request_id req \<longrightarrow>
         handle_response_message m ap2 = Inl Promise_already_satisfied)"
    if "id_kept os (get_request_id req) entry ?ap1 ap2" for ap2
    using answered_pending_kept [OF that ok ans] answered_pending_throws [of ap2 _ entry v] assms(6)
    by (auto simp: answered_pending_def f_def request_expired_def)
  then show ?thesis using sent unfolding f_def by blast
qed

theorem unreachable_request_throws_later_witness:
  "\<exists>f ap'. app_send_request queue_os 0 0x1234 1 7 [] False 5000 client client_runtime [] =
      Inr (f, ap', client_runtime, []) \<and> app_stop (ap'\<lparr>ap_running := True\<rparr>) = Inl Promise_already_satisfied"
proof -
  let ?req = "request_message 0x1234 1 7 [] False client client_runtime"
  let ?entry = "\<lparr>pr_promise = length (ap_promises client), pr_timestamp = 0, pr_timeout = 5000\<rparr>"
  have none: "send_first queue_os ?req False (get_service_endpoints 0x1234 1
      (ServiceDiscovery default_config)) client_runtime [] = Inr (False, client_runtime, [])"
    by simp
  obtain ap1 where ap1: "app_send_request queue_os 0 0x1234 1 7 [] False 5000 client client_runtime [] =
      Inr (length (ap_promises client), ap1, client_runtime, [])"
    "\<And>ap2. id_kept queue_os (get_request_id ?req) ?entry ap1 ap2 \<Longrightarrow> ap_running ap2 \<Longrightarrow>
      app_stop ap2 = Inl Promise_already_satisfied"
    "om_get (ap_pending_requests ap1) (get_request_id ?req) = Some ?entry"
    using unreachable_request_throws_later [OF client_reachable client_runtime_simps(1) refl none refl refl,
        of 0 5000] id_kept.Now by blast
  let ?ap2 = "app_start ap1"
  have "id_kept queue_os (get_request_id ?req) ?entry ap1 ?ap2"
    by (rule id_kept.Later [OF id_kept.Now app_step.Start]) (use ap1(3) in \<open>simp add: app_start_def\<close>)
  moreover have "?ap2 = ap1\<lparr>ap_running := True\<rparr>" by (cases ap1) (simp add: app_start_def)
  ultimately show ?thesis using ap1(1,2) by fastforce
qed

text \<open>A request and its response keep their id over the wire.\<close>

lemma request_message_wire:
  assumes "length payload < 2 ^ 32"
    and "req = request_message service instance method payload reliable ap rt"
  shows "wire_ok req"
  using assms
  by (simp add: request_message_def set_payload_def create_request_def new_message_def wire_ok_def
      payload_bytes_def payload_of_def SOMEIP_PROTOCOL_VERSION_def)

lemma response_wire:
  assumes "length answer < 2 ^ 32"
  shows "wire_ok (set_payload answer (create_response m))"
    and "get_request_id (wire_view (set_payload answer (create_response m))) = get_request_id m"
    and "is_response_type (wire_view (set_payload answer (create_response m)))"
    and "payload_bytes (wire_view (set_payload answer (create_response m))) = answer"
  using assms
  by (simp_all add: set_payload_def create_response_def new_message_def wire_ok_def wire_view_def
      payload_bytes_def payload_of_def SOMEIP_PROTOCOL_VERSION_def get_request_id_def
      is_response_type_def)

lemma wire_view_request_id [simp]: "get_request_id (wire_view m) = get_request_id m"
  by (simp add: wire_view_def get_request_id_def)

lemma app_send_request_sent:
  assumes "rt_service_discovery rt = Some sd"
    and "req = request_message service instance method payload reliable ap rt"
    and "send_first os req reliable (get_service_endpoints service instance sd) rt w =
      Inr (True, rt', w')"
  shows "app_send_request os now service instance method payload reliable timeout ap rt w =
    Inr (length (ap_promises ap), enter_request now timeout req ap, rt', w')"
  using assms by (auto simp: app_send_request_def Let_def with_sd_def)

lemma entered_not_expired:
  assumes "app_ok ap" and "\<forall>(k, r) \<in> set (ap_pending_requests ap).
      k \<noteq> get_request_id req \<longrightarrow> \<not> request_expired later r"
  shows "\<forall>(k, r) \<in> set (om_del (get_request_id req) (ap_pending_requests (enter_request now timeout req ap))).
    \<not> request_expired later r"
proof safe
  fix k r
  assume "(k, r) \<in> set (om_del (get_request_id req)
      (ap_pending_requests (enter_request now timeout req ap)))" and ex: "request_expired later r"
  then have k: "(k, r) \<in> set (ap_pending_requests (enter_request now timeout req ap))"
    "k \<noteq> get_request_id req"
    by (auto simp: om_del_def)
  then have "om_get (ap_pending_requests ap) k = Some r"
    using assms(1) enter_request_facts(1) [OF assms(1), of now timeout req]
    by (auto simp: enter_request_def Let_def app_ok_def om_get_put simp flip: om_get_set)
  then show False using assms k(2) ex by (auto simp: app_ok_def om_get_set)
qed

text \<open> C2: a call and its answer. When a request could be sent, its future is open; when the server's
  response to the request it decoded comes back over the wire, however late, and no other
  pending request has timed out, \<open>handle_message\<close> puts exactly this response, with the payload
  the server gave, into exactly this future, forgets the request and touches no older future. \<close>
theorem request_response_roundtrip:
  assumes "app_reachable os ap" and "rt_service_discovery rt = Some sd"
    and "req = request_message service instance method payload reliable ap rt"
    and "send_first os req reliable (get_service_endpoints service instance sd) rt w =
      Inr (True, rt', w')"
    and "length payload < 2 ^ 32" and "length answer < 2 ^ 32"
    and "deserialize (serialize req) (length (serialize req)) = Inr (Some m)"
    and "bs = serialize (set_payload answer (create_response m))"
    and "\<forall>(k, r) \<in> set (ap_pending_requests ap).
      k \<noteq> get_request_id req \<longrightarrow> \<not> request_expired later r"
  shows "\<exists>f ap1 r ap2.
    app_send_request os now service instance method payload reliable timeout ap rt w =
      Inr (f, ap1, rt', w') \<and> ap_promises ap1 ! f = Unset \<and>
    deserialize bs (length bs) = Inr (Some r) \<and> payload_bytes r = answer \<and>
    handle_message os later r ap1 rt2 w2 = Inr (ap2, rt2, w2, []) \<and>
    ap_promises ap2 ! f = Value r \<and> (\<forall>g < f. ap_promises ap2 ! g = ap_promises ap1 ! g) \<and>
    om_get (ap_pending_requests ap2) (get_request_id req) = None"
proof -
  define ap1 where "ap1 = enter_request now timeout req ap"
  define f where "f = length (ap_promises ap)"
  let ?k = "get_request_id req"
  let ?r = "wire_view (set_payload answer (create_response m))"
  have m: "m = wire_view req"
    using msg_codec.dec_enc_exact [OF request_message_wire [OF assms(5,3)]] assms(7) by simp
  note resp = response_wire [OF assms(6), of m]
  have dec: "deserialize bs (length bs) = Inr (Some ?r)"
    using msg_codec.dec_enc_exact [OF resp(1)] assms(8) by simp
  note facts = enter_request_facts [OF app_reachable_ok [OF assms(1)], of now timeout req,
      folded ap1_def f_def]
  have id: "get_request_id ?r = ?k" using resp(2) m by simp
  let ?ap2 = "ap1\<lparr>ap_promises := (ap_promises ap1)[f := Value ?r],
    ap_pending_requests := om_del ?k (ap_pending_requests ap1)\<rparr>"
  have "handle_response_message ?r ap1 = Inr ?ap2"
    unfolding handle_response_message_def id using facts(2-4) by (simp add: set_value_ok)
  then have disp: "dispatch_message os ?r ap1 rt2 w2 = Inr (?ap2, rt2, w2, [])"
    using resp(3) by (simp add: dispatch_message_def)
  note none = entered_not_expired [OF app_reachable_ok [OF assms(1)] assms(9), of now timeout,
      folded ap1_def]
  have "cleanup_expired_requests later ?ap2 = Inr ?ap2"
    by (simp add: cleanup_expired_requests_def cleanup_loop_none [OF none])
  then have handled: "handle_message os later ?r ap1 rt2 w2 = Inr (?ap2, rt2, w2, [])"
    by (simp add: handle_message_def disp)
  have "ap_promises ?ap2 ! f = Value ?r" "\<forall>g < f. ap_promises ?ap2 ! g = ap_promises ap1 ! g"
    "om_get (ap_pending_requests ?ap2) ?k = None"
    using facts(2) by (simp_all add: om_get_del)
  with app_send_request_sent [OF assms(2-4), of now timeout, folded ap1_def f_def]
    facts(3) dec resp(4) handled show ?thesis by blast
qed

text \<open>A short message over UDP is one datagram.\<close>

lemma send_message_short_udp:
  assumes "dgram_send os (ut_socket_fd (rt_udp_transport rt)) log"
    and "0 \<le> ut_socket_fd (rt_udp_transport rt)" and "os_pton os address = Some a"
    and "length (payload_bytes m) \<le> UDP_SEGMENT_SIZE"
  shows "\<exists>w'. send_message os m address port False rt w = Inr (True, rt, w') \<and>
    log w' = log w @ [(serialize m, a, port)]"
proof -
  obtain w' where "udp_send_to os m address port (rt_udp_transport rt) w = (True, w')"
    and "log w' = log w @ [(serialize m, a, port)]"
    using udp_send_logged [OF assms(1-3)] by blast
  moreover have "\<not> needs_segmentation
      (case m_payload m of None \<Rightarrow> 0 | Some p \<Rightarrow> payload_size p) UDP_SEGMENT_SIZE"
    using assms(4)
    by (simp add: needs_segmentation_def payload_bytes_def payload_size_def split: option.splits)
  ultimately show ?thesis by (simp add: send_message_def rt_send_one_def Let_def)
qed

text \<open>A runtime that has discovered one service.\<close>

definition server_endpoint :: endpoint where
  "server_endpoint = \<lparr>ep_address = ''127.0.0.1'', ep_port = 30509, ep_protocol = UDP\<rparr>"

definition server_info :: service_info where
  "server_info = \<lparr>si_service_id = 0x1234, si_instance_id = 1, si_major_version = 1,
     si_minor_version = 0, si_ttl = 3, si_last_update = 0, si_endpoints = [server_endpoint],
     si_is_offered = True, si_is_local = False\<rparr>"

definition peer_runtime :: runtime where
  "peer_runtime = demo_runtime\<lparr>rt_service_discovery :=
     Some (update_service_info server_info (ServiceDiscovery default_config))\<rparr>"

lemma peer_runtime_simps [simp]:
  "rt_service_discovery peer_runtime =
     Some (update_service_info server_info (ServiceDiscovery default_config))"
  "rt_udp_transport peer_runtime = demo_udp" "rt_client_id peer_runtime = 7"
  by (simp_all add: peer_runtime_def demo_runtime_def Runtime_def)

lemma peer_endpoints:
  "get_service_endpoints 0x1234 1 (update_service_info server_info (ServiceDiscovery default_config)) =
     [server_endpoint]"
  by (simp add: get_service_endpoints_def update_service_info_def server_info_def
      ServiceDiscovery_def om_empty_def om_get_def)

lemma peer_send:
  assumes "length (payload_bytes m) \<le> UDP_SEGMENT_SIZE"
  shows "\<exists>w'. send_first queue_os m False [server_endpoint] peer_runtime w = Inr (True, peer_runtime, w')"
proof -
  have "dgram_send queue_os (ut_socket_fd (rt_udp_transport peer_runtime)) (\<lambda>w. w)"
    by (rule queue_os_send)
  moreover have "0 \<le> ut_socket_fd (rt_udp_transport peer_runtime)"
    by (simp add: demo_udp_def)
  ultimately obtain w' where
    "send_message queue_os m ''127.0.0.1'' 30509 False peer_runtime w = Inr (True, peer_runtime, w')"
    using send_message_short_udp [OF _ _ queue_os_pton assms] by blast
  then show ?thesis by (simp add: server_endpoint_def)
qed

theorem request_response_roundtrip_witness:
  "\<exists>f ap1 w' m r ap2.
    app_send_request queue_os 0 0x1234 1 7 [5] False 5000 client peer_runtime [] =
      Inr (f, ap1, peer_runtime, w') \<and> payload_bytes r = [6, 7] \<and>
    handle_message queue_os 9 r ap1 peer_runtime [] = Inr (ap2, peer_runtime, [], []) \<and>
    ap_promises ap2 ! f = Value r"
proof -
  let ?req = "request_message 0x1234 1 7 [5] False client peer_runtime"
  have dec: "deserialize (serialize ?req) (length (serialize ?req)) = Inr (Some (wire_view ?req))"
    by (rule msg_codec.dec_enc_exact [OF request_message_wire [OF _ refl]]) simp
  have "length (payload_bytes ?req) \<le> UDP_SEGMENT_SIZE"
    by (simp add: request_message_def set_payload_def payload_bytes_def payload_of_def
        UDP_SEGMENT_SIZE_def)
  then obtain w' where sent: "send_first queue_os ?req False (get_service_endpoints 0x1234 1
      (update_service_info server_info (ServiceDiscovery default_config))) peer_runtime [] =
      Inr (True, peer_runtime, w')"
    using peer_send [of ?req "[]"] by (auto simp: peer_endpoints)
  have none: "\<forall>(k, r) \<in> set (ap_pending_requests client).
      k \<noteq> get_request_id ?req \<longrightarrow> \<not> request_expired 9 r"
    by (simp add: client_def app_start_def Application_def om_empty_def)
  show ?thesis
    using request_response_roundtrip [OF client_reachable peer_runtime_simps(1) refl sent _ _ dec
        refl none, of "[6, 7]" 0 5000 peer_runtime "[]"]
    by auto
qed

text \<open> Request ids come round. The session id has 16 bits and nothing checks that an id is
  free: a request whose id belongs to one that is still open takes its place, the future of the
  older request is broken (its \<open>get\<close> throws), and its answer will be taken for the new one's. \<close>
theorem session_reuse_breaks_future:
  assumes "app_reachable os ap"
    and "req = request_message service instance method payload reliable ap rt"
    and "om_get (ap_pending_requests ap) (get_request_id req) = Some old"
    and "ap_promises ap ! pr_promise old = Unset"
    and "app_send_request os now service instance method payload reliable timeout ap rt w =
      Inr (f, ap', rt', w')"
  shows "ap_promises ap' ! pr_promise old = Broken \<and> f \<noteq> pr_promise old \<and>
    map_option pr_promise (om_get (ap_pending_requests ap') (get_request_id req)) = Some f"
proof -
  have ok: "app_ok ap" by (rule app_reachable_ok [OF assms(1)])
  have old: "pr_promise old < length (ap_promises ap)" by (rule app_ok_pending [OF ok assms(3)])
  let ?ap = "enter_request now timeout req ap"
  have "ap_promises ?ap ! pr_promise old = Broken"
    using old assms(3,4)
    by (simp add: enter_request_def Let_def abandon_def nth_append)
  moreover have "f = length (ap_promises ap)" and
    "ap' = ?ap \<or> (\<exists>m ps. set_value f m (ap_promises ?ap) = Inr ps \<and> ap' = ?ap\<lparr>ap_promises := ps\<rparr>)"
    using assms(2,5)
    by (auto simp: app_send_request_def Let_def with_sd_def rbind_Inr_iff
        split: option.splits if_splits)
  ultimately show ?thesis
    using old enter_request_facts(4) [OF ok, of now timeout req]
    by (auto simp: set_value_def split: if_splits)
qed

text \<open>Requests without a return use up session ids and nothing else.\<close>

lemma sessions_reachable:
  assumes "app_reachable os ap"
  shows "app_reachable os (ap\<lparr>ap_session_id := ap_session_id ap + of_nat n\<rparr>)"
proof (induction n)
  case 0
  have "ap\<lparr>ap_session_id := ap_session_id ap\<rparr> = ap" by simp
  then show ?case using assms by simp
next
  case (Suc n)
  let ?ap = "ap\<lparr>ap_session_id := ap_session_id ap + of_nat n\<rparr>"
  have "app_send_request_no_return os 0 0 0 [] False ?ap client_runtime w =
      Inr (False, ?ap\<lparr>ap_session_id := ap_session_id ap + of_nat n + 1\<rparr>, client_runtime, w)" for w
    by (simp add: app_send_request_no_return_def Let_def with_sd_def)
  from app_reachable.Step [OF Suc.IH app_step.Send_no_return [OF this]] show ?case
    by (simp add: add.commute add.left_commute)
qed

definition first_request :: message where
  "first_request = request_message 0x1234 1 7 [] False client peer_runtime"

text \<open>A client with one open request, 65535 requests without return later.\<close>

definition waiting_client :: application where
  "waiting_client = (enter_request 0 5000 first_request client)\<lparr>ap_session_id := 1\<rparr>"

lemma client_simps [simp]:
  "ap_session_id client = 1" "ap_pending_requests client = []" "ap_promises client = []"
  by (simp_all add: client_def app_start_def Application_def om_empty_def)

lemma session_wraps: "(65537 :: u16) = 1"
  by simp

lemma waiting_client_reachable: "app_reachable queue_os waiting_client"
proof -
  let ?ap = "enter_request 0 5000 first_request client"
  have "length (payload_bytes first_request) \<le> UDP_SEGMENT_SIZE"
    by (simp add: first_request_def request_message_def set_payload_def payload_bytes_def
        payload_of_def UDP_SEGMENT_SIZE_def)
  then obtain w' where "send_first queue_os first_request False (get_service_endpoints 0x1234 1
      (update_service_info server_info (ServiceDiscovery default_config))) peer_runtime [] =
      Inr (True, peer_runtime, w')"
    using peer_send [of first_request "[]"] by (auto simp: peer_endpoints)
  from app_send_request_sent [OF peer_runtime_simps(1) first_request_def this]
  have "app_reachable queue_os ?ap"
    by (rule app_reachable.Step [OF client_reachable app_step.Send_request])
  moreover have "ap_session_id ?ap = 2"
    by (simp add: enter_request_def Let_def)
  ultimately show ?thesis
    using sessions_reachable [of queue_os ?ap 65535]
    by (simp add: waiting_client_def session_wraps)
qed

theorem session_reuse_breaks_future_witness:
  "\<exists>f ap'. app_send_request queue_os 9 0x1234 1 7 [] False 5000 waiting_client client_runtime [] =
      Inr (f, ap', client_runtime, []) \<and> ap_promises ap' ! 0 = Broken"
proof -
  let ?req = "request_message 0x1234 1 7 [] False waiting_client client_runtime"
  have "rt_client_id client_runtime = 7" by (simp add: demo_runtime_def Runtime_def)
  then have id: "get_request_id ?req = get_request_id first_request"
    by (simp add: get_request_id_def request_message_def first_request_def set_payload_def
        create_request_def waiting_client_def)
  have old: "om_get (ap_pending_requests waiting_client) (get_request_id ?req) =
      Some \<lparr>pr_promise = 0, pr_timestamp = 0, pr_timeout = 5000\<rparr>"
    unfolding id by (simp add: waiting_client_def enter_request_def om_get_def)
  have unset: "ap_promises waiting_client ! 0 = Unset" "length (ap_promises waiting_client) = 1"
    by (simp_all add: waiting_client_def enter_request_def om_get_def)
  obtain f ap' where send: "app_send_request queue_os 9 0x1234 1 7 [] False 5000 waiting_client
      client_runtime [] = Inr (f, ap', client_runtime, [])"
    using enter_request_facts(2,3) [OF app_reachable_ok [OF waiting_client_reachable]]
    by (auto simp: app_send_request_def Let_def with_sd_def set_value_ok)
  have "ap_promises ap' ! pr_promise \<lparr>pr_promise = 0, pr_timestamp = 0, pr_timeout = 5000\<rparr> = Broken"
    using session_reuse_breaks_future [OF waiting_client_reachable refl old _ send] unset by simp
  then show ?thesis using send by auto
qed

end
