(* ===== verification/RuntimeRuns.thy ===== *)
theory RuntimeRuns
  imports Runtime
begin

text \<open>
  Runs of a runtime: its life cycle, sending, registering, and receiving messages that a transport
  decoded from whatever bytes arrived, in any order. In between, the service discovery, the transports
  and the shared memory agent may change in any way: this covers their own operations, the turns of
  their threads, connections that are accepted or closed, and what a user of \<open>get_service_discovery\<close>
  does. What the handlers are given is well-formed in every run; the segments kept by the reassembler
  are the state the invariant is about.
\<close>

inductive rt_receives ::
    "'w os \<Rightarrow> (bytes \<Rightarrow> string) \<Rightarrow> runtime \<Rightarrow> rt_action list \<Rightarrow> bool" for os ntop where
  Rt_new: "rt_receives os ntop (Runtime config client) []"
| Rt_init: "rt_receives os ntop rt as \<Longrightarrow> rt_init os attach rt w = (ok, rt', w') \<Longrightarrow>
    rt_receives os ntop rt' as"
| Rt_start: "rt_receives os ntop rt as \<Longrightarrow> rt_receives os ntop (rt_start rt) as"
| Rt_stop: "rt_receives os ntop rt as \<Longrightarrow> rt_stop os order rt w = (rt', w') \<Longrightarrow>
    rt_receives os ntop rt' as"
| Rt_register: "rt_receives os ntop rt as \<Longrightarrow>
    rt_receives os ntop (register_service_handler service inst h rt) as"
| Rt_unregister: "rt_receives os ntop rt as \<Longrightarrow>
    rt_receives os ntop (unregister_service_handler service inst rt) as"
| Rt_send: "rt_receives os ntop rt as \<Longrightarrow>
    send_message os m address port reliable rt w = Inr (sent, rt', w') \<Longrightarrow>
    rt_receives os ntop rt' as"
| Rt_discovery: "rt_receives os ntop rt as \<Longrightarrow> rt_receives os ntop (rt\<lparr>rt_service_discovery := sd\<rparr>) as"
| Rt_udp_turn: "rt_receives os ntop rt as \<Longrightarrow> rt_receives os ntop (rt\<lparr>rt_udp_transport := ut\<rparr>) as"
| Rt_tcp_turn: "rt_receives os ntop rt as \<Longrightarrow> rt_receives os ntop (rt\<lparr>rt_tcp_transport := tt\<rparr>) as"
| Rt_shm_turn: "rt_receives os ntop rt as \<Longrightarrow> rt_receives os ntop (rt\<lparr>rt_shm_agent := shm\<rparr>) as"
| Rt_expire: "rt_receives os ntop rt as \<Longrightarrow>
    rt_receives os ntop (rt\<lparr>rt_tp_reassembler := cleanup_expired now (rt_tp_reassembler rt)\<rparr>) as"
| Rt_udp: "rt_receives os ntop rt as \<Longrightarrow> deserialize data (length data) = Inr (Some m) \<Longrightarrow>
    on_udp_message_received (os_pton os) ntop now m rt = Inr (rt', as') \<Longrightarrow>
    rt_receives os ntop rt' (as @ as')"
| Rt_tcp: "rt_receives os ntop rt as \<Longrightarrow> deserialize data (length data) = Inr (Some m) \<Longrightarrow>
    on_tcp_message_received now m cid rt = (rt', as') \<Longrightarrow>
    rt_receives os ntop rt' (as @ as')"

section \<open>Well-formed messages\<close>

text \<open>What a message from the wire is, and one a handler is given.\<close>

definition received_ok :: "message \<Rightarrow> bool" where
  "received_ok m \<longleftrightarrow> wire_ok m \<and> wire_view m = m"

definition delivered_ok :: "message \<Rightarrow> bool" where
  "delivered_ok m \<longleftrightarrow> received_ok m \<and> \<not> is_tp_message m"

lemma received_ok_deserialize:
  assumes "deserialize data (length data) = Inr (Some m)"
  shows "received_ok m"
proof -
  have d: "deserialize data (length data) =
      (if accepted data (length data) then Inr (Some (wire_message data)) else Inr None)"
    by (rule deserialize_eq) (auto simp: accepted_def)
  then have a: "accepted data (length data)" and m: "m = wire_message data"
    using assms by (auto split: if_splits)
  have "wire_view m = m"
    by (simp add: m wire_view_def wire_message_def payload_bytes_def payload_of_def new_message_def)
  then show ?thesis using serialize_wire_message(1) [OF a] by (simp add: received_ok_def m)
qed

section \<open>The reassembler\<close>

text \<open>Its buffers are made from received segments.\<close>

definition typed_buffer :: "reassembly_buffer \<Rightarrow> bool" where
  "typed_buffer b \<longleftrightarrow> rb_instance_id b = 0xFFFF \<and> rc_ok (rb_return_code b)"

definition typed_ra :: "reassembler \<Rightarrow> bool" where
  "typed_ra r \<longleftrightarrow> ra_ok r \<and> (\<forall>k b. om_get (ra_buffers r) k = Some b \<longrightarrow> typed_buffer b)"

lemma typed_ra_new [simp]: "typed_ra (TpReassembler t)"
  by (simp add: typed_ra_def ra_ok_empty) (simp add: TpReassembler_def om_empty_def om_get_def)

lemma received_ok_fields:
  assumes "received_ok m"
  shows "m_instance_id m = 0xFFFF" and "rc_ok (m_return_code m)"
proof -
  have "m_instance_id (wire_view m) = m_instance_id m" using assms by (simp only: received_ok_def)
  then show "m_instance_id m = 0xFFFF" by (simp add: wire_view_def)
qed (use assms in \<open>simp add: received_ok_def wire_ok_def\<close>)

lemma typed_new_buffer:
  assumes "received_ok m" and "b = fresh_buffer \<or> typed_buffer b \<and> rb_segments b \<noteq> []"
  shows "typed_buffer (new_buffer now m b)"
  using assms(2) received_ok_fields [OF assms(1)]
  by (auto simp: typed_buffer_def new_buffer_def store_segment_def init_buffer_def std_move_def
      Let_def om_empty_def fresh_buffer_def)

lemma typed_ra_add:
  assumes "typed_ra r" and "received_ok m"
  shows "typed_ra (snd (add_segment now (Some m) r))"
proof -
  have old: "old_buffer m r = fresh_buffer \<or> typed_buffer (old_buffer m r) \<and>
      rb_segments (old_buffer m r) \<noteq> []"
    using assms(1) by (auto simp: old_buffer_def typed_ra_def ra_ok_def buffer_ok_def
        split: option.splits)
  have "om_ok (ra_buffers r)" using assms(1) by (simp add: typed_ra_def ra_ok_def)
  then have "om_get (ra_buffers (snd (add_segment now (Some m) r))) k = Some b \<Longrightarrow> typed_buffer b" for k b
    using assms(1) typed_new_buffer [OF assms(2) old, of now]
    by (auto simp: add_segment_eq Let_def om_get_put typed_ra_def split: if_splits)
  then show ?thesis using assms(1) add_segment_ok [of r now "Some m"] by (auto simp: typed_ra_def)
qed

lemma typed_ra_expire:
  assumes "typed_ra r"
  shows "typed_ra (cleanup_expired now r)"
proof -
  have ok: "ra_ok (cleanup_expired now r)"
    using assms ra_step_ok [of r "Cleanup_expired now"] by (simp add: typed_ra_def)
  have "om_ok (ra_buffers r)" using assms by (simp add: typed_ra_def ra_ok_def)
  then have "om_get (ra_buffers r) k = Some b"
    if "om_get (ra_buffers (cleanup_expired now r)) k = Some b" for k b
    using that by (simp add: cleanup_expired_def erase_expired_filter om_get_filter split: option.splits if_splits)
  then show ?thesis using assms ok unfolding typed_ra_def by blast
qed

lemma typed_ra_reassemble:
  assumes "typed_ra r"
  shows "typed_ra (snd (reassemble k r))" and "fst (reassemble k r) = Some m \<Longrightarrow> delivered_ok m"
proof -
  have "ra_ok (snd (reassemble k r))"
    using assms ra_step_ok [of r "Reassemble k"] by (simp add: typed_ra_def)
  then show "typed_ra (snd (reassemble k r))"
    using assms by (auto simp: typed_ra_def reassemble_def om_get_del split: option.splits if_splits)
  assume f: "fst (reassemble k r) = Some m"
  then have c: "is_complete_unlocked k r" by (auto simp: reassemble_def split: option.splits if_splits)
  then obtain b where b: "om_get (ra_buffers r) k = Some b"
    and e: "contiguous_end 0 (rb_segments b) = Some (rb_total_size b)" and l: "rb_has_last_segment b"
    by (rule complete_cases)
  have m: "m = buffer_message k b" using f b c by (auto simp: reassemble_def)
  have ok: "buffer_ok k b" and ty: "typed_buffer b"
    using assms b by (auto simp: typed_ra_def ra_ok_def)
  obtain off where "unat (off :: u32) = rb_total_size b" using ok l by (auto simp: buffer_ok_def)
  then have "length (payload_bytes m) < 2 ^ 32"
    using contiguous_concat(1) [OF e] unat_u32_less [of off] by (simp add: m buffer_message_bytes)
  moreover have "mt_ok (m_message_type m)" and "\<not> is_tp_message m"
    by (cases "rb_message_type b";
        simp add: m buffer_message_def set_payload_def is_tp_message_def)+
  ultimately show "delivered_ok m"
    using ty by (simp add: delivered_ok_def received_ok_def wire_ok_def wire_view_def typed_buffer_def
        m buffer_message_def set_payload_def new_message_def payload_bytes_def payload_of_def)
qed

section \<open>The runs\<close>

text \<open>Sending leaves the reassembler alone, and so do the steps of the life cycle.\<close>

lemma rt_send_one_reassembler:
  "rt_send_one os m address port reliable rt w = (sent, rt', w') \<Longrightarrow>
     rt_tp_reassembler rt' = rt_tp_reassembler rt"
  by (auto simp: rt_send_one_def split: if_splits prod.splits)

lemma rt_send_segments_reassembler:
  "rt_send_segments os segs address port reliable rt w = (sent, rt', w') \<Longrightarrow>
     rt_tp_reassembler rt' = rt_tp_reassembler rt"
proof (induction segs arbitrary: rt w)
  case (Cons s segs)
  then show ?case by (auto split: prod.splits if_splits dest!: rt_send_one_reassembler)
qed simp

lemma send_message_reassembler:
  "send_message os m address port reliable rt w = Inr (sent, rt', w') \<Longrightarrow>
     rt_tp_reassembler rt' = rt_tp_reassembler rt"
  by (auto simp: send_message_def Let_def rbind_Inr_iff split: if_splits
      dest: rt_send_one_reassembler rt_send_segments_reassembler)

lemma rt_init_reassembler:
  "rt_init os attach rt w = (ok, rt', w') \<Longrightarrow>
     rt_tp_reassembler rt' \<in> {rt_tp_reassembler rt, TpReassembler 5000}"
  by (auto simp: rt_init_def Let_def split: if_splits prod.splits)

lemma rt_stop_reassembler:
  "rt_stop os order rt w = (rt', w') \<Longrightarrow> rt_tp_reassembler rt' = rt_tp_reassembler rt"
  by (auto simp: rt_stop_def Let_def split: if_splits prod.splits)

lemma reassembled_typed:
  assumes "reassembled now m rt = (r, rt')" and "typed_ra (rt_tp_reassembler rt)" and "received_ok m"
  shows "typed_ra (rt_tp_reassembler rt')" and "r = Some m' \<Longrightarrow> delivered_ok m'"
proof -
  let ?a = "snd (add_segment now (Some m) (rt_tp_reassembler rt))"
  have a: "typed_ra ?a" by (rule typed_ra_add [OF assms(2,3)])
  show "typed_ra (rt_tp_reassembler rt')"
    using assms(1,2) a typed_ra_reassemble(1) [OF a, of "get_request_id m"]
    by (auto simp: reassembled_def Let_def split: if_splits prod.splits)
  show "delivered_ok m'" if "r = Some m'"
    using that assms(1,3) a typed_ra_reassemble(2) [OF a, of "get_request_id m" m']
    by (auto simp: reassembled_def Let_def delivered_ok_def split: if_splits prod.splits)
qed

lemma route_delivers: "Rt_handler h m' \<in> set (route m rt) \<Longrightarrow> m' = m"
  by (auto simp: route_def split: option.splits)

lemma on_udp_typed:
  assumes "on_udp_message_received pton ntop now m rt = Inr (rt', as)"
    and "typed_ra (rt_tp_reassembler rt)" and "received_ok m"
  shows "typed_ra (rt_tp_reassembler rt')" and "Rt_handler h m' \<in> set as \<Longrightarrow> delivered_ok m'"
proof -
  obtain r rt1 where r: "reassembled now m rt = (r, rt1)" by fastforce
  note t = reassembled_typed [OF r assms(2,3)]
  show "typed_ra (rt_tp_reassembler rt')"
    using assms(1) t(1) by (auto simp: on_udp_message_received_def r rbind_Inr_iff
        split: option.splits if_splits)
  show "delivered_ok m'" if "Rt_handler h m' \<in> set as"
    using assms(1) that t(2) by (auto simp: on_udp_message_received_def r rbind_Inr_iff
        split: option.splits if_splits dest!: route_delivers)
qed

lemma on_tcp_typed:
  assumes "on_tcp_message_received now m cid rt = (rt', as)"
    and "typed_ra (rt_tp_reassembler rt)" and "received_ok m"
  shows "typed_ra (rt_tp_reassembler rt')" and "Rt_handler h m' \<in> set as \<Longrightarrow> delivered_ok m'"
proof -
  obtain r rt1 where r: "reassembled now m rt = (r, rt1)" by fastforce
  note t = reassembled_typed [OF r assms(2,3)]
  show "typed_ra (rt_tp_reassembler rt')"
    using assms(1) t(1) by (auto simp: on_tcp_message_received_def r split: option.splits)
  show "delivered_ok m'" if "Rt_handler h m' \<in> set as"
    using assms(1) that t(2)
    by (auto simp: on_tcp_message_received_def r split: option.splits dest!: route_delivers)
qed

lemma rt_receives_typed:
  "rt_receives os ntop rt as \<Longrightarrow>
     typed_ra (rt_tp_reassembler rt) \<and> (\<forall>h m. Rt_handler h m \<in> set as \<longrightarrow> delivered_ok m)"
proof (induction rule: rt_receives.induct)
  case (Rt_udp rt as data m now rt' as')
  then show ?case using on_udp_typed [OF Rt_udp(3)] received_ok_deserialize [OF Rt_udp(2)] by auto
next
  case (Rt_tcp rt as data m now cid rt' as')
  then show ?case using on_tcp_typed [OF Rt_tcp(3)] received_ok_deserialize [OF Rt_tcp(2)] by auto
next
  case (Rt_init rt as attach w ok rt' w')
  then show ?case using rt_init_reassembler [OF Rt_init(2)] by auto
next
  case (Rt_send rt as m address port reliable w sent rt' w')
  then show ?case using send_message_reassembler [OF Rt_send(2)] by simp
next
  case (Rt_stop rt as order w rt' w')
  then show ?case using rt_stop_reassembler [OF Rt_stop(2)] by simp
next
  case (Rt_expire rt as now)
  then show ?case by (simp add: typed_ra_expire)
qed (simp_all add: Runtime_def rt_start_def register_service_handler_def
    unregister_service_handler_def)

text \<open> C8: what a handler can rely on. In every run of a runtime, whatever bytes arrive over UDP and
  TCP, however segments of large messages are interleaved and whatever else the runtime does in
  between, every message given to a service handler has the supported protocol version, a type
  that is not one of the segment types, an enumerator or an unknown byte as return code, a
  payload object of less than 4 GiB and the instance 0xFFFF; serializing it and decoding that
  gives the same message back. \<close>
theorem delivered_messages_wellformed:
  assumes "rt_receives os ntop rt as" and "Rt_handler h m \<in> set as"
  shows "m_protocol_version m = 1 \<and> \<not> is_tp_message m \<and> mt_ok (m_message_type m) \<and>
    rc_ok (m_return_code m) \<and> m_payload m \<noteq> None \<and> length (payload_bytes m) < 2 ^ 32 \<and>
    m_instance_id m = 0xFFFF \<and> deserialize (serialize m) (length (serialize m)) = Inr (Some m)"
proof -
  have ok: "wire_ok m" and view: "wire_view m = m" and tp: "\<not> is_tp_message m"
    using rt_receives_typed [OF assms(1)] assms(2) by (auto simp: delivered_ok_def received_ok_def)
  have "m_payload (wire_view m) = m_payload m" by (simp only: view)
  then have "m_payload m \<noteq> None" by (auto simp: wire_view_def dest: sym)
  moreover have "m_instance_id m = 0xFFFF"
    using ok view by (intro received_ok_fields) (simp add: received_ok_def)
  moreover have "deserialize (serialize m) (length (serialize m)) = Inr (Some m)"
    using msg_codec.dec_enc [OF ok, of "length (serialize m)" "[]"] view by simp
  ultimately show ?thesis using ok tp by (simp add: wire_ok_def)
qed

theorem delivered_messages_wellformed_witness:
  "\<exists>rt. rt_receives queue_os raw_ntop rt [Rt_handler 9 (wire_view sample_message)] \<and>
    \<not> is_tp_message (wire_view sample_message) \<and> m_instance_id (wire_view sample_message) = 0xFFFF"
proof -
  let ?rt = "register_service_handler 0x1234 0xFFFF (Some 9) (Runtime default_runtime_config 7)"
  let ?m = "wire_view sample_message"
  have r: "rt_receives queue_os raw_ntop ?rt []" by (intro rt_receives.Rt_register rt_receives.Rt_new)
  have d: "deserialize (serialize sample_message) (length (serialize sample_message)) = Inr (Some ?m)"
    by (rule msg_codec.dec_enc_exact [OF sample_message_ok])
  have f: "m_service_id ?m = 0x1234" "m_message_type ?m = REQUEST" "m_instance_id ?m = 0xFFFF"
    by (simp_all add: wire_view_def sample_message_def create_request_def)
  have "on_udp_message_received (os_pton queue_os) raw_ntop 0 ?m ?rt = Inr (?rt, [Rt_handler 9 ?m])"
    using f by (simp add: on_udp_message_received_def reassembled_def route_def is_tp_message_def
        SOMEIP_SD_SERVICE_ID_def register_service_handler_def hm_put_def)
  from rt_receives.Rt_udp [OF r d this]
  have "rt_receives queue_os raw_ntop ?rt [Rt_handler 9 ?m]" by simp
  moreover from delivered_messages_wellformed [OF this, of 9 ?m]
  have "\<not> is_tp_message ?m \<and> m_instance_id ?m = 0xFFFF" by simp
  ultimately show ?thesis by blast
qed

end
