(* ===== verification/AppServer.thy ===== *)
theory AppServer
  imports AppRequests RuntimeRuns
begin

text \<open>
  The server side of an application and its events: what reaches it from the runtime, where
  responses go, and who gets notifications.
\<close>

text \<open>The runtime hands a message on only to a handler registered for instance 0xFFFF.\<close>

lemma reassembled_handlers:
  "reassembled now m rt = (r, rt') \<Longrightarrow> rt_service_handlers rt' = rt_service_handlers rt"
  by (auto simp: reassembled_def Let_def split: if_splits prod.splits)

lemma route_received:
  assumes "reassembled now m rt = (Some m1, rt1)" and "typed_ra (rt_tp_reassembler rt)"
    and "received_ok m" and "Rt_handler h m' \<in> set (route m1 rt1)"
  shows "rt_service_handlers rt (ServiceIdTuple (m_service_id m1) 0xFFFF) = Some (Some h)"
proof -
  have "m_instance_id m1 = 0xFFFF"
    using reassembled_typed(2) [OF assms(1-3)] received_ok_fields(1) by (simp add: delivered_ok_def)
  then show ?thesis
    using assms(4) reassembled_handlers [OF assms(1)] by (auto simp: route_def split: option.splits)
qed

text \<open> C27: no message ever reaches an application. \<open>init\<close> registers it for instance 0 of service 0,
  while the messages a runtime receives, segmented or not, have instance 0xFFFF: in every state
  a runtime can get into, unless someone else registers the application for that instance,
  whatever bytes arrive over UDP or TCP, answers to the application's own requests included, the
  runtime does not hand the message to the application. \<close>
theorem application_hears_nothing:
  assumes "rt_receives os ntop rt as" and "deserialize data (length data) = Inr (Some m)"
    and "\<forall>s. rt_service_handlers rt (ServiceIdTuple s 0xFFFF) \<noteq> Some (Some HANDLE_MESSAGE)"
  shows "Rt_handler HANDLE_MESSAGE m' \<notin>
      set (case on_udp_message_received (os_pton os) ntop now m (app_init rt) of
             Inl f \<Rightarrow> [] | Inr (rt', actions) \<Rightarrow> actions) \<and>
    Rt_handler HANDLE_MESSAGE m' \<notin> set (snd (on_tcp_message_received now m cid (app_init rt)))"
proof -
  have ty: "typed_ra (rt_tp_reassembler (app_init rt))"
    using rt_receives_typed [OF assms(1)] by (simp add: app_init_def register_service_handler_def)
  have ok: "received_ok m" by (rule received_ok_deserialize [OF assms(2)])
  have none: "rt_service_handlers (app_init rt) (ServiceIdTuple s 0xFFFF) \<noteq> Some (Some HANDLE_MESSAGE)" for s
    using assms(3) by (simp add: app_init_def register_service_handler_def hm_put_def)
  obtain r rt1 where r: "reassembled now m (app_init rt) = (r, rt1)" by fastforce
  have "Rt_handler HANDLE_MESSAGE m' \<notin> set (route m1 rt1)" if "r = Some m1" for m1
    using route_received [OF r [unfolded that] ty ok] none by blast
  then show ?thesis
    by (auto simp: on_udp_message_received_def on_tcp_message_received_def r rbind_Inr_iff
        split: option.splits sum.splits dest!: sym [of "Inr _"])
qed

theorem application_hears_nothing_witness:
  "on_udp_message_received raw_pton raw_ntop 0 (wire_view sample_message)
     (app_init (Runtime default_runtime_config 7)) = Inr (app_init (Runtime default_runtime_config 7), [])
   \<and> Rt_handler HANDLE_MESSAGE (wire_view sample_message) \<notin>
     set (snd (on_tcp_message_received 0 (wire_view sample_message) 1
       (app_init (Runtime default_runtime_config 7))))"
proof -
  have d: "deserialize (serialize sample_message) (length (serialize sample_message)) =
      Inr (Some (wire_view sample_message))"
    by (rule msg_codec.dec_enc_exact [OF sample_message_ok])
  have f: "m_service_id (wire_view sample_message) = 0x1234"
    "m_message_type (wire_view sample_message) = REQUEST" "m_instance_id (wire_view sample_message) = 0xFFFF"
    by (simp_all add: wire_view_def sample_message_def create_request_def)
  have h: "\<forall>s. rt_service_handlers (Runtime default_runtime_config 7) (ServiceIdTuple s 0xFFFF) \<noteq>
      Some (Some HANDLE_MESSAGE)"
    by (simp add: Runtime_def)
  have r: "rt_receives queue_os raw_ntop (Runtime default_runtime_config 7) []"
    by (rule rt_receives.Rt_new)
  have "on_udp_message_received raw_pton raw_ntop 0 (wire_view sample_message)
      (app_init (Runtime default_runtime_config 7)) =
      Inr (app_init (Runtime default_runtime_config 7), [])"
    using f by (simp add: on_udp_message_received_def reassembled_def route_def is_tp_message_def
        SOMEIP_SD_SERVICE_ID_def app_init_def register_service_handler_def hm_put_def Runtime_def)
  then show ?thesis
    using application_hears_nothing [OF r d h, of "wire_view sample_message" 0 1] by simp
qed

text \<open> A server does not answer. Responses are sent to an endpoint discovery knows for the
  service, and offering a service does not make it known to the offering side: where no other
  host announces the same service and instance, \<open>send_response\<close> and \<open>send_error_response\<close> send
  nothing and report nothing, and so does \<open>handle_message\<close> for a method nobody handles. \<close>
theorem offered_service_stays_silent:
  assumes "rt_service_discovery rt = Some sd"
    and "get_service_endpoints (m_service_id m) (m_instance_id m) sd = []"
    and "app_offer_service le locked now config rt = Inr (rt1, actions)"
  shows "app_send_response os m payload rt1 w = Inr (rt1, w) \<and>
    app_send_error_response os m code rt1 w = Inr (rt1, w) \<and>
    (is_request_type m \<and> is_request m \<and> ap_method_handlers ap (m_method_id m) = None \<longrightarrow>
      dispatch_message os m ap rt1 w = Inr (ap, rt1, w, []))"
proof -
  obtain sd1 sd_actions where sd1: "offer_service now config sd = (sd1, sd_actions)"
    by (cases "offer_service now config sd")
  have "rt_service_discovery rt1 = Some sd1"
    using assms(1,3) sd1
    by (auto simp: app_offer_service_def with_sd_def with_shm_def rbind_Inr_iff Let_def
        split: option.splits)
  moreover have "get_service_endpoints (m_service_id m) (m_instance_id m) sd1 = []"
    using assms(2) sd1 by (auto simp: offer_service_def Let_def get_service_endpoints_def)
  ultimately have send: "app_send_response os m payload rt1 w = Inr (rt1, w)"
    "app_send_error_response os m code rt1 w = Inr (rt1, w)" for code
    by (simp_all add: app_send_response_def app_send_error_response_def with_sd_def)
  have "is_request_type m \<Longrightarrow> \<not> is_response_type m"
    by (auto simp: is_request_type_def is_response_type_def)
  then show ?thesis
    using send by (auto simp: dispatch_message_def is_request_def is_event_def)
qed

definition offered_config :: service_config where
  "offered_config = \<lparr>sc_service_id = 0x1234, sc_instance_id = 1, sc_major_version = 1,
     sc_minor_version = 0, sc_ttl = 3000, sc_reliable = False, sc_unreliable = True,
     sc_reliable_port = 0, sc_unreliable_port = 30509\<rparr>"

theorem offered_service_stays_silent_witness:
  "\<exists>rt1 actions. app_offer_service True True 0 offered_config client_runtime = Inr (rt1, actions) \<and>
     app_send_response queue_os sample_message [1] rt1 [] = Inr (rt1, [])"
proof -
  have "rt_shm_agent client_runtime = None"
    by (simp add: client_runtime_def demo_runtime_def Runtime_def)
  then obtain rt1 actions where
    off: "app_offer_service True True 0 offered_config client_runtime = Inr (rt1, actions)"
    by (cases "offer_service 0 offered_config (ServiceDiscovery default_config)")
      (auto simp: app_offer_service_def with_sd_def with_shm_def)
  have "app_send_response queue_os sample_message [1] rt1 [] = Inr (rt1, [])"
    by (rule conjunct1 [OF offered_service_stays_silent [OF client_runtime_simps(1)
        client_runtime_simps(3) off]])
  then show ?thesis using off by blast
qed

text \<open>One datagram is tried for a short message, if the address converts.\<close>

lemma send_message_short_tried:
  assumes "dgram_tries os (ut_socket_fd (rt_udp_transport rt)) log"
    and "0 \<le> ut_socket_fd (rt_udp_transport rt)" and "length (payload_bytes m) \<le> UDP_SEGMENT_SIZE"
  obtains ok w' where "send_message os m address port False rt w = Inr (ok, rt, w')"
    and "log w' = log w @ (case os_pton os address of None \<Rightarrow> [] | Some a \<Rightarrow> [(serialize m, a, port, ok)])"
proof -
  have one: "send_message os m address port False rt w = Inr (rt_send_one os m address port False rt w)"
    using assms(3) by (simp add: send_message_def needs_segmentation_def payload_bytes_def payload_size_def
        split: option.splits)
  show thesis
  proof (cases "os_pton os address")
    case None
    then show thesis using one that [of False w] assms(2)
      by (simp add: rt_send_one_def udp_send_to_def udp_send_bytes_def)
  next
    case (Some a)
    obtain ok w' where "udp_send_to os m address port (rt_udp_transport rt) w = (ok, w')"
      "log w' = log w @ [(serialize m, a, port, ok)]"
      by (rule udp_send_tried [OF assms(1,2) Some])
    then show thesis using one that [of ok w'] Some by (simp add: rt_send_one_def)
  qed
qed

text \<open> C22: notifications over UDP. For an event the application knows, with at most 1392 bytes of
  payload, an open socket and no subscriber over TCP, \<open>notify_event\<close> tries to send the notification,
  with the event bit set in its method id, as exactly one datagram to each current subscriber of the
  event's group whose address converts, in the order they subscribed, and nothing else; a datagram
  that \<open>sendto\<close> refuses does not keep it from the others. \<close>
theorem notify_event_reaches_subscribers:
  assumes "dgram_tries os (ut_socket_fd (rt_udp_transport rt)) log"
    and "0 \<le> ut_socket_fd (rt_udp_transport rt)"
    and "ap_event_configs ap event = Some cfg" and "rt_service_discovery rt = Some sd"
    and "\<forall>ep \<in> set (get_subscribers (ec_service_id cfg) (ec_instance_id cfg) (ec_eventgroup_id cfg) sd).
      ep_protocol ep \<noteq> TCP"
    and "length payload \<le> UDP_SEGMENT_SIZE"
  shows "\<exists>w' m sent. app_notify_event os event payload ap rt w = Inr (rt, w') \<and>
    m_service_id m = ec_service_id cfg \<and> m_method_id m = event OR 0x8000 \<and>
    m_message_type m = NOTIFICATION \<and> payload_bytes m = payload \<and>
    map fst sent = filter (\<lambda>ep. os_pton os (ep_address ep) \<noteq> None)
      (get_subscribers (ec_service_id cfg) (ec_instance_id cfg) (ec_eventgroup_id cfg) sd) \<and>
    log w' = log w @ map (\<lambda>(ep, ok). (serialize m, the (os_pton os (ep_address ep)), ep_port ep, ok)) sent"
proof -
  let ?m = "set_payload payload (create_notification (ec_service_id cfg) (ec_instance_id cfg) event)"
  have m: "m_service_id ?m = ec_service_id cfg" "m_method_id ?m = event OR 0x8000"
    "m_message_type ?m = NOTIFICATION" "payload_bytes ?m = payload"
    by (simp_all add: set_payload_def create_notification_def payload_bytes_def payload_of_def)
  have loop: "\<exists>w' sent. notify_loop os ?m eps rt w = Inr (rt, w') \<and>
      map fst sent = filter (\<lambda>ep. os_pton os (ep_address ep) \<noteq> None) eps \<and>
      log w' = log w @ map (\<lambda>(ep, ok). (serialize ?m, the (os_pton os (ep_address ep)), ep_port ep, ok)) sent"
    if "\<forall>ep \<in> set eps. ep_protocol ep \<noteq> TCP" for eps w
    using that
  proof (induction eps arbitrary: w)
    case (Cons ep eps)
    obtain ok w1 where w1: "send_message os ?m (ep_address ep) (ep_port ep) False rt w = Inr (ok, rt, w1)"
      "log w1 = log w @ (case os_pton os (ep_address ep) of None \<Rightarrow> [] | Some a \<Rightarrow> [(serialize ?m, a, ep_port ep, ok)])"
      using send_message_short_tried [OF assms(1,2), of ?m "ep_address ep" "ep_port ep" w] assms(6) m(4) by auto
    obtain w' sent where w': "notify_loop os ?m eps rt w1 = Inr (rt, w')"
      "map fst sent = filter (\<lambda>ep. os_pton os (ep_address ep) \<noteq> None) eps"
      "log w' = log w1 @ map (\<lambda>(ep, ok). (serialize ?m, the (os_pton os (ep_address ep)), ep_port ep, ok)) sent"
      using Cons.IH [of w1] Cons.prems by auto
    then show ?case using w1 Cons.prems
      by (cases "os_pton os (ep_address ep)")
        (auto intro: exI [of _ sent] exI [of _ "(ep, ok) # sent"])
  qed simp
  show ?thesis
    using loop [OF assms(5), of w] m assms(3,4)
    by (auto simp: app_notify_event_def Let_def with_sd_def)
qed

definition event_group :: eventgroup_info where
  "event_group = \<lparr>eg_service_id = 0x1234, eg_instance_id = 1, eg_eventgroup_id = 5,
     eg_major_version = 1, eg_endpoints = [], eg_subscribers = [server_endpoint]\<rparr>"

definition event_runtime :: runtime where
  "event_runtime = demo_runtime\<lparr>rt_service_discovery :=
     Some ((ServiceDiscovery default_config)\<lparr>sd_eventgroups := [((0x1234, 1, 5), event_group)]\<rparr>)\<rparr>"

definition event_application :: application where
  "event_application = (Application ''server'')\<lparr>ap_event_configs := [3 \<mapsto>
     \<lparr>ec_service_id = 0x1234, ec_instance_id = 1, ec_event_id = 3, ec_eventgroup_id = 5,
      ec_is_field = False, ec_is_reliable = False\<rparr>]\<rparr>"

theorem notify_event_reaches_subscribers_witness:
  "\<exists>w' m ok. app_notify_event (limited_os 1) 3 [9] event_application event_runtime [] = Inr (event_runtime, w') \<and>
    m_method_id m = 0x8003 \<and> w' = [(serialize m, [127, 0, 0, 1], 30509, ok)]"
proof -
  let ?cfg = "\<lparr>ec_service_id = 0x1234, ec_instance_id = 1, ec_event_id = 3, ec_eventgroup_id = 5,
      ec_is_field = False, ec_is_reliable = False\<rparr> :: event_config"
  let ?sd = "(ServiceDiscovery default_config)\<lparr>sd_eventgroups := [((0x1234, 1, 5), event_group)]\<rparr>"
  have subs: "get_subscribers 0x1234 1 5 ?sd = [server_endpoint]"
    by (simp add: get_subscribers_def om_get_def event_group_def)
  have fd: "0 \<le> ut_socket_fd (rt_udp_transport event_runtime)"
    by (simp add: event_runtime_def demo_runtime_fd)
  have cfg: "ap_event_configs event_application 3 = Some ?cfg"
    by (simp add: event_application_def)
  have sd: "rt_service_discovery event_runtime = Some ?sd" by (simp add: event_runtime_def)
  have eps: "\<forall>ep \<in> set (get_subscribers (ec_service_id ?cfg) (ec_instance_id ?cfg)
      (ec_eventgroup_id ?cfg) ?sd). ep_protocol ep \<noteq> TCP"
    using subs by (simp add: server_endpoint_def)
  have len: "length [9 :: u8] \<le> UDP_SEGMENT_SIZE" by (simp add: UDP_SEGMENT_SIZE_def)
  have pton: "os_pton (limited_os n) a = Some [127, 0, 0, 1]" for n a by (simp add: limited_os_def)
  show ?thesis
    using notify_event_reaches_subscribers [OF limited_os_tries fd cfg sd eps len, of 1 "[]"] subs
    by (auto simp: pton server_endpoint_def)
qed

text \<open>A notification as the wire delivers it.\<close>

definition notification :: "u16 \<Rightarrow> u16 \<Rightarrow> u16 \<Rightarrow> bytes \<Rightarrow> message" where
  "notification service instance event payload =
     wire_view (set_payload payload (create_notification service instance event))"

lemma or_exp_same: "n < 16 \<Longrightarrow> ((w :: u16) OR 2 ^ n = w) = (w AND 2 ^ n \<noteq> 0)"
  unfolding and_exp_eq_0_iff_not_bit bit_eq_iff [of "w OR 2 ^ n" w]
  by (auto simp: bit_or_iff bit_exp_iff)

lemma event_bit: "((event :: u16) OR 0x8000 = event) = (event AND 0x8000 \<noteq> 0)"
  using or_exp_same [of 15 event] by simp

text \<open> An event handler is found by the method id of the notification, which has the event bit
  set even if the event's id has not: the handler set for an event gets its notifications if the
  id the application uses already has bit 15, and for every other id it gets none. \<close>
theorem event_handler_needs_event_bit:
  assumes "ap_event_handlers ap (event OR 0x8000) = None"
  shows "dispatch_message os (notification service instance event payload)
      (app_set_event_handler event (Some h) ap) rt w =
    Inr (app_set_event_handler event (Some h) ap, rt, w,
      if event AND 0x8000 \<noteq> 0 then [Ap_handler h (notification service instance event payload)]
      else [])"
proof -
  let ?m = "notification service instance event payload"
  have m: "m_method_id ?m = event OR 0x8000" "\<not> is_response_type ?m" "is_event ?m"
    by (auto simp: notification_def wire_view_def set_payload_def create_notification_def
        is_response_type_def is_event_def word_ao_dist bit_simps)
  have bit: "(event OR 0x8000 = event) = (event AND 0x8000 \<noteq> 0)"
    by (rule event_bit)
  show ?thesis
    using assms m by (auto simp: dispatch_message_def app_set_event_handler_def hm_put_def bit)
qed

theorem event_handler_needs_event_bit_witness:
  "dispatch_message queue_os (notification 0x1234 1 3 [9]) (app_set_event_handler 3 (Some 8) client)
     client_runtime [] = Inr (app_set_event_handler 3 (Some 8) client, client_runtime, [], [])"
proof -
  have "ap_event_handlers client (3 OR 0x8000) = None"
    by (simp add: client_def app_start_def Application_def)
  from event_handler_needs_event_bit [OF this, of queue_os "0x1234" 1 "[9]" 8 client_runtime "[]"]
  show ?thesis by simp
qed

end
