(* ===== verification/ServiceBase.thy ===== *)
theory ServiceBase
  imports AppServer
begin

text \<open>
  \<open>service_base.h\<close> and \<open>service_base.cpp\<close>: the base classes of servers (\<open>ServiceSkeleton\<close>) and
  clients (\<open>ServiceProxy\<close>) over an application. The methods, getters and setters a derived class
  registers are closures over the members the class adds: functions on a state \<open>'s\<close>, which may
  fault. Whether the application pointer is set is a flag, and the application,
  its runtime and the world are passed and returned. Waiting for a future is a step of its own,
  on the promises as they are when the wait ends.
\<close>

section \<open>Skeletons\<close>

record 's skeleton =
  sk_app :: bool
  sk_service_id :: u16
  sk_instance_id :: u16
  sk_method_handlers :: "(u16, bytes \<Rightarrow> 's \<Rightarrow> fault + bytes \<times> 's) omap"
  sk_field_getters :: "(u16, 's \<Rightarrow> fault + bytes \<times> 's) omap"
  sk_field_setters :: "(u16, bytes \<Rightarrow> 's \<Rightarrow> fault + bool \<times> 's) omap"
  sk_fields :: "(u16, event_config) omap"
  sk_events :: "(u16, event_config) omap"

definition ServiceSkeleton :: "bool \<Rightarrow> u16 \<Rightarrow> u16 \<Rightarrow> 's skeleton" where
  "ServiceSkeleton app service instance = \<lparr>sk_app = app, sk_service_id = service,
     sk_instance_id = instance, sk_method_handlers = om_empty, sk_field_getters = om_empty,
     sk_field_setters = om_empty, sk_fields = om_empty, sk_events = om_empty\<rparr>"

text \<open>The token of the lambda \<open>init\<close> registers for method 0.\<close>

definition ON_MESSAGE :: handler where "ON_MESSAGE = 6"

definition sk_init :: "'s skeleton \<Rightarrow> application \<Rightarrow> application" where
  "sk_init sk ap =
     (if sk_app sk then app_register_method_handler 0 (Some ON_MESSAGE) ap else ap)"

subsection \<open>Registration\<close>

definition register_method ::
    "u16 \<Rightarrow> (bytes \<Rightarrow> 's \<Rightarrow> fault + bytes \<times> 's) \<Rightarrow> 's skeleton \<Rightarrow> 's skeleton" where
  "register_method method h sk =
     sk\<lparr>sk_method_handlers := om_put method h (sk_method_handlers sk)\<rparr>"

definition register_field_getter ::
    "u16 \<Rightarrow> ('s \<Rightarrow> fault + bytes \<times> 's) \<Rightarrow> 's skeleton \<Rightarrow> 's skeleton" where
  "register_field_getter field g sk =
     sk\<lparr>sk_field_getters := om_put field g (sk_field_getters sk)\<rparr>"

definition register_field_setter ::
    "u16 \<Rightarrow> (bytes \<Rightarrow> 's \<Rightarrow> fault + bool \<times> 's) \<Rightarrow> 's skeleton \<Rightarrow> 's skeleton" where
  "register_field_setter field h sk =
     sk\<lparr>sk_field_setters := om_put field h (sk_field_setters sk)\<rparr>"

text \<open>\<open>register_event\<close> leaves \<open>is_field\<close> of the local config uninitialized, the argument \<open>junk\<close>.\<close>

definition register_event :: "bool \<Rightarrow> u16 \<Rightarrow> u16 \<Rightarrow> bool \<Rightarrow> 's skeleton \<Rightarrow> 's skeleton" where
  "register_event junk event eventgroup reliable sk =
     sk\<lparr>sk_events := om_put event
       \<lparr>ec_service_id = sk_service_id sk, ec_instance_id = sk_instance_id sk, ec_event_id = event,
        ec_eventgroup_id = eventgroup, ec_is_field = junk, ec_is_reliable = reliable\<rparr>
       (sk_events sk)\<rparr>"

definition register_field ::
    "u16 \<Rightarrow> u16 \<Rightarrow> ('s \<Rightarrow> fault + bytes \<times> 's) \<Rightarrow> (bytes \<Rightarrow> 's \<Rightarrow> fault + bool \<times> 's) \<Rightarrow> bool \<Rightarrow>
     's skeleton \<Rightarrow> 's skeleton" where
  "register_field field eventgroup getter setter reliable sk =
     (let sk = register_field_setter field setter (register_field_getter field getter sk) in
      sk\<lparr>sk_fields := om_put field
        \<lparr>ec_service_id = sk_service_id sk, ec_instance_id = sk_instance_id sk,
         ec_event_id = field, ec_eventgroup_id = eventgroup, ec_is_field = True,
         ec_is_reliable = reliable\<rparr> (sk_fields sk)\<rparr>)"

subsection \<open>Offering\<close>

definition skeleton_config :: "'s skeleton \<Rightarrow> service_config" where
  "skeleton_config sk = \<lparr>sc_service_id = sk_service_id sk, sc_instance_id = sk_instance_id sk,
     sc_major_version = 1, sc_minor_version = 0, sc_ttl = 0xFFFFFF, sc_reliable = False,
     sc_unreliable = True, sc_reliable_port = 0, sc_unreliable_port = 0\<rparr>"

fun offer_events ::
    "u8 \<Rightarrow> (u16, event_config) omap \<Rightarrow> application \<Rightarrow> runtime \<Rightarrow> fault + application \<times> runtime" where
  "offer_events junk [] ap rt = Inr (ap, rt)"
| "offer_events junk ((event, cfg) # it) ap rt =
     rbind (app_offer_event junk cfg ap rt) (\<lambda>(ap, rt). offer_events junk it ap rt)"

fun stop_offer_events ::
    "u16 \<Rightarrow> u16 \<Rightarrow> (u16, event_config) omap \<Rightarrow> application \<Rightarrow> runtime \<Rightarrow>
     fault + application \<times> runtime" where
  "stop_offer_events service instance [] ap rt = Inr (ap, rt)"
| "stop_offer_events service instance ((event, cfg) # it) ap rt =
     rbind (app_stop_offer_event service instance event ap rt) (\<lambda>(ap, rt).
       stop_offer_events service instance it ap rt)"

definition sk_offer ::
    "bool \<Rightarrow> bool \<Rightarrow> time_point \<Rightarrow> u8 \<Rightarrow> 's skeleton \<Rightarrow> application \<Rightarrow> runtime \<Rightarrow>
     fault + application \<times> runtime \<times> app_action list" where
  "sk_offer le locked now junk sk ap rt =
     (if \<not> sk_app sk then Inr (ap, rt, [])
      else
        rbind (app_offer_service le locked now (skeleton_config sk) rt) (\<lambda>(rt, actions).
        rbind (offer_events junk (sk_events sk) ap rt) (\<lambda>(ap, rt).
        rbind (offer_events junk (sk_fields sk) ap rt) (\<lambda>(ap, rt). Inr (ap, rt, actions)))))"

definition sk_stop_offer ::
    "bool \<Rightarrow> bool \<Rightarrow> 's skeleton \<Rightarrow> application \<Rightarrow> runtime \<Rightarrow>
     fault + application \<times> runtime \<times> app_action list" where
  "sk_stop_offer le locked sk ap rt =
     (if \<not> sk_app sk then Inr (ap, rt, [])
      else
        rbind (app_stop_offer_service le locked (sk_service_id sk) (sk_instance_id sk) rt)
          (\<lambda>(rt, actions).
        rbind (stop_offer_events (sk_service_id sk) (sk_instance_id sk) (sk_events sk) ap rt)
          (\<lambda>(ap, rt).
        rbind (stop_offer_events (sk_service_id sk) (sk_instance_id sk) (sk_fields sk) ap rt)
          (\<lambda>(ap, rt). Inr (ap, rt, actions)))))"

subsection \<open>Notifications and messages\<close>

definition sk_notify_event ::
    "'w os \<Rightarrow> u16 \<Rightarrow> bytes \<Rightarrow> 's skeleton \<Rightarrow> application \<Rightarrow> runtime \<Rightarrow> 'w \<Rightarrow> fault + runtime \<times> 'w" where
  "sk_notify_event os event payload sk ap rt w =
     (if \<not> sk_app sk then Inr (rt, w) else app_notify_event os event payload ap rt w)"

definition sk_notify_field ::
    "'w os \<Rightarrow> u16 \<Rightarrow> bytes \<Rightarrow> 's skeleton \<Rightarrow> application \<Rightarrow> runtime \<Rightarrow> 'w \<Rightarrow> fault + runtime \<times> 'w" where
  "sk_notify_field os field payload sk ap rt w = sk_notify_event os field payload sk ap rt w"

text \<open>Both answers go through the application, if there is one.\<close>

definition sk_respond ::
    "'w os \<Rightarrow> message \<Rightarrow> bytes \<Rightarrow> 's skeleton \<Rightarrow> runtime \<Rightarrow> 'w \<Rightarrow> fault + runtime \<times> 'w" where
  "sk_respond os m payload sk rt w =
     (if sk_app sk then app_send_response os m payload rt w else Inr (rt, w))"

definition sk_respond_error ::
    "'w os \<Rightarrow> message \<Rightarrow> return_code \<Rightarrow> 's skeleton \<Rightarrow> runtime \<Rightarrow> 'w \<Rightarrow> fault + runtime \<times> 'w" where
  "sk_respond_error os m code sk rt w =
     (if sk_app sk then app_send_error_response os m code rt w else Inr (rt, w))"

definition handle_method_call ::
    "'w os \<Rightarrow> message \<Rightarrow> 's skeleton \<Rightarrow> 's \<Rightarrow> runtime \<Rightarrow> 'w \<Rightarrow> fault + 's \<times> runtime \<times> 'w" where
  "handle_method_call os m sk s rt w =
     (case om_get (sk_method_handlers sk) (m_method_id m) of
        Some h \<Rightarrow>
          rbind (h (payload_bytes m) s) (\<lambda>(result, s).
          rbind (sk_respond os m result sk rt w) (\<lambda>(rt, w). Inr (s, rt, w)))
      | None \<Rightarrow>
          rbind (sk_respond_error os m E_UNKNOWN_METHOD sk rt w) (\<lambda>(rt, w). Inr (s, rt, w)))"

definition handle_field_get ::
    "'w os \<Rightarrow> message \<Rightarrow> 's skeleton \<Rightarrow> 's \<Rightarrow> runtime \<Rightarrow> 'w \<Rightarrow> fault + 's \<times> runtime \<times> 'w" where
  "handle_field_get os m sk s rt w =
     (let field = m_method_id m AND 0x00FF in
      case om_get (sk_field_getters sk) field of
        Some h \<Rightarrow>
          rbind (h s) (\<lambda>(value, s).
          rbind (sk_respond os m value sk rt w) (\<lambda>(rt, w). Inr (s, rt, w)))
      | None \<Rightarrow>
          rbind (sk_respond_error os m E_UNKNOWN_METHOD sk rt w) (\<lambda>(rt, w). Inr (s, rt, w)))"

definition handle_field_set ::
    "'w os \<Rightarrow> message \<Rightarrow> 's skeleton \<Rightarrow> 's \<Rightarrow> application \<Rightarrow> runtime \<Rightarrow> 'w \<Rightarrow>
     fault + 's \<times> runtime \<times> 'w" where
  "handle_field_set os m sk s ap rt w =
     (let field = m_method_id m AND 0x00FF in
      case om_get (sk_field_setters sk) field of
        Some h \<Rightarrow>
          rbind (h (payload_bytes m) s) (\<lambda>(success, s).
            if success then
              rbind (sk_respond os m [] sk rt w) (\<lambda>(rt, w).
              rbind (sk_notify_field os field (payload_bytes m) sk ap rt w) (\<lambda>(rt, w).
                Inr (s, rt, w)))
            else
              rbind (sk_respond_error os m E_NOT_OK sk rt w) (\<lambda>(rt, w). Inr (s, rt, w)))
      | None \<Rightarrow>
          rbind (sk_respond_error os m E_UNKNOWN_METHOD sk rt w) (\<lambda>(rt, w). Inr (s, rt, w)))"

definition sk_on_message_received ::
    "'w os \<Rightarrow> message option \<Rightarrow> 's skeleton \<Rightarrow> 's \<Rightarrow> application \<Rightarrow> runtime \<Rightarrow> 'w \<Rightarrow>
     fault + 's \<times> runtime \<times> 'w" where
  "sk_on_message_received os message sk s ap rt w =
     (case message of
        None \<Rightarrow> Inr (s, rt, w)
      | Some m \<Rightarrow>
          if is_request m then handle_method_call os m sk s rt w
          else if is_event m then
            let method = m_method_id m in
            if method AND 0x7F00 = 0x0100 then handle_field_get os m sk s rt w
            else if method AND 0x7F00 = 0x0200 then handle_field_set os m sk s ap rt w
            else Inr (s, rt, w)
          else Inr (s, rt, w))"

text \<open>\<open>Application::handle_message\<close> with the skeleton's lambda behind its token.\<close>

fun run_handlers ::
    "'w os \<Rightarrow> app_action list \<Rightarrow> 's skeleton \<Rightarrow> 's \<Rightarrow> application \<Rightarrow> runtime \<Rightarrow> 'w \<Rightarrow>
     fault + 's \<times> runtime \<times> 'w" where
  "run_handlers os [] sk s ap rt w = Inr (s, rt, w)"
| "run_handlers os (Ap_handler h m # actions) sk s ap rt w =
     (if h = ON_MESSAGE then
        rbind (sk_on_message_received os (Some m) sk s ap rt w) (\<lambda>(s, rt, w).
          run_handlers os actions sk s ap rt w)
      else run_handlers os actions sk s ap rt w)"
| "run_handlers os (a # actions) sk s ap rt w = run_handlers os actions sk s ap rt w"

definition serve_message ::
    "'w os \<Rightarrow> time_point \<Rightarrow> message \<Rightarrow> 's skeleton \<Rightarrow> 's \<Rightarrow> application \<Rightarrow> runtime \<Rightarrow> 'w \<Rightarrow>
     fault + 's \<times> application \<times> runtime \<times> 'w" where
  "serve_message os now m sk s ap rt w =
     rbind (dispatch_message os m ap rt w) (\<lambda>(ap, rt, w, actions).
     rbind (run_handlers os actions sk s ap rt w) (\<lambda>(s, rt, w).
     rbind (cleanup_expired_requests now ap) (\<lambda>ap. Inr (s, ap, rt, w))))"

section \<open>Proxies\<close>

record proxy =
  px_app :: bool
  px_service_id :: u16
  px_instance_id :: u16
  px_available :: bool
  px_event_handlers :: "(u16, u16 \<times> handler option) omap"
  px_availability_handler :: "handler option"

definition ServiceProxy :: "bool \<Rightarrow> u16 \<Rightarrow> u16 \<Rightarrow> proxy" where
  "ServiceProxy app service instance = \<lparr>px_app = app, px_service_id = service,
     px_instance_id = instance, px_available = False, px_event_handlers = om_empty,
     px_availability_handler = None\<rparr>"

text \<open>The tokens of the two lambdas a proxy gives its application.\<close>

definition ON_SERVICE_AVAILABLE :: handler where "ON_SERVICE_AVAILABLE = 7"
definition ON_EVENT_RECEIVED :: handler where "ON_EVENT_RECEIVED = 8"

definition px_init :: "proxy \<Rightarrow> application \<Rightarrow> runtime \<Rightarrow> application \<times> runtime" where
  "px_init px ap rt =
     (if \<not> px_app px then (ap, rt)
      else (app_set_availability_handler (Some ON_SERVICE_AVAILABLE) ap, app_init rt))"

definition px_set_availability_handler :: "handler option \<Rightarrow> proxy \<Rightarrow> proxy" where
  "px_set_availability_handler h px = px\<lparr>px_availability_handler := h\<rparr>"

text \<open>
  \<open>call_method\<close> up to the wait: the future it waits for, if it sends at all; and after the
  wait, with the promises as they are then. An unset promise is a timeout, a broken one throws.
\<close>

definition px_call_send ::
    "'w os \<Rightarrow> time_point \<Rightarrow> u16 \<Rightarrow> bytes \<Rightarrow> int \<Rightarrow> proxy \<Rightarrow> application \<Rightarrow> runtime \<Rightarrow> 'w \<Rightarrow>
     fault + nat option \<times> application \<times> runtime \<times> 'w" where
  "px_call_send os now method payload timeout px ap rt w =
     (if \<not> px_app px \<or> \<not> px_available px then Inr (None, ap, rt, w)
      else
        rbind (app_send_request os now (px_service_id px) (px_instance_id px) method payload False
            timeout ap rt w) (\<lambda>(future, ap, rt, w). Inr (Some future, ap, rt, w)))"

definition px_call_wait :: "nat option \<Rightarrow> application \<Rightarrow> fault + bytes option" where
  "px_call_wait future ap =
     (case future of
        None \<Rightarrow> Inr None
      | Some f \<Rightarrow>
          (case ap_promises ap ! f of
             Unset \<Rightarrow> Inr None
           | Broken \<Rightarrow> Inl Broken_promise
           | Value response \<Rightarrow> Inr (map_option p_data (m_payload response))))"

definition px_call_method_no_return ::
    "'w os \<Rightarrow> u16 \<Rightarrow> bytes \<Rightarrow> proxy \<Rightarrow> application \<Rightarrow> runtime \<Rightarrow> 'w \<Rightarrow>
     fault + bool \<times> application \<times> runtime \<times> 'w" where
  "px_call_method_no_return os method payload px ap rt w =
     (if \<not> px_app px \<or> \<not> px_available px then Inr (False, ap, rt, w)
      else app_send_request_no_return os (px_service_id px) (px_instance_id px) method payload False
        ap rt w)"

definition px_subscribe_event ::
    "bool \<Rightarrow> bool \<Rightarrow> time_point \<Rightarrow> u16 \<Rightarrow> u16 \<Rightarrow> handler option \<Rightarrow> proxy \<Rightarrow> application \<Rightarrow> runtime \<Rightarrow>
     fault + bool \<times> proxy \<times> application \<times> runtime \<times> app_action list" where
  "px_subscribe_event le locked now event eventgroup h px ap rt =
     (if \<not> px_app px then Inr (False, px, ap, rt, [])
      else
        let px = px\<lparr>px_event_handlers := om_put event (eventgroup, h) (px_event_handlers px)\<rparr>;
            ap = app_set_event_handler event (Some ON_EVENT_RECEIVED) ap
        in rbind (app_subscribe_event le locked now (px_service_id px) (px_instance_id px)
            eventgroup event 1 ap rt) (\<lambda>(ok, ap, rt, actions). Inr (ok, px, ap, rt, actions)))"

definition px_unsubscribe_event ::
    "bool \<Rightarrow> bool \<Rightarrow> u16 \<Rightarrow> u16 \<Rightarrow> proxy \<Rightarrow> runtime \<Rightarrow> fault + proxy \<times> runtime \<times> app_action list" where
  "px_unsubscribe_event le locked event eventgroup px rt =
     (if \<not> px_app px then Inr (px, rt, [])
      else
        rbind (app_unsubscribe_event le locked (px_service_id px) (px_instance_id px) eventgroup rt)
          (\<lambda>(rt, actions).
            Inr (px\<lparr>px_event_handlers := om_del event (px_event_handlers px)\<rparr>, rt, actions)))"

text \<open>The ids of the field accesses. The results of \<open>call_method\<close> are the ones of \<open>get_field\<close>; of
  those of \<open>set_field\<close> only whether there is one counts.\<close>

definition getter_id :: "u16 \<Rightarrow> u16" where
  "getter_id field = 0x0100 OR (field AND 0x00FF)"

definition setter_id :: "u16 \<Rightarrow> u16" where
  "setter_id field = 0x0200 OR (field AND 0x00FF)"

definition px_get_field_send ::
    "'w os \<Rightarrow> time_point \<Rightarrow> u16 \<Rightarrow> int \<Rightarrow> proxy \<Rightarrow> application \<Rightarrow> runtime \<Rightarrow> 'w \<Rightarrow>
     fault + nat option \<times> application \<times> runtime \<times> 'w" where
  "px_get_field_send os now field timeout px ap rt w =
     px_call_send os now (getter_id field) [] timeout px ap rt w"

definition px_set_field_send ::
    "'w os \<Rightarrow> time_point \<Rightarrow> u16 \<Rightarrow> bytes \<Rightarrow> proxy \<Rightarrow> application \<Rightarrow> runtime \<Rightarrow> 'w \<Rightarrow>
     fault + nat option \<times> application \<times> runtime \<times> 'w" where
  "px_set_field_send os now field payload px ap rt w =
     px_call_send os now (setter_id field) payload 5000 px ap rt w"

definition px_set_field_wait :: "nat option \<Rightarrow> application \<Rightarrow> fault + bool" where
  "px_set_field_wait future ap = rbind (px_call_wait future ap) (\<lambda>r. Inr (r \<noteq> None))"

definition px_on_service_available ::
    "u16 \<Rightarrow> u16 \<Rightarrow> bool \<Rightarrow> proxy \<Rightarrow> proxy \<times> app_action list" where
  "px_on_service_available service instance available px =
     (if service = px_service_id px \<and> instance = px_instance_id px then
        (px\<lparr>px_available := available\<rparr>,
         case px_availability_handler px of
           None \<Rightarrow> [] | Some h \<Rightarrow> [Ap_availability h service instance available])
      else (px, []))"

definition px_on_event_received :: "message option \<Rightarrow> proxy \<Rightarrow> app_action list" where
  "px_on_event_received message px =
     (case message of
        None \<Rightarrow> []
      | Some m \<Rightarrow>
          (case om_get (px_event_handlers px) (m_method_id m) of
             Some (eventgroup, Some h) \<Rightarrow> [Ap_handler h m]
           | _ \<Rightarrow> []))"

text \<open>The application's availability callback with the proxy's lambda behind its token.\<close>

definition proxy_told :: "u16 \<Rightarrow> u16 \<Rightarrow> bool \<Rightarrow> proxy \<Rightarrow> application \<Rightarrow> proxy \<times> app_action list" where
  "proxy_told service instance available px ap =
     (if app_on_service_available service instance available ap =
         [Ap_availability ON_SERVICE_AVAILABLE service instance available]
      then px_on_service_available service instance available px else (px, []))"

text \<open>
  Runs of a proxy with its application and runtime: its operations, the application's steps,
  what the runtime receives, and, while \<open>told\<close> holds, a call of the public
  \<open>Application::on_service_available\<close>, which nothing in the library makes.
\<close>

inductive px_step ::
    "'w os \<Rightarrow> bool \<Rightarrow> proxy \<times> application \<Rightarrow> proxy \<times> application \<Rightarrow> bool" for os told where
  Px_init: "px_init px ap rt = (ap', rt') \<Longrightarrow> px_step os told (px, ap) (px, ap')"
| Px_set_handler: "px_step os told (px, ap) (px_set_availability_handler h px, ap)"
| Px_call: "px_call_send os now method payload timeout px ap rt w = Inr (f, ap', rt', w') \<Longrightarrow>
    px_step os told (px, ap) (px, ap')"
| Px_no_return: "px_call_method_no_return os method payload px ap rt w = Inr (sent, ap', rt', w') \<Longrightarrow>
    px_step os told (px, ap) (px, ap')"
| Px_subscribe: "px_subscribe_event le locked now event eventgroup h px ap rt =
    Inr (ok, px', ap', rt', actions) \<Longrightarrow> px_step os told (px, ap) (px', ap')"
| Px_unsubscribe: "px_unsubscribe_event le locked event eventgroup px rt = Inr (px', rt', actions) \<Longrightarrow>
    px_step os told (px, ap) (px', ap)"
| Px_application: "app_step os ap ap' \<Longrightarrow> px_step os told (px, ap) (px, ap')"
| Px_told: "told \<Longrightarrow> proxy_told service instance available px ap = (px', actions) \<Longrightarrow>
    px_step os told (px, ap) (px', ap)"

inductive px_reachable :: "'w os \<Rightarrow> bool \<Rightarrow> proxy \<times> application \<Rightarrow> bool" for os told where
  Px_new: "px_reachable os told (ServiceProxy app service instance, Application name)"
| Px_next: "px_reachable os told s \<Longrightarrow> px_step os told s s' \<Longrightarrow> px_reachable os told s'"

end
