(* ===== verification/ServiceProps.thy ===== *)
theory ServiceProps
  imports ServiceBase
begin

text \<open>
  What skeletons and proxies do over an application: dispatch of requests, access to fields,
  availability, failing calls, offering and withdrawing.
\<close>

section \<open>Properties\<close>

lemma request_kind:
  "is_request_type m \<Longrightarrow> \<not> is_response_type m" "is_request m \<Longrightarrow> \<not> is_event m"
  by (auto simp: is_request_type_def is_response_type_def is_request_def is_event_def)

lemma serve_request:
  assumes "sk_app sk" and "ap_method_handlers ap = Map.empty"
    and "is_request_type m" and "is_request m"
  shows "serve_message os now m sk s (sk_init sk ap) rt w =
    rbind (if m_method_id m = 0 then handle_method_call os m sk s rt w
           else rbind (app_send_error_response os m E_UNKNOWN_METHOD rt w) (\<lambda>(rt, w). Inr (s, rt, w)))
      (\<lambda>(s, rt, w). rbind (cleanup_expired_requests now (sk_init sk ap)) (\<lambda>ap. Inr (s, ap, rt, w)))"
proof (cases "m_method_id m = 0")
  case True
  have "dispatch_message os m (sk_init sk ap) rt w = Inr (sk_init sk ap, rt, w, [Ap_handler ON_MESSAGE m])"
    using assms True request_kind [of m]
    by (simp add: dispatch_message_def sk_init_def app_register_method_handler_def hm_put_def)
  moreover have "run_handlers os [Ap_handler ON_MESSAGE m] sk s (sk_init sk ap) rt w =
      handle_method_call os m sk s rt w"
    using assms(4) by (cases "handle_method_call os m sk s rt w") (auto simp: sk_on_message_received_def)
  ultimately show ?thesis using True by (simp add: serve_message_def)
next
  case False
  have "dispatch_message os m (sk_init sk ap) rt w =
      rbind (app_send_error_response os m E_UNKNOWN_METHOD rt w) (\<lambda>(rt, w).
        Inr (sk_init sk ap, rt, w, []))"
    using assms False request_kind [of m]
    by (simp add: dispatch_message_def sk_init_def app_register_method_handler_def hm_put_def)
  then show ?thesis using False
    by (cases "app_send_error_response os m E_UNKNOWN_METHOD rt w")
      (auto simp: serve_message_def)
qed

text \<open> A skeleton serves method 0 only. It registers one lambda with its application, for method 0,
  and the application dispatches by method id: a request for method 0 is given to the skeleton's
  own table, but a request for any other method is answered with E_UNKNOWN_METHOD although the
  derived class may have registered it. \<close>
theorem skeleton_serves_method_zero_only:
  assumes "sk_app sk" and "ap_method_handlers ap = Map.empty"
    and "is_request_type m" and "is_request m"
  shows "serve_message os now m sk s (sk_init sk ap) rt w =
    rbind (if m_method_id m = 0 then handle_method_call os m sk s rt w
           else rbind (app_send_error_response os m E_UNKNOWN_METHOD rt w) (\<lambda>(rt, w). Inr (s, rt, w)))
      (\<lambda>(s, rt, w). rbind (cleanup_expired_requests now (sk_init sk ap)) (\<lambda>ap. Inr (s, ap, rt, w)))"
  by (rule serve_request [OF assms])

definition echo_skeleton :: "nat skeleton" where
  "echo_skeleton = register_method 7 (\<lambda>v n. Inr (rev v, n + 1)) (ServiceSkeleton True 0x1234 1)"

definition echo_request :: message where
  "echo_request = set_payload [1, 2] (create_request 0x1234 1 7 9 False)"

lemma server_simps [simp]:
  "ap_method_handlers (Application name) = Map.empty"
  "ap_pending_requests (Application name) = []" "ap_promises (Application name) = []"
  by (simp_all add: Application_def om_empty_def)

lemma sk_init_simps [simp]:
  "ap_pending_requests (sk_init sk ap) = ap_pending_requests ap"
  "ap_promises (sk_init sk ap) = ap_promises ap"
  by (simp_all add: sk_init_def app_register_method_handler_def)

theorem skeleton_serves_method_zero_only_witness:
  "\<exists>w'. serve_message queue_os 0 echo_request echo_skeleton 5
      (sk_init echo_skeleton (Application ''server'')) peer_runtime [] =
    Inr (5, sk_init echo_skeleton (Application ''server''), peer_runtime, w') \<and>
   w' = [(serialize (create_error_response echo_request E_UNKNOWN_METHOD), [127, 0, 0, 1], 30509)]"
proof -
  have r: "is_request_type echo_request" "is_request echo_request" "m_method_id echo_request = 7"
    "m_service_id echo_request = 0x1234" "m_instance_id echo_request = 1"
    by (simp_all add: echo_request_def set_payload_def create_request_def is_request_type_def
        is_request_def)
  have sk: "sk_app echo_skeleton"
    by (simp add: echo_skeleton_def register_method_def ServiceSkeleton_def)
  let ?e = "create_error_response echo_request E_UNKNOWN_METHOD"
  have "length (payload_bytes ?e) \<le> UDP_SEGMENT_SIZE"
    by (simp add: create_error_response_def create_response_def payload_bytes_def payload_empty_def)
  then obtain w' where sent: "send_message queue_os ?e ''127.0.0.1'' 30509 False peer_runtime [] =
      Inr (True, peer_runtime, w')" and w': "w' = [(serialize ?e, [127, 0, 0, 1], 30509)]"
    using send_message_short_udp [OF queue_os_send _ queue_os_pton, of peer_runtime ?e
        "''127.0.0.1''" 30509 "[]"]
    by (auto simp: demo_udp_def)
  have "app_send_error_response queue_os echo_request E_UNKNOWN_METHOD peer_runtime [] =
      Inr (peer_runtime, w')"
    using sent by (simp add: app_send_error_response_def with_sd_def r peer_endpoints
        server_endpoint_def Let_def)
  then show ?thesis
    using skeleton_serves_method_zero_only [OF sk server_simps(1) r(1,2), of queue_os 0 5 "''server''"
        peer_runtime "[]"] w'
    by (auto simp: r cleanup_expired_requests_def)
qed

lemma field_ids_are_requests:
  "getter_id field AND 0x8000 = 0" "setter_id field AND 0x8000 = 0"
  by (simp_all add: getter_id_def setter_id_def word_ao_dist and.assoc)

text \<open> Fields cannot be accessed. The ids \<open>get_field\<close> and \<open>set_field\<close> build have the event bit
  clear, and the skeleton looks for its field accessors only under ids that have it set: a
  request for a field is treated as a call of the method of that number, so it never reaches a
  registered getter or setter; and the ids keep only the low byte of the field. \<close>
theorem field_requests_miss_accessors:
  assumes "m_method_id m = getter_id field \<or> m_method_id m = setter_id field"
  shows "sk_on_message_received os (Some m) sk s ap rt w = handle_method_call os m sk s rt w \<and>
    (om_get (sk_method_handlers sk) (m_method_id m) = None \<longrightarrow>
      sk_on_message_received os (Some m) sk s ap rt w =
        rbind (sk_respond_error os m E_UNKNOWN_METHOD sk rt w) (\<lambda>(rt, w). Inr (s, rt, w))) \<and>
    getter_id (field AND 0x00FF) = getter_id field \<and> setter_id (field AND 0x00FF) = setter_id field"
proof -
  have "is_request m" using assms field_ids_are_requests by (auto simp: is_request_def)
  then have "sk_on_message_received os (Some m) sk s ap rt w = handle_method_call os m sk s rt w"
    by (simp add: sk_on_message_received_def)
  then show ?thesis
    by (simp add: handle_method_call_def getter_id_def setter_id_def and.assoc)
qed

definition field_skeleton :: "nat skeleton" where
  "field_skeleton = register_field 3 5 (\<lambda>n. Inr ([of_nat n], n)) (\<lambda>v n. Inr (True, length v)) False
     (ServiceSkeleton False 0x1234 1)"

theorem field_requests_miss_accessors_witness:
  "sk_on_message_received queue_os (Some (create_request 0x1234 1 (getter_id 3) 9 False))
     field_skeleton 42 client client_runtime [] = Inr (42, client_runtime, [])"
proof -
  let ?m = "create_request 0x1234 1 (getter_id 3) 9 False"
  have id: "m_method_id ?m = getter_id 3" by (simp add: create_request_def)
  have "sk_method_handlers field_skeleton = []" "\<not> sk_app field_skeleton"
    by (simp_all add: field_skeleton_def register_field_def register_field_setter_def
        register_field_getter_def ServiceSkeleton_def om_empty_def Let_def)
  then have none: "om_get (sk_method_handlers field_skeleton) (m_method_id ?m) = None"
    and silent: "sk_respond_error queue_os ?m E_UNKNOWN_METHOD field_skeleton client_runtime [] =
      Inr (client_runtime, [])"
    by (simp_all add: om_get_def sk_respond_error_def)
  have "sk_on_message_received queue_os (Some ?m) field_skeleton 42 client client_runtime [] =
      rbind (sk_respond_error queue_os ?m E_UNKNOWN_METHOD field_skeleton client_runtime [])
        (\<lambda>(rt, w). Inr (42, rt, w))"
    by (rule field_requests_miss_accessors [OF disjI1 [OF id], THEN conjunct2, THEN conjunct1,
          THEN mp, OF none])
  then show ?thesis using silent by simp
qed

text \<open>Only a call of \<open>Application::on_service_available\<close> makes a proxy available.\<close>

lemma px_step_available:
  assumes "px_step os False s s'" and "\<not> px_available (fst s)"
  shows "\<not> px_available (fst s')"
  using assms(1)
proof (cases rule: px_step.cases)
  case (Px_subscribe le locked now event eventgroup h px ap rt ok px' ap' rt' actions)
  then show ?thesis using assms(2)
    by (auto simp: px_subscribe_event_def rbind_Inr_iff Let_def split: if_splits)
next
  case (Px_unsubscribe le locked event eventgroup px rt px' rt' actions ap)
  then show ?thesis using assms(2)
    by (auto simp: px_unsubscribe_event_def rbind_Inr_iff split: if_splits)
qed (use assms(2) in \<open>auto simp: px_set_availability_handler_def\<close>)

lemma px_reachable_unavailable: "px_reachable os False s \<Longrightarrow> \<not> px_available (fst s)"
proof (induction rule: px_reachable.induct)
  case Px_new
  show ?case by (simp add: ServiceProxy_def)
next
  case (Px_next s s')
  show ?case by (rule px_step_available [OF Px_next(2,3)])
qed

text \<open> A proxy is never available by itself. Its flag is set only by the application's
  \<open>on_service_available\<close>, and nothing in the library calls that: without such a call by the
  user, in every reachable state, whatever service discovery has found, \<open>call_method\<close>,
  \<open>get_field\<close> and \<open>set_field\<close> return nothing and \<open>call_method_no_return\<close> false, and no message is
  sent. \<close>
theorem proxy_never_available:
  assumes "px_reachable os False (px, ap)"
  shows "\<not> px_available px \<and>
    px_call_send os now method payload timeout px ap rt w = Inr (None, ap, rt, w) \<and>
    px_get_field_send os now field timeout px ap rt w = Inr (None, ap, rt, w) \<and>
    px_set_field_send os now field payload px ap rt w = Inr (None, ap, rt, w) \<and>
    px_call_wait None ap = Inr None \<and> px_set_field_wait None ap = Inr False \<and>
    px_call_method_no_return os method payload px ap rt w = Inr (False, ap, rt, w)"
  using px_reachable_unavailable [OF assms]
  by (simp add: px_call_send_def px_get_field_send_def px_set_field_send_def px_call_wait_def
      px_set_field_wait_def px_call_method_no_return_def)

theorem proxy_never_available_witness:
  "px_call_send queue_os 0 7 [1] 5000 (ServiceProxy True 0x1234 1) (app_start (Application ''c''))
     peer_runtime [] = Inr (None, app_start (Application ''c''), peer_runtime, [])"
proof -
  have "px_reachable queue_os False (ServiceProxy True 0x1234 1, app_start (Application ''c''))"
    by (rule px_reachable.Px_next [OF px_reachable.Px_new
        px_step.Px_application [OF app_step.Start]])
  from proxy_never_available [OF this, of 0 7 "[1]" 5000 peer_runtime "[]"] show ?thesis by blast
qed

text \<open> A failed call looks like a success. \<open>call_method\<close> does not look at the type or the
  return code of the answer: for a service without a UDP endpoint, where \<open>send_request\<close> answers
  E_NOT_REACHABLE itself, it returns an empty payload instead of nothing, and \<open>set_field\<close> true. \<close>
theorem failed_call_looks_successful:
  assumes "app_reachable os ap" and "rt_service_discovery rt = Some sd"
    and "px_app px" and "px_available px"
    and "\<forall>ep \<in> set (get_service_endpoints (px_service_id px) (px_instance_id px) sd).
      ep_protocol ep \<noteq> UDP"
  shows "\<exists>f ap' m. px_call_send os now method payload timeout px ap rt w = Inr (Some f, ap', rt, w) \<and>
    ap_promises ap' ! f = Value m \<and> m_message_type m = ERROR \<and> m_return_code m = E_NOT_REACHABLE \<and>
    px_call_wait (Some f) ap' = Inr (Some []) \<and> px_set_field_wait (Some f) ap' = Inr True"
proof -
  let ?req = "request_message (px_service_id px) (px_instance_id px) method payload False ap rt"
  let ?e = "create_error_response ?req E_NOT_REACHABLE"
  let ?f = "length (ap_promises ap)"
  let ?ap1 = "enter_request now timeout ?req ap"
  let ?ap2 = "?ap1\<lparr>ap_promises := (ap_promises ?ap1)[?f := Value ?e]\<rparr>"
  note facts = enter_request_facts [OF app_reachable_ok [OF assms(1)], of now timeout ?req]
  have none: "\<forall>ep \<in> set (get_service_endpoints (px_service_id px) (px_instance_id px) sd).
      \<not> usable False ep"
    using assms(5) by (simp add: usable_def)
  have "app_send_request os now (px_service_id px) (px_instance_id px) method payload False timeout
      ap rt w = Inr (?f, ?ap2, rt, w)"
    using assms(2) facts(2,3)
    by (simp add: app_send_request_def Let_def with_sd_def set_value_ok send_first_unusable [OF none])
  then have sent: "px_call_send os now method payload timeout px ap rt w = Inr (Some ?f, ?ap2, rt, w)"
    using assms(3,4) by (simp add: px_call_send_def)
  have v: "ap_promises ?ap2 ! ?f = Value ?e" using facts(2) by simp
  have e: "m_message_type ?e = ERROR" "m_return_code ?e = E_NOT_REACHABLE"
    "m_payload ?e = Some payload_empty" "p_data payload_empty = []"
    by (simp_all add: create_error_response_def create_response_def payload_empty_def)
  have "px_call_wait (Some ?f) ?ap2 = Inr (Some [])" "px_set_field_wait (Some ?f) ?ap2 = Inr True"
    using v e by (simp_all add: px_call_wait_def px_set_field_wait_def)
  with sent v e show ?thesis by blast
qed

theorem failed_call_looks_successful_witness:
  "\<exists>f ap'. px_call_send queue_os 0 7 [1] 5000 ((ServiceProxy True 0x1234 1)\<lparr>px_available := True\<rparr>)
      client client_runtime [] = Inr (Some f, ap', client_runtime, []) \<and>
    px_call_wait (Some f) ap' = Inr (Some [])"
proof -
  let ?px = "(ServiceProxy True 0x1234 1)\<lparr>px_available := True\<rparr>"
  have "px_app ?px" "px_available ?px" by (simp_all add: ServiceProxy_def)
  moreover have "\<forall>ep \<in> set (get_service_endpoints (px_service_id ?px) (px_instance_id ?px)
      (ServiceDiscovery default_config)). ep_protocol ep \<noteq> UDP"
    by simp
  ultimately show ?thesis
    using failed_call_looks_successful [OF client_reachable client_runtime_simps(1), of ?px queue_os
        0 7 "[1]" 5000 "[]"] by blast
qed

section \<open>Offering and withdrawing\<close>

text \<open>The tables of a skeleton hold configurations of its own service, each under its id.\<close>

definition config_ok :: "'s skeleton \<Rightarrow> u16 \<Rightarrow> event_config \<Rightarrow> bool" where
  "config_ok sk k cfg \<longleftrightarrow> ec_event_id cfg = k \<and> ec_service_id cfg = sk_service_id sk \<and>
     ec_instance_id cfg = sk_instance_id sk"

definition skeleton_ok :: "'s skeleton \<Rightarrow> bool" where
  "skeleton_ok sk \<longleftrightarrow> om_all (config_ok sk) (sk_events sk) \<and> om_all (config_ok sk) (sk_fields sk) \<and>
     om_ok (sk_method_handlers sk) \<and> om_ok (sk_field_getters sk) \<and> om_ok (sk_field_setters sk)"

lemma config_ok_update [simp]:
  "config_ok (sk\<lparr>sk_events := e\<rparr>) = config_ok sk" "config_ok (sk\<lparr>sk_fields := f\<rparr>) = config_ok sk"
  "config_ok (sk\<lparr>sk_method_handlers := m\<rparr>) = config_ok sk"
  "config_ok (sk\<lparr>sk_field_getters := g\<rparr>) = config_ok sk"
  "config_ok (sk\<lparr>sk_field_setters := s\<rparr>) = config_ok sk"
  by (simp_all add: config_ok_def fun_eq_iff)

inductive sk_built :: "'s skeleton \<Rightarrow> bool" where
  New: "sk_built (ServiceSkeleton app service instance)"
| Method: "sk_built sk \<Longrightarrow> sk_built (register_method k h sk)"
| Getter: "sk_built sk \<Longrightarrow> sk_built (register_field_getter k g sk)"
| Setter: "sk_built sk \<Longrightarrow> sk_built (register_field_setter k s sk)"
| Event: "sk_built sk \<Longrightarrow> sk_built (register_event junk k eg reliable sk)"
| Field: "sk_built sk \<Longrightarrow> sk_built (register_field k eg g s reliable sk)"

lemma sk_built_ok: "sk_built sk \<Longrightarrow> skeleton_ok sk"
proof (induction rule: sk_built.induct)
  case New
  show ?case
    by (simp add: skeleton_ok_def ServiceSkeleton_def om_all_def om_empty_def om_get_def)
qed (auto simp: skeleton_ok_def register_method_def register_field_getter_def
    register_field_setter_def register_event_def register_field_def Let_def
    intro: om_ok_put intro!: om_all_put simp: config_ok_def)

lemma offer_events_effect:
  assumes "offer_events junk m ap rt = Inr (ap', rt')" and "om_all (config_ok sk) m"
    and "rt_service_discovery rt = Some sd" and "om_ok (sd_eventgroups sd)"
  shows "\<exists>sd'. rt_service_discovery rt' = Some sd' \<and> om_ok (sd_eventgroups sd') \<and>
    sd_local_services sd' = sd_local_services sd \<and>
    ap_event_configs ap' = ap_event_configs ap ++ om_get m \<and>
    (\<forall>(k, cfg) \<in> set m. get_subscribers (sk_service_id sk) (sk_instance_id sk) (ec_eventgroup_id cfg) sd' = []) \<and>
    (\<forall>g. get_subscribers (sk_service_id sk) (sk_instance_id sk) g sd = [] \<longrightarrow>
       get_subscribers (sk_service_id sk) (sk_instance_id sk) g sd' = [])"
  using assms
proof (induction m arbitrary: ap rt sd)
  case Nil
  then show ?case by (auto simp: om_get_def)
next
  case (Cons x it)
  obtain event cfg where x: "x = (event, cfg)" by (cases x)
  have ok: "config_ok sk event cfg" "om_all (config_ok sk) it" "event \<notin> fst ` set it"
    using Cons.prems(2) x by (auto simp: om_all_def om_ok_Cons om_get_set)
  let ?ap = "ap\<lparr>ap_event_configs := hm_put (ec_event_id cfg) cfg (ap_event_configs ap)\<rparr>"
  let ?sd = "offer_eventgroup junk (ec_service_id cfg) (ec_instance_id cfg) (ec_eventgroup_id cfg) [] sd"
  let ?rt = "rt\<lparr>rt_service_discovery := Some ?sd\<rparr>"
  have one: "app_offer_event junk cfg ap rt = Inr (?ap, ?rt)"
    using Cons.prems(3) by (simp add: app_offer_event_def with_sd_def Let_def)
  have rest: "offer_events junk it ?ap ?rt = Inr (ap', rt')" using Cons.prems(1) one x by simp
  have om: "om_ok (sd_eventgroups ?sd)" using Cons.prems(4) by (simp add: offer_eventgroup_def om_ok_put)
  have subs: "get_subscribers (sk_service_id sk) (sk_instance_id sk) g ?sd =
      (if g = ec_eventgroup_id cfg then []
       else get_subscribers (sk_service_id sk) (sk_instance_id sk) g sd)" for g
    using ok(1) Cons.prems(4)
    by (auto simp: get_subscribers_def offer_eventgroup_def om_get_put config_ok_def)
  have local: "sd_local_services ?sd = sd_local_services sd" by (simp add: offer_eventgroup_def)
  have configs: "(ap_event_configs ap)(event \<mapsto> cfg) ++ om_get it = ap_event_configs ap ++ om_get ((event, cfg) # it)"
    using ok(3) by (auto simp: om_get_def map_add_def fun_eq_iff split: option.split
        dest: map_of_SomeD intro: rev_image_eqI)
  have conf: "ap_event_configs ?ap = (ap_event_configs ap)(event \<mapsto> cfg)"
    using ok(1) by (simp add: hm_put_def config_ok_def)
  obtain sd' where "rt_service_discovery rt' = Some sd'" "om_ok (sd_eventgroups sd')"
    "sd_local_services sd' = sd_local_services ?sd" "ap_event_configs ap' = ap_event_configs ?ap ++ om_get it"
    "\<forall>(k, cfg) \<in> set it. get_subscribers (sk_service_id sk) (sk_instance_id sk) (ec_eventgroup_id cfg) sd' = []"
    "\<forall>g. get_subscribers (sk_service_id sk) (sk_instance_id sk) g ?sd = [] \<longrightarrow>
       get_subscribers (sk_service_id sk) (sk_instance_id sk) g sd' = []"
    using Cons.IH [OF rest ok(2) _ om] by auto
  then show ?case using conf configs local subs x by auto
qed

text \<open>The groups of the configurations an application has under the ids of \<open>K\<close>.\<close>

definition groups_of :: "application \<Rightarrow> u16 set \<Rightarrow> u16 set" where
  "groups_of ap K = {ec_eventgroup_id cfg |k cfg. k \<in> K \<and> ap_event_configs ap k = Some cfg}"

lemma groups_of_Un: "groups_of ap (K \<union> K') = groups_of ap K \<union> groups_of ap K'"
  by (auto simp: groups_of_def)

lemma groups_of_insert:
  assumes "ap_event_configs ap k = Some c"
  shows "groups_of ap (insert k K) = insert (ec_eventgroup_id c)
    (groups_of (ap\<lparr>ap_event_configs := hm_del k (ap_event_configs ap)\<rparr>) K)"
  using assms unfolding groups_of_def hm_del_def
  by (intro set_eqI iffI) (clarsimp, metis option.inject, auto split: if_splits)

lemma stop_offer_events_effect:
  assumes "stop_offer_events service instance m ap rt = Inr (ap', rt')"
    and "rt_service_discovery rt = Some sd"
  shows "\<exists>sd'. rt_service_discovery rt' = Some sd' \<and> sd_local_services sd' = sd_local_services sd \<and>
    ap_event_configs ap' = (ap_event_configs ap) |` (- (fst ` set m)) \<and>
    (\<forall>g. get_subscribers service instance g sd' =
       (if g \<in> groups_of ap (fst ` set m) then [] else get_subscribers service instance g sd))"
  using assms
proof (induction m arbitrary: ap rt sd)
  case Nil
  then show ?case by (auto simp: groups_of_def)
next
  case (Cons x it)
  obtain event cfg where x: "x = (event, cfg)" by (cases x)
  show ?case
  proof (cases "ap_event_configs ap event")
    case None
    then have "stop_offer_events service instance it ap rt = Inr (ap', rt')"
      using Cons.prems(1) by (simp add: x app_stop_offer_event_def)
    moreover have "groups_of ap (fst ` set (x # it)) = groups_of ap (fst ` set it)"
      using None by (auto simp: x groups_of_def)
    moreover have "ap_event_configs ap |` (- (fst ` set (x # it))) = ap_event_configs ap |` (- (fst ` set it))"
      using None by (auto simp: x restrict_map_def fun_eq_iff)
    ultimately show ?thesis using Cons.IH [OF _ Cons.prems(2)] by simp
  next
    case (Some c)
    let ?ap = "ap\<lparr>ap_event_configs := hm_del event (ap_event_configs ap)\<rparr>"
    let ?sd = "stop_offer_eventgroup service instance (ec_eventgroup_id c) sd"
    let ?rt = "rt\<lparr>rt_service_discovery := Some ?sd\<rparr>"
    have "stop_offer_events service instance it ?ap ?rt = Inr (ap', rt')"
      using Cons.prems Some by (simp add: x app_stop_offer_event_def with_sd_def)
    from Cons.IH [OF this, of ?sd] obtain sd' where sd': "rt_service_discovery rt' = Some sd'"
      "sd_local_services sd' = sd_local_services ?sd"
      "ap_event_configs ap' = (ap_event_configs ?ap) |` (- (fst ` set it))"
      "\<forall>g. get_subscribers service instance g sd' =
         (if g \<in> groups_of ?ap (fst ` set it) then [] else get_subscribers service instance g ?sd)"
      by auto
    have subs: "get_subscribers service instance g ?sd =
        (if g = ec_eventgroup_id c then [] else get_subscribers service instance g sd)" for g
      by (simp add: get_subscribers_def stop_offer_eventgroup_def om_get_del)
    have groups: "groups_of ap (fst ` set (x # it)) =
        insert (ec_eventgroup_id c) (groups_of ?ap (fst ` set it))"
      using groups_of_insert [OF Some] by (simp add: x)
    have "ap_event_configs ap' = (ap_event_configs ap) |` (- (fst ` set (x # it)))"
      using sd'(3) by (auto simp: x hm_del_def restrict_map_def fun_eq_iff)
    then show ?thesis using sd'(1,2,4) unfolding groups subs
      by (auto simp: stop_offer_eventgroup_def)
  qed
qed

text \<open>What offering and withdrawing do to the table of the offered services.\<close>

lemma app_offer_service_effect:
  assumes "app_offer_service le locked now config rt = Inr (rt', actions)"
    and "rt_service_discovery rt = Some sd" and "om_ok (sd_local_services sd)"
  shows "\<exists>sd'. rt_service_discovery rt' = Some sd' \<and> sd_eventgroups sd' = sd_eventgroups sd \<and>
    is_local_service (sc_service_id config) (sc_instance_id config) sd'"
proof -
  let ?sd = "fst (offer_service now config sd)"
  have "rt_service_discovery rt' = Some ?sd"
    using assms(1,2)
    by (auto simp: app_offer_service_def with_sd_def with_shm_def rbind_Inr_iff Let_def
        split: option.splits prod.splits)
  moreover have "is_local_service (sc_service_id config) (sc_instance_id config) ?sd"
    using assms(3)
    by (simp add: offer_service_def is_local_service_def om_get_put offered_info_def Let_def)
  ultimately show ?thesis by (auto simp: offer_service_def Let_def)
qed

lemma app_stop_offer_service_effect:
  assumes "app_stop_offer_service le locked service instance rt = Inr (rt', actions)"
    and "rt_service_discovery rt = Some sd"
  shows "\<exists>sd'. rt_service_discovery rt' = Some sd' \<and> sd_eventgroups sd' = sd_eventgroups sd \<and>
    \<not> is_local_service service instance sd'"
proof -
  let ?sd = "fst (stop_offer_service service instance sd)"
  have "rt_service_discovery rt' = Some ?sd"
    using assms(1,2)
    by (auto simp: app_stop_offer_service_def with_sd_def with_shm_def rbind_Inr_iff Let_def
        split: option.splits prod.splits)
  then show ?thesis
    by (auto simp: stop_offer_service_def is_local_service_def om_get_del split: option.split)
qed

lemma get_subscribers_eventgroups:
  "sd_eventgroups sd = sd_eventgroups sd' \<Longrightarrow>
     get_subscribers service instance g sd = get_subscribers service instance g sd'"
  by (simp add: get_subscribers_def)

lemma sk_offer_effect:
  assumes "sk_offer le locked now junk sk ap rt = Inr (ap', rt', actions)" and "sk_app sk"
    and "skeleton_ok sk" and "rt_service_discovery rt = Some sd" and "sd_ok sd"
  shows "\<exists>sd'. rt_service_discovery rt' = Some sd' \<and>
    is_local_service (sk_service_id sk) (sk_instance_id sk) sd' \<and>
    ap_event_configs ap' = ap_event_configs ap ++ om_get (sk_events sk) ++ om_get (sk_fields sk) \<and>
    (\<forall>(k, cfg) \<in> set (sk_events sk @ sk_fields sk).
      get_subscribers (sk_service_id sk) (sk_instance_id sk) (ec_eventgroup_id cfg) sd' = [])"
proof -
  have ok: "om_all (config_ok sk) (sk_events sk)" "om_all (config_ok sk) (sk_fields sk)"
    using assms(3) by (auto simp: skeleton_ok_def)
  have sd: "om_ok (sd_local_services sd)" "om_ok (sd_eventgroups sd)"
    using assms(5) by (auto simp: sd_ok_def om_all_def)
  obtain rta apb rtb where off: "app_offer_service le locked now (skeleton_config sk) rt = Inr (rta, actions)"
    "offer_events junk (sk_events sk) ap rta = Inr (apb, rtb)"
    "offer_events junk (sk_fields sk) apb rtb = Inr (ap', rt')"
    using assms(1,2) by (auto simp: sk_offer_def rbind_Inr_iff)
  obtain sda where sda: "rt_service_discovery rta = Some sda" "sd_eventgroups sda = sd_eventgroups sd"
    "is_local_service (sk_service_id sk) (sk_instance_id sk) sda"
    using app_offer_service_effect [OF off(1) assms(4) sd(1)] by (auto simp: skeleton_config_def)
  have oma: "om_ok (sd_eventgroups sda)" using sda(2) sd(2) by simp
  from offer_events_effect [OF off(2) ok(1) sda(1) oma] obtain sdb where
    b: "rt_service_discovery rtb = Some sdb" "om_ok (sd_eventgroups sdb)"
    "sd_local_services sdb = sd_local_services sda"
    "ap_event_configs apb = ap_event_configs ap ++ om_get (sk_events sk)"
    "\<forall>(k, cfg) \<in> set (sk_events sk). get_subscribers (sk_service_id sk) (sk_instance_id sk) (ec_eventgroup_id cfg) sdb = []"
    by blast
  from offer_events_effect [OF off(3) ok(2) b(1,2)] obtain sd' where
    c: "rt_service_discovery rt' = Some sd'" "sd_local_services sd' = sd_local_services sdb"
    "ap_event_configs ap' = ap_event_configs apb ++ om_get (sk_fields sk)"
    "\<forall>(k, cfg) \<in> set (sk_fields sk). get_subscribers (sk_service_id sk) (sk_instance_id sk) (ec_eventgroup_id cfg) sd' = []"
    "\<forall>g. get_subscribers (sk_service_id sk) (sk_instance_id sk) g sdb = [] \<longrightarrow>
       get_subscribers (sk_service_id sk) (sk_instance_id sk) g sd' = []"
    by blast
  have "is_local_service (sk_service_id sk) (sk_instance_id sk) sd'"
    using sda(3) b(3) c(2) by (simp add: is_local_service_def)
  then show ?thesis using c b(4,5) by auto
qed

lemma sk_stop_offer_effect:
  assumes "sk_stop_offer le locked sk ap rt = Inr (ap', rt', actions)" and "sk_app sk"
    and "rt_service_discovery rt = Some sd"
  shows "\<exists>sd'. rt_service_discovery rt' = Some sd' \<and>
    \<not> is_local_service (sk_service_id sk) (sk_instance_id sk) sd' \<and>
    ap_event_configs ap' = ap_event_configs ap |` (- (fst ` set (sk_events sk @ sk_fields sk))) \<and>
    (\<forall>g. get_subscribers (sk_service_id sk) (sk_instance_id sk) g sd' =
       (if g \<in> groups_of ap (fst ` set (sk_events sk @ sk_fields sk)) then []
        else get_subscribers (sk_service_id sk) (sk_instance_id sk) g sd))"
proof -
  let ?s = "sk_service_id sk" and ?i = "sk_instance_id sk"
  obtain rta apb rtb where stop: "app_stop_offer_service le locked ?s ?i rt = Inr (rta, actions)"
    "stop_offer_events ?s ?i (sk_events sk) ap rta = Inr (apb, rtb)"
    "stop_offer_events ?s ?i (sk_fields sk) apb rtb = Inr (ap', rt')"
    using assms(1,2) by (auto simp: sk_stop_offer_def rbind_Inr_iff)
  obtain sda where sda: "rt_service_discovery rta = Some sda" "\<not> is_local_service ?s ?i sda"
    "sd_eventgroups sda = sd_eventgroups sd"
    using app_stop_offer_service_effect [OF stop(1) assms(3)] by blast
  from stop_offer_events_effect [OF stop(2) sda(1)] obtain sdb where
    b: "rt_service_discovery rtb = Some sdb" "sd_local_services sdb = sd_local_services sda"
    "ap_event_configs apb = ap_event_configs ap |` (- (fst ` set (sk_events sk)))"
    "\<forall>g. get_subscribers ?s ?i g sdb =
       (if g \<in> groups_of ap (fst ` set (sk_events sk)) then [] else get_subscribers ?s ?i g sda)" by blast
  from stop_offer_events_effect [OF stop(3) b(1)] obtain sd' where
    c: "rt_service_discovery rt' = Some sd'" "sd_local_services sd' = sd_local_services sdb"
    "ap_event_configs ap' = ap_event_configs apb |` (- (fst ` set (sk_fields sk)))"
    "\<forall>g. get_subscribers ?s ?i g sd' =
       (if g \<in> groups_of apb (fst ` set (sk_fields sk)) then [] else get_subscribers ?s ?i g sdb)" by blast
  have "groups_of apb (fst ` set (sk_fields sk)) =
      groups_of ap (fst ` set (sk_fields sk) - fst ` set (sk_events sk))"
    using b(3) by (auto simp: groups_of_def restrict_map_def split: if_splits)
  then have "groups_of ap (fst ` set (sk_events sk @ sk_fields sk)) =
      groups_of ap (fst ` set (sk_events sk)) \<union> groups_of apb (fst ` set (sk_fields sk))"
    using groups_of_Un [of ap "fst ` set (sk_events sk)" "fst ` set (sk_fields sk) - fst ` set (sk_events sk)"]
    by (simp add: image_Un)
  moreover have "\<not> is_local_service ?s ?i sd'"
    using sda(2) b(2) c(2) by (simp add: is_local_service_def)
  moreover have "ap_event_configs ap' = ap_event_configs ap |` (- (fst ` set (sk_events sk @ sk_fields sk)))"
    using b(3) c(3) by (simp add: image_Un Int_commute)
  ultimately show ?thesis
    using b(4) c(1,4) get_subscribers_eventgroups [OF sda(3)] by auto
qed

text \<open>A skeleton's registered ids, and the configuration offered under each: a field's, if there is one.\<close>

abbreviation registered_ids :: "'s skeleton \<Rightarrow> u16 set" where
  "registered_ids sk \<equiv> fst ` set (sk_events sk @ sk_fields sk)"

abbreviation offered_config :: "'s skeleton \<Rightarrow> u16 \<rightharpoonup> event_config" where
  "offered_config sk \<equiv> om_get (sk_events sk) ++ om_get (sk_fields sk)"

lemma offered_registered: "offered_config sk k = Some cfg \<Longrightarrow> k \<in> registered_ids sk"
  by (auto simp: om_get_def dest: map_of_SomeD intro: rev_image_eqI split: option.splits)

text \<open> C14: what \<open>offer\<close> and \<open>stop_offer\<close> of a skeleton do. After \<open>offer\<close> the service is among the
  offered ones and the application knows exactly the events and fields registered with the
  skeleton in addition to those it knew, a field taking the place of an event of the same id;
  the event groups of all of them start without subscribers, even if they were offered before.
  \<open>stop_offer\<close> comes in any later state in which the application still has these configurations,
  whatever else has happened, subscriptions included. After it the service is not offered, the
  application knows none of the skeleton's events and fields and all others as before, so notifying
  one of them sends nothing; the groups of the configurations that were offered have no subscribers,
  and all other groups of the service those they had: the group of an event whose id a field took is
  not withdrawn, unless it is that of another one. \<close>
theorem offer_and_withdraw:
  assumes "sk_built sk" and "sk_app sk" and "rt_service_discovery rt = Some sd" and "sd_ok sd"
    and "sk_offer le locked now junk sk ap rt = Inr (ap1, rt1, actions1)"
    and "\<forall>k \<in> registered_ids sk. ap_event_configs ap' k = ap_event_configs ap1 k"
    and "rt_service_discovery rt' = Some sd'"
    and "sk_stop_offer le' locked' sk ap' rt' = Inr (ap2, rt2, actions2)"
  shows "\<exists>sd1 sd2. rt_service_discovery rt1 = Some sd1 \<and> rt_service_discovery rt2 = Some sd2 \<and>
    is_local_service (sk_service_id sk) (sk_instance_id sk) sd1 \<and>
    ap_event_configs ap1 = ap_event_configs ap ++ offered_config sk \<and>
    (\<forall>(k, cfg) \<in> set (sk_events sk @ sk_fields sk).
      get_subscribers (sk_service_id sk) (sk_instance_id sk) (ec_eventgroup_id cfg) sd1 = []) \<and>
    \<not> is_local_service (sk_service_id sk) (sk_instance_id sk) sd2 \<and>
    ap_event_configs ap2 = ap_event_configs ap' |` (- registered_ids sk) \<and>
    (\<forall>k \<in> registered_ids sk. app_notify_event os k payload ap2 rt2 w = Inr (rt2, w)) \<and>
    (\<forall>g. get_subscribers (sk_service_id sk) (sk_instance_id sk) g sd2 =
      (if \<exists>k cfg. offered_config sk k = Some cfg \<and> ec_eventgroup_id cfg = g then []
       else get_subscribers (sk_service_id sk) (sk_instance_id sk) g sd'))"
proof -
  let ?s = "sk_service_id sk" and ?i = "sk_instance_id sk"
  obtain sd1 where one: "rt_service_discovery rt1 = Some sd1" "is_local_service ?s ?i sd1"
    "ap_event_configs ap1 = ap_event_configs ap ++ offered_config sk"
    "\<forall>(k, cfg) \<in> set (sk_events sk @ sk_fields sk). get_subscribers ?s ?i (ec_eventgroup_id cfg) sd1 = []"
    using sk_offer_effect [OF assms(5,2) sk_built_ok [OF assms(1)] assms(3,4)] by auto
  obtain sd2 where two: "rt_service_discovery rt2 = Some sd2" "\<not> is_local_service ?s ?i sd2"
    "ap_event_configs ap2 = ap_event_configs ap' |` (- registered_ids sk)"
    "\<forall>g. get_subscribers ?s ?i g sd2 =
       (if g \<in> groups_of ap' (registered_ids sk) then [] else get_subscribers ?s ?i g sd')"
    using sk_stop_offer_effect [OF assms(8,2,7)] by blast
  have "offered_config sk k \<noteq> None" if "k \<in> registered_ids sk" for k
    using that by (force simp: om_get_def map_add_def dest: weak_map_of_SomeI split: option.splits)
  then have "ap_event_configs ap' k = offered_config sk k" if "k \<in> registered_ids sk" for k
    using that assms(6) unfolding one(3) by (metis domI domIff map_add_dom_app_simps(1))
  then have "g \<in> groups_of ap' (registered_ids sk) \<longleftrightarrow>
      (\<exists>k cfg. offered_config sk k = Some cfg \<and> ec_eventgroup_id cfg = g)" for g
    using offered_registered unfolding groups_of_def mem_Collect_eq by metis
  then have "\<forall>g. get_subscribers ?s ?i g sd2 =
      (if \<exists>k cfg. offered_config sk k = Some cfg \<and> ec_eventgroup_id cfg = g then []
       else get_subscribers ?s ?i g sd')"
    using two(4) by presburger
  moreover have "\<forall>k \<in> registered_ids sk. app_notify_event os k payload ap2 rt2 w = Inr (rt2, w)"
    using two(3) by (simp add: app_notify_event_def restrict_map_def)
  ultimately show ?thesis using one two(1-3) by blast
qed

definition event_skeleton :: "unit skeleton" where
  "event_skeleton = register_event False 3 5 False (ServiceSkeleton True 0x1234 1)"

theorem offer_and_withdraw_witness:
  "\<exists>ap1 rt1 actions1 ap2 rt2 actions2.
    sk_offer True True 0 0 event_skeleton client client_runtime = Inr (ap1, rt1, actions1) \<and>
    sk_stop_offer True True event_skeleton ap1 rt1 = Inr (ap2, rt2, actions2) \<and>
    ap_event_configs ap1 3 \<noteq> None \<and> app_notify_event queue_os 3 [9] ap2 rt2 [] = Inr (rt2, [])"
proof -
  let ?c = "\<lparr>ec_service_id = 0x1234, ec_instance_id = 1, ec_event_id = 3, ec_eventgroup_id = 5,
      ec_is_field = False, ec_is_reliable = False\<rparr> :: event_config"
  have sk: "sk_app event_skeleton" "sk_events event_skeleton = [(3, ?c)]"
    "sk_fields event_skeleton = []"
    by (simp_all add: event_skeleton_def register_event_def ServiceSkeleton_def om_empty_def)
  have built: "sk_built event_skeleton"
    unfolding event_skeleton_def by (rule sk_built.Event [OF sk_built.New])
  have shm: "rt_shm_agent client_runtime = None"
    by (simp add: client_runtime_def demo_runtime_def Runtime_def)
  obtain ap1 rt1 actions1 where off:
      "sk_offer True True 0 0 event_skeleton client client_runtime = Inr (ap1, rt1, actions1)"
    and rt1: "rt_shm_agent rt1 = None" "rt_service_discovery rt1 \<noteq> None"
    using shm
    by (cases "offer_service 0 (skeleton_config event_skeleton) (ServiceDiscovery default_config)")
      (auto simp: sk_offer_def sk app_offer_service_def with_sd_def with_shm_def
        app_offer_event_def Let_def)
  obtain sd1 where sd1: "rt_service_discovery rt1 = Some sd1" using rt1(2) by blast
  obtain ap2 rt2 actions2 where stop:
      "sk_stop_offer True True event_skeleton ap1 rt1 = Inr (ap2, rt2, actions2)"
    using rt1(1) sd1
    by (cases "stop_offer_service (sk_service_id event_skeleton) (sk_instance_id event_skeleton) sd1";
        cases "ap_event_configs ap1 3")
      (auto simp: sk_stop_offer_def sk app_stop_offer_service_def with_sd_def with_shm_def
        app_stop_offer_event_def)
  from offer_and_withdraw [OF built sk(1) client_runtime_simps(1) sd_ok_new off _ sd1 stop,
      where os = queue_os and payload = "[9]" and w = "[]"]
  have "ap_event_configs ap1 3 \<noteq> None \<and> app_notify_event queue_os 3 [9] ap2 rt2 [] = Inr (rt2, [])"
    by (auto simp: sk om_get_def)
  with off stop show ?thesis by blast
qed

end
