(* ===== verification/ExampleMethod.thy ===== *)
theory ExampleMethod
  imports ServiceProps "HOL-Library.Signed_Division"
begin

text \<open>
  \<open>examples/example_method.cpp\<close>: a calculator as a skeleton and its client as a proxy. What the
  two sides encode and decode, the handlers with the signed arithmetic of \<open>int32_t\<close>, and what the
  server and the client do with the library, up to console input and output. The start of a
  server and its end are the same in every example over a skeleton and are stated once, here.
\<close>

section \<open>Signed integers on the wire\<close>

text \<open>
  An \<open>int32_t\<close> is its 32 bits; \<open>>>\<close> of it keeps the sign. Arithmetic that does not fit is
  undefined.
\<close>

definition int32_bytes :: "u32 \<Rightarrow> bytes" where
  "int32_bytes v = [ucast (signed_drop_bit 24 v), ucast (signed_drop_bit 16 v),
     ucast (signed_drop_bit 8 v), ucast v]"

definition int32_at :: "bytes \<Rightarrow> nat \<Rightarrow> u32" where
  "int32_at data i = push_bit 24 (ucast (data ! i)) OR push_bit 16 (ucast (data ! (i + 1))) OR
     push_bit 8 (ucast (data ! (i + 2))) OR ucast (data ! (i + 3))"

definition int32_of :: "int \<Rightarrow> fault + u32" where
  "int32_of v = (if - (2 ^ 31) \<le> v \<and> v < 2 ^ 31 then Inr (word_of_int v) else Inl Signed_overflow)"

lemma int32_bytes_eq: "int32_bytes v = bytes32 v"
  unfolding int32_bytes_def bytes32_def mask_byte
  by (auto intro!: bit_word_eqI simp: bit_simps)

lemma int32_bytes_drop:
  "int32_bytes v = [ucast (drop_bit 24 v), ucast (drop_bit 16 v), ucast (drop_bit 8 v), ucast v]"
  unfolding int32_bytes_eq bytes32_def mask_byte
  by (simp add: bit_eq_iff bit_simps)

lemma length_int32_bytes [simp]: "length (int32_bytes v) = 4"
  by (simp add: int32_bytes_def)

lemma int32_at_bytes [simp]:
  "int32_at (int32_bytes v @ rest) 0 = v" "int32_at (int32_bytes v) 0 = v"
  "int32_at (int32_bytes u @ int32_bytes v) 4 = v"
  using be32_split [of v]
  by (simp_all add: int32_at_def be32_def int32_bytes_eq bytes32_def eval_nat_numeral)

lemma sint_int32_of: "int32_of v = Inr w \<Longrightarrow> sint w = v"
  by (auto simp: int32_of_def sint_sbintrunc' signed_take_bit_int_eq_self split: if_splits)

lemma om_empty_ok [simp]: "om_ok om_empty" "om_get om_empty k = None"
  by (simp_all add: om_empty_def om_get_def)

section \<open>Server and client of an example\<close>

text \<open>
  \<open>run_server\<close> up to the prompt: make and start a runtime, an application, the service, and offer
  it. Without a runtime it gives up. And from the prompt on.
\<close>

definition server_up ::
    "'w os \<Rightarrow> (string \<Rightarrow> (bytes option \<times> nat \<times> int) option) \<Rightarrow> bool \<Rightarrow> bool \<Rightarrow> time_point \<Rightarrow> u8 \<Rightarrow> u16 \<Rightarrow>
     runtime_config \<Rightarrow> string \<Rightarrow> ('s skeleton \<Rightarrow> application \<Rightarrow> 's skeleton \<times> application) \<Rightarrow>
     's skeleton \<Rightarrow> 'w \<Rightarrow> fault + ('s skeleton \<times> application \<times> runtime \<times> 'w) option" where
  "server_up os attach le locked now junk client_id config name init sk w =
     (let (ok, rt, w) = rt_init os attach (Runtime config client_id) w in
      if \<not> ok then Inr None
      else
        let rt = app_init (rt_start rt);
            (sk, ap) = init sk (create_application name)
        in rbind (sk_offer le locked now junk sk ap rt) (\<lambda>(ap, rt, actions).
             Inr (Some (sk, ap, rt, w))))"

definition server_down ::
    "'w os \<Rightarrow> u32 list \<Rightarrow> bool \<Rightarrow> bool \<Rightarrow> 's skeleton \<Rightarrow> application \<Rightarrow> runtime \<Rightarrow> 'w \<Rightarrow>
     fault + application \<times> runtime \<times> 'w" where
  "server_down os order le locked sk ap rt w =
     rbind (sk_stop_offer le locked sk ap rt) (\<lambda>(ap, rt, actions).
       Inr (ap, rt_stop os order rt w))"

text \<open>\<open>run_client\<close> up to the calls: a runtime, an application and the proxy.\<close>

definition client_up ::
    "'w os \<Rightarrow> (string \<Rightarrow> (bytes option \<times> nat \<times> int) option) \<Rightarrow> u16 \<Rightarrow> runtime_config \<Rightarrow> string \<Rightarrow>
     (proxy \<Rightarrow> application \<Rightarrow> runtime \<Rightarrow> 'c) \<Rightarrow> proxy \<Rightarrow> 'w \<Rightarrow> ('c \<times> 'w) option" where
  "client_up os attach client_id config name init px w =
     (let (ok, rt, w) = rt_init os attach (Runtime config client_id) w in
      if \<not> ok then None
      else Some (init px (create_application name) (app_init (rt_start rt)), w))"

definition example_config :: "string \<Rightarrow> u16 \<Rightarrow> u16 \<Rightarrow> runtime_config" where
  "example_config name udp_port tcp_port = default_runtime_config\<lparr>rc_name := name,
     rc_address := ''127.0.0.1'', rc_udp_port := udp_port, rc_tcp_port := tcp_port\<rparr>"

section \<open>The calculator\<close>

definition CALCULATOR_SERVICE :: u16 where "CALCULATOR_SERVICE = 0x1234"
definition CALCULATOR_INSTANCE :: u16 where "CALCULATOR_INSTANCE = 0x0001"

definition METHOD_ADD :: u16 where "METHOD_ADD = 0x0001"
definition METHOD_SUBTRACT :: u16 where "METHOD_SUBTRACT = 0x0002"
definition METHOD_MULTIPLY :: u16 where "METHOD_MULTIPLY = 0x0003"
definition METHOD_DIVIDE :: u16 where "METHOD_DIVIDE = 0x0004"

definition encode_request :: "u32 \<Rightarrow> u32 \<Rightarrow> bytes" where
  "encode_request a b = [] @ int32_bytes a @ int32_bytes b"

definition decode_response :: "bytes \<Rightarrow> u32 option" where
  "decode_response data = (if length data < 4 then None else Some (int32_at data 0))"

definition decode_operands :: "bytes \<Rightarrow> u32 \<times> u32" where
  "decode_operands payload =
     (if length payload < 8 then (0, 0) else (int32_at payload 0, int32_at payload 4))"

definition encode_result :: "u32 \<Rightarrow> bytes" where
  "encode_result result = int32_bytes result"

definition handle_add :: "bytes \<Rightarrow> 's \<Rightarrow> fault + bytes \<times> 's" where
  "handle_add payload s = (let (a, b) = decode_operands payload in
     rbind (int32_of (sint a + sint b)) (\<lambda>r. Inr (encode_result r, s)))"

definition handle_subtract :: "bytes \<Rightarrow> 's \<Rightarrow> fault + bytes \<times> 's" where
  "handle_subtract payload s = (let (a, b) = decode_operands payload in
     rbind (int32_of (sint a - sint b)) (\<lambda>r. Inr (encode_result r, s)))"

definition handle_multiply :: "bytes \<Rightarrow> 's \<Rightarrow> fault + bytes \<times> 's" where
  "handle_multiply payload s = (let (a, b) = decode_operands payload in
     rbind (int32_of (sint a * sint b)) (\<lambda>r. Inr (encode_result r, s)))"

definition handle_divide :: "bytes \<Rightarrow> 's \<Rightarrow> fault + bytes \<times> 's" where
  "handle_divide payload s = (let (a, b) = decode_operands payload in
     if b = 0 then Inr (encode_result 0, s)
     else rbind (int32_of (sint a sdiv sint b)) (\<lambda>r. Inr (encode_result r, s)))"

definition CalculatorService :: "bool \<Rightarrow> unit skeleton" where
  "CalculatorService app = ServiceSkeleton app CALCULATOR_SERVICE CALCULATOR_INSTANCE"

definition calculator_init :: "unit skeleton \<Rightarrow> application \<Rightarrow> unit skeleton \<times> application" where
  "calculator_init sk ap =
     (let sk = register_method METHOD_ADD handle_add sk;
          sk = register_method METHOD_SUBTRACT handle_subtract sk;
          sk = register_method METHOD_MULTIPLY handle_multiply sk;
          sk = register_method METHOD_DIVIDE handle_divide sk
      in (sk, sk_init sk ap))"

definition calculator_run_server ::
    "'w os \<Rightarrow> (string \<Rightarrow> (bytes option \<times> nat \<times> int) option) \<Rightarrow> bool \<Rightarrow> bool \<Rightarrow> time_point \<Rightarrow> u8 \<Rightarrow> u16 \<Rightarrow>
     u32 list \<Rightarrow> 'w \<Rightarrow> fault + (application \<times> runtime \<times> 'w) option" where
  "calculator_run_server os attach le locked now junk client_id order w =
     rbind (server_up os attach le locked now junk client_id
         (example_config ''calculator_server'' 30509 30490) ''CalculatorService'' calculator_init
         (CalculatorService True) w)
       (\<lambda>up. case up of None \<Rightarrow> Inr None
        | Some (sk, ap, rt, w) \<Rightarrow> rbind (server_down os order le locked sk ap rt w) (\<lambda>r. Inr (Some r)))"

section \<open>The client\<close>

definition CalculatorClient :: "bool \<Rightarrow> proxy" where
  "CalculatorClient app = ServiceProxy app CALCULATOR_SERVICE CALCULATOR_INSTANCE"

text \<open>Each call up to the wait, and, the same for all, from the wait on.\<close>

definition calc_add ::
    "'w os \<Rightarrow> time_point \<Rightarrow> u32 \<Rightarrow> u32 \<Rightarrow> proxy \<Rightarrow> application \<Rightarrow> runtime \<Rightarrow> 'w \<Rightarrow>
     fault + nat option \<times> application \<times> runtime \<times> 'w" where
  "calc_add os now a b px ap rt w = px_call_send os now METHOD_ADD (encode_request a b) 5000 px ap rt w"

definition calc_subtract ::
    "'w os \<Rightarrow> time_point \<Rightarrow> u32 \<Rightarrow> u32 \<Rightarrow> proxy \<Rightarrow> application \<Rightarrow> runtime \<Rightarrow> 'w \<Rightarrow>
     fault + nat option \<times> application \<times> runtime \<times> 'w" where
  "calc_subtract os now a b px ap rt w =
     px_call_send os now METHOD_SUBTRACT (encode_request a b) 5000 px ap rt w"

definition calc_multiply ::
    "'w os \<Rightarrow> time_point \<Rightarrow> u32 \<Rightarrow> u32 \<Rightarrow> proxy \<Rightarrow> application \<Rightarrow> runtime \<Rightarrow> 'w \<Rightarrow>
     fault + nat option \<times> application \<times> runtime \<times> 'w" where
  "calc_multiply os now a b px ap rt w =
     px_call_send os now METHOD_MULTIPLY (encode_request a b) 5000 px ap rt w"

definition calc_divide ::
    "'w os \<Rightarrow> time_point \<Rightarrow> u32 \<Rightarrow> u32 \<Rightarrow> proxy \<Rightarrow> application \<Rightarrow> runtime \<Rightarrow> 'w \<Rightarrow>
     fault + nat option \<times> application \<times> runtime \<times> 'w" where
  "calc_divide os now a b px ap rt w =
     px_call_send os now METHOD_DIVIDE (encode_request a b) 5000 px ap rt w"

definition calc_result :: "nat option \<Rightarrow> application \<Rightarrow> fault + u32 option" where
  "calc_result future ap = rbind (px_call_wait future ap) (\<lambda>result. Inr (case result of
     None \<Rightarrow> None | Some data \<Rightarrow> decode_response data))"

definition calculator_run_client ::
    "'w os \<Rightarrow> (string \<Rightarrow> (bytes option \<times> nat \<times> int) option) \<Rightarrow> u16 \<Rightarrow> 'w \<Rightarrow>
     ((proxy \<times> application \<times> runtime) \<times> 'w) option" where
  "calculator_run_client os attach client_id w =
     client_up os attach client_id (example_config ''calculator_client'' 30510 0) ''CalculatorClient''
       (\<lambda>px ap rt. (px, px_init px ap rt)) (CalculatorClient True) w"

section \<open>Properties\<close>

text \<open>What each method promises, on integers; division rounds to zero, and by zero it gives zero.\<close>

definition calculator_op :: "u16 \<Rightarrow> (int \<Rightarrow> int \<Rightarrow> int) option" where
  "calculator_op = [METHOD_ADD \<mapsto> (+), METHOD_SUBTRACT \<mapsto> (-), METHOD_MULTIPLY \<mapsto> (*),
     METHOD_DIVIDE \<mapsto> (\<lambda>a b. if b = 0 then 0 else a sdiv b)]"

lemmas method_ids = METHOD_ADD_def METHOD_SUBTRACT_def METHOD_MULTIPLY_def METHOD_DIVIDE_def

lemma decode_operands_request [simp]: "decode_operands (encode_request a b) = (a, b)"
  by (simp add: decode_operands_def encode_request_def)

lemma decode_response_result [simp]: "decode_response (encode_result r) = Some r"
  by (simp add: decode_response_def encode_result_def)

lemma calculator_handlers:
  "om_get (sk_method_handlers (fst (calculator_init (CalculatorService app) ap))) =
     [METHOD_ADD \<mapsto> handle_add, METHOD_SUBTRACT \<mapsto> handle_subtract,
      METHOD_MULTIPLY \<mapsto> handle_multiply, METHOD_DIVIDE \<mapsto> handle_divide]"
  by (simp add: calculator_init_def CalculatorService_def register_method_def ServiceSkeleton_def
      Let_def om_get_put om_ok_put fun_eq_iff)

lemma calculator_handler:
  assumes "calculator_op k = Some f"
  shows "\<exists>h. om_get (sk_method_handlers (fst (calculator_init (CalculatorService app) ap))) k = Some h \<and>
    h (encode_request a b) s = rbind (int32_of (f (sint a) (sint b))) (\<lambda>r. Inr (encode_result r, s))"
proof -
  consider "k = METHOD_ADD" "f = (+)" | "k = METHOD_SUBTRACT" "f = (-)"
    | "k = METHOD_MULTIPLY" "f = (*)"
    | "k = METHOD_DIVIDE" "f = (\<lambda>a b. if b = 0 then 0 else a sdiv b)"
    using assms by (auto simp: calculator_op_def split: if_splits)
  then show ?thesis
  proof cases
    case 1
    then show ?thesis by (simp add: calculator_handlers method_ids handle_add_def)
  next
    case 2
    then show ?thesis by (simp add: calculator_handlers method_ids handle_subtract_def)
  next
    case 3
    then show ?thesis by (simp add: calculator_handlers method_ids handle_multiply_def)
  next
    case 4
    then show ?thesis by (simp add: calculator_handlers method_ids handle_divide_def int32_of_def)
  qed
qed

text \<open> Nobody can call the calculator. Its methods are registered with the skeleton, and the
  skeleton registers method 0 with the application, which dispatches by method: a request for
  any method of the calculator is answered with E_UNKNOWN_METHOD, and no handler runs. \<close>
theorem calculator_refuses:
  assumes "calculator_op (m_method_id m) = Some f" and "is_request_type m" and "is_request m"
    and "calculator_init (CalculatorService True) (Application name) = (sk, ap)"
  shows "serve_message os now m sk s ap rt w =
    rbind (app_send_error_response os m E_UNKNOWN_METHOD rt w) (\<lambda>(rt, w). Inr (s, ap, rt, w))"
proof -
  have sk: "sk_app sk" "ap = sk_init sk (Application name)"
    using assms(4) by (auto simp: calculator_init_def CalculatorService_def register_method_def
        ServiceSkeleton_def Let_def)
  have "m_method_id m \<noteq> 0" using assms(1) by (auto simp: calculator_op_def method_ids split: if_splits)
  then have "serve_message os now m sk s ap rt w =
      rbind (rbind (app_send_error_response os m E_UNKNOWN_METHOD rt w) (\<lambda>(rt, w). Inr (s, rt, w)))
        (\<lambda>(s, rt, w). rbind (cleanup_expired_requests now ap) (\<lambda>ap. Inr (s, ap, rt, w)))"
    using serve_request [OF sk(1) server_simps(1) assms(2,3), of os now s name rt w] sk(2) by simp
  moreover have "cleanup_expired_requests now ap = Inr ap"
    by (simp add: sk(2) sk_init_def app_register_method_handler_def cleanup_expired_requests_def
        Application_def om_empty_def)
  ultimately show ?thesis
    by (cases "app_send_error_response os m E_UNKNOWN_METHOD rt w") auto
qed

theorem calculator_refuses_witness:
  "serve_message queue_os 0
      (set_payload (encode_request 10 5) (create_request 0x1234 1 METHOD_ADD 9 False))
      (fst (calculator_init (CalculatorService True) (Application ''s''))) ()
      (snd (calculator_init (CalculatorService True) (Application ''s''))) client_runtime [] =
    Inr ((), snd (calculator_init (CalculatorService True) (Application ''s'')), client_runtime, [])"
proof -
  let ?m = "set_payload (encode_request 10 5) (create_request 0x1234 1 METHOD_ADD 9 False)"
  have m: "is_request_type ?m" "is_request ?m" "calculator_op (m_method_id ?m) = Some (+)"
    by (simp_all add: set_payload_def create_request_def is_request_type_def is_request_def
        calculator_op_def method_ids)
  have e: "app_send_error_response queue_os ?m E_UNKNOWN_METHOD client_runtime [] = Inr (client_runtime, [])"
    by (simp add: app_send_error_response_def with_sd_def Let_def)
  show ?thesis
    using calculator_refuses [OF m(3,1,2) surjective_pairing, of queue_os 0 "''s''" "()" client_runtime "[]"]
    by (simp add: e)
qed

text \<open> C19: The calculator computes, and is never asked. For two \<open>int32_t\<close> operands as the client encodes
  them, the most significant byte first, the skeleton's \<open>handle_method_call\<close> answers with the four bytes of the exact sum, difference or product, of
  the quotient rounded to zero, or of 0 for a division by zero, and the client decodes
  them to that integer; when the result is not an \<open>int32_t\<close>, as for the least integer divided by -1, the
  handler computes it all the same, and that is undefined. But a request that comes in through the
  application the calculator is registered with never gets there: it is answered with E_UNKNOWN_METHOD, and no handler runs. \<close>
theorem calculator_answers:
  assumes "(m_method_id m, v) \<in> {(METHOD_ADD, sint a + sint b), (METHOD_SUBTRACT, sint a - sint b),
      (METHOD_MULTIPLY, sint a * sint b), (METHOD_DIVIDE, if b = 0 then 0 else sint a sdiv sint b)}"
    and "payload_bytes m = encode_request a b"
    and "calculator_init (CalculatorService True) (Application name) = (sk, ap)"
  shows "encode_request a b =
      [ucast (drop_bit 24 a), ucast (drop_bit 16 a), ucast (drop_bit 8 a), ucast a,
       ucast (drop_bit 24 b), ucast (drop_bit 16 b), ucast (drop_bit 8 b), ucast b] \<and>
    (if v \<in> {- (2 ^ 31) ..< 2 ^ 31} then
       \<exists>r. sint r = v \<and> decode_response
           [ucast (drop_bit 24 r), ucast (drop_bit 16 r), ucast (drop_bit 8 r), ucast r] = Some r \<and>
         handle_method_call os m sk s rt w = rbind (sk_respond os m
             [ucast (drop_bit 24 r), ucast (drop_bit 16 r), ucast (drop_bit 8 r), ucast r] sk rt w)
           (\<lambda>(rt, w). Inr (s, rt, w))
     else handle_method_call os m sk s rt w = Inl Signed_overflow) \<and>
    (is_request_type m \<and> is_request m \<longrightarrow> serve_message os now m sk s ap rt w =
       rbind (app_send_error_response os m E_UNKNOWN_METHOD rt w) (\<lambda>(rt, w). Inr (s, ap, rt, w)))"
proof -
  obtain f where f: "calculator_op (m_method_id m) = Some f" "f (sint a) (sint b) = v"
    using assms(1) by (auto simp: calculator_op_def method_ids)
  have sk: "sk = fst (calculator_init (CalculatorService True) (Application name))"
    using assms(3) by simp
  obtain h where h: "om_get (sk_method_handlers sk) (m_method_id m) = Some h"
    "h (payload_bytes m) s = rbind (int32_of v) (\<lambda>r. Inr (encode_result r, s))"
    using calculator_handler [OF f(1)] f(2) assms(2) sk by metis
  have bytes: "encode_result r = [ucast (drop_bit 24 r), ucast (drop_bit 16 r), ucast (drop_bit 8 r), ucast r]" for r
    by (simp add: encode_result_def int32_bytes_drop)
  have "handle_method_call os m sk s rt w = (if v \<in> {- (2 ^ 31) ..< 2 ^ 31} then
      rbind (sk_respond os m (encode_result (word_of_int v)) sk rt w) (\<lambda>(rt, w). Inr (s, rt, w))
      else Inl Signed_overflow)"
    using h by (simp add: handle_method_call_def int32_of_def)
  moreover have "sint (word_of_int v :: u32) = v" if "v \<in> {- (2 ^ 31) ..< 2 ^ 31}"
    using that sint_int32_of [of v "word_of_int v"] by (simp add: int32_of_def)
  moreover have "encode_request a b =
      [ucast (drop_bit 24 a), ucast (drop_bit 16 a), ucast (drop_bit 8 a), ucast a,
       ucast (drop_bit 24 b), ucast (drop_bit 16 b), ucast (drop_bit 8 b), ucast b]"
    by (simp add: encode_request_def int32_bytes_drop)
  ultimately show ?thesis
    using calculator_refuses [OF f(1) _ _ assms(3), of os now s rt w] decode_response_result
    unfolding bytes by (auto intro!: exI [of _ "word_of_int v"])
qed

theorem calculator_answers_witness:
  "\<exists>sk ap. calculator_init (CalculatorService True) (Application ''s'') = (sk, ap) \<and>
    handle_method_call queue_os
      (set_payload (encode_request (- (2 ^ 31)) (- 1)) (create_request 0x1234 1 METHOD_DIVIDE 9 False))
      sk () client_runtime [] = Inl Signed_overflow"
proof -
  let ?m = "set_payload (encode_request (- (2 ^ 31)) (- 1)) (create_request 0x1234 1 METHOD_DIVIDE 9 False)"
  have p: "payload_bytes ?m = encode_request (- (2 ^ 31)) (- 1)"
    by (simp add: set_payload_def payload_bytes_def payload_of_def)
  have m: "(m_method_id ?m, 2 ^ 31) \<in> {(METHOD_ADD, sint (- (2 ^ 31) :: u32) + sint (- 1 :: u32)),
      (METHOD_SUBTRACT, sint (- (2 ^ 31) :: u32) - sint (- 1 :: u32)),
      (METHOD_MULTIPLY, sint (- (2 ^ 31) :: u32) * sint (- 1 :: u32)),
      (METHOD_DIVIDE, if (- 1 :: u32) = 0 then 0 else sint (- (2 ^ 31) :: u32) sdiv sint (- 1 :: u32))}"
    by (simp add: set_payload_def create_request_def)
  obtain sk ap where i: "calculator_init (CalculatorService True) (Application ''s'') = (sk, ap)"
    by fastforce
  show ?thesis
    using conjunct1 [OF conjunct2 [OF calculator_answers [OF m p i, of queue_os "()" client_runtime "[]" 0]]] i
    by (intro exI [of _ sk] exI [of _ ap]) simp
qed

end
