(* ===== verification/ExampleField.thy ===== *)
theory ExampleField
  imports ExampleMethod
begin

text \<open>
  \<open>examples/example_field.cpp\<close>: a configuration service with three fields, and its client. The
  members of the service are the state its getters and setters read and write.
\<close>

section \<open>The service\<close>

definition CONFIG_SERVICE :: u16 where "CONFIG_SERVICE = 0x3456"
definition CONFIG_INSTANCE :: u16 where "CONFIG_INSTANCE = 0x0001"
definition FIELD_BRIGHTNESS :: u16 where "FIELD_BRIGHTNESS = 0x8001"
definition FIELD_VOLUME :: u16 where "FIELD_VOLUME = 0x8002"
definition FIELD_POWER_STATE :: u16 where "FIELD_POWER_STATE = 0x8003"
definition EVENTGROUP_CONFIG :: u16 where "EVENTGROUP_CONFIG = 0x0001"

record config_state =
  cs_brightness :: u32
  cs_volume :: u32
  cs_power_state :: bool

definition config_state_new :: config_state where
  "config_state_new = \<lparr>cs_brightness = 50, cs_volume = 30, cs_power_state = True\<rparr>"

definition encode_int32 :: "u32 \<Rightarrow> bytes" where
  "encode_int32 value = int32_bytes value"

definition decode_int32 :: "bytes \<Rightarrow> u32" where
  "decode_int32 data = (if length data < 4 then 0 else int32_at data 0)"

definition get_brightness :: "config_state \<Rightarrow> fault + bytes \<times> config_state" where
  "get_brightness s = Inr (encode_int32 (cs_brightness s), s)"

definition set_brightness :: "bytes \<Rightarrow> config_state \<Rightarrow> fault + bool \<times> config_state" where
  "set_brightness data s = (let v = sint (decode_int32 data) in
     if v < 0 \<or> v > 100 then Inr (False, s)
     else Inr (True, s\<lparr>cs_brightness := decode_int32 data\<rparr>))"

definition get_volume :: "config_state \<Rightarrow> fault + bytes \<times> config_state" where
  "get_volume s = Inr (encode_int32 (cs_volume s), s)"

definition set_volume :: "bytes \<Rightarrow> config_state \<Rightarrow> fault + bool \<times> config_state" where
  "set_volume data s = (let v = sint (decode_int32 data) in
     if v < 0 \<or> v > 100 then Inr (False, s)
     else Inr (True, s\<lparr>cs_volume := decode_int32 data\<rparr>))"

definition get_power_state :: "config_state \<Rightarrow> fault + bytes \<times> config_state" where
  "get_power_state s = Inr (encode_int32 (if cs_power_state s then 1 else 0), s)"

definition set_power_state :: "bytes \<Rightarrow> config_state \<Rightarrow> fault + bool \<times> config_state" where
  "set_power_state data s = Inr (True, s\<lparr>cs_power_state := (decode_int32 data \<noteq> 0)\<rparr>)"

definition ConfigService :: "bool \<Rightarrow> config_state skeleton" where
  "ConfigService app = ServiceSkeleton app CONFIG_SERVICE CONFIG_INSTANCE"

definition config_init ::
    "config_state skeleton \<Rightarrow> application \<Rightarrow> config_state skeleton \<times> application" where
  "config_init sk ap =
     (let sk = register_field FIELD_BRIGHTNESS EVENTGROUP_CONFIG get_brightness set_brightness False sk;
          sk = register_field FIELD_VOLUME EVENTGROUP_CONFIG get_volume set_volume False sk;
          sk = register_field FIELD_POWER_STATE EVENTGROUP_CONFIG get_power_state set_power_state False sk
      in (sk, sk_init sk ap))"

definition config_run_server ::
    "'w os \<Rightarrow> (string \<Rightarrow> (bytes option \<times> nat \<times> int) option) \<Rightarrow> bool \<Rightarrow> bool \<Rightarrow> time_point \<Rightarrow> u8 \<Rightarrow> u16 \<Rightarrow>
     u32 list \<Rightarrow> 'w \<Rightarrow> fault + (application \<times> runtime \<times> 'w) option" where
  "config_run_server os attach le locked now junk client_id order w =
     rbind (server_up os attach le locked now junk client_id
         (example_config ''config_server'' 30509 30490) ''ConfigService'' config_init
         (ConfigService True) w)
       (\<lambda>up. case up of None \<Rightarrow> Inr None
        | Some (sk, ap, rt, w) \<Rightarrow> rbind (server_down os order le locked sk ap rt w) (\<lambda>r. Inr (Some r)))"

section \<open>The client\<close>

definition ConfigClient :: "bool \<Rightarrow> proxy" where
  "ConfigClient app = ServiceProxy app CONFIG_SERVICE CONFIG_INSTANCE"

text \<open>The tokens of the three lambdas; each prints the value it is told.\<close>

definition ON_BRIGHTNESS :: handler where "ON_BRIGHTNESS = 9"
definition ON_VOLUME :: handler where "ON_VOLUME = 10"
definition ON_POWER_STATE :: handler where "ON_POWER_STATE = 11"

definition config_notified :: "message \<Rightarrow> u32 option" where
  "config_notified m = map_option (\<lambda>p. decode_int32 (p_data p)) (m_payload m)"

definition config_client_init ::
    "bool \<Rightarrow> bool \<Rightarrow> time_point \<Rightarrow> proxy \<Rightarrow> application \<Rightarrow> runtime \<Rightarrow>
     fault + proxy \<times> application \<times> runtime \<times> app_action list" where
  "config_client_init le locked now px ap rt =
     (let (ap, rt) = px_init px ap rt in
      rbind (px_subscribe_event le locked now FIELD_BRIGHTNESS EVENTGROUP_CONFIG (Some ON_BRIGHTNESS)
          px ap rt) (\<lambda>(ok, px, ap, rt, a1).
      rbind (px_subscribe_event le locked now FIELD_VOLUME EVENTGROUP_CONFIG (Some ON_VOLUME)
          px ap rt) (\<lambda>(ok, px, ap, rt, a2).
      rbind (px_subscribe_event le locked now FIELD_POWER_STATE EVENTGROUP_CONFIG (Some ON_POWER_STATE)
          px ap rt) (\<lambda>(ok, px, ap, rt, a3). Inr (px, ap, rt, a1 @ a2 @ a3)))))"

text \<open>The accesses up to the wait, and the two ways to go on after it.\<close>

definition client_get_brightness ::
    "'w os \<Rightarrow> time_point \<Rightarrow> proxy \<Rightarrow> application \<Rightarrow> runtime \<Rightarrow> 'w \<Rightarrow>
     fault + nat option \<times> application \<times> runtime \<times> 'w" where
  "client_get_brightness os now px ap rt w = px_get_field_send os now FIELD_BRIGHTNESS 5000 px ap rt w"

definition client_set_brightness ::
    "'w os \<Rightarrow> time_point \<Rightarrow> u32 \<Rightarrow> proxy \<Rightarrow> application \<Rightarrow> runtime \<Rightarrow> 'w \<Rightarrow>
     fault + nat option \<times> application \<times> runtime \<times> 'w" where
  "client_set_brightness os now value px ap rt w =
     px_set_field_send os now FIELD_BRIGHTNESS (encode_int32 value) px ap rt w"

definition client_get_volume ::
    "'w os \<Rightarrow> time_point \<Rightarrow> proxy \<Rightarrow> application \<Rightarrow> runtime \<Rightarrow> 'w \<Rightarrow>
     fault + nat option \<times> application \<times> runtime \<times> 'w" where
  "client_get_volume os now px ap rt w = px_get_field_send os now FIELD_VOLUME 5000 px ap rt w"

definition client_set_volume ::
    "'w os \<Rightarrow> time_point \<Rightarrow> u32 \<Rightarrow> proxy \<Rightarrow> application \<Rightarrow> runtime \<Rightarrow> 'w \<Rightarrow>
     fault + nat option \<times> application \<times> runtime \<times> 'w" where
  "client_set_volume os now value px ap rt w =
     px_set_field_send os now FIELD_VOLUME (encode_int32 value) px ap rt w"

definition client_get_power_state ::
    "'w os \<Rightarrow> time_point \<Rightarrow> proxy \<Rightarrow> application \<Rightarrow> runtime \<Rightarrow> 'w \<Rightarrow>
     fault + nat option \<times> application \<times> runtime \<times> 'w" where
  "client_get_power_state os now px ap rt w = px_get_field_send os now FIELD_POWER_STATE 5000 px ap rt w"

definition client_set_power_state ::
    "'w os \<Rightarrow> time_point \<Rightarrow> bool \<Rightarrow> proxy \<Rightarrow> application \<Rightarrow> runtime \<Rightarrow> 'w \<Rightarrow>
     fault + nat option \<times> application \<times> runtime \<times> 'w" where
  "client_set_power_state os now on px ap rt w =
     px_set_field_send os now FIELD_POWER_STATE (encode_int32 (if on then 1 else 0)) px ap rt w"

definition client_field_value :: "nat option \<Rightarrow> application \<Rightarrow> fault + u32 option" where
  "client_field_value future ap =
     rbind (px_call_wait future ap) (\<lambda>result. Inr (map_option decode_int32 result))"

definition client_power_value :: "nat option \<Rightarrow> application \<Rightarrow> fault + bool option" where
  "client_power_value future ap =
     rbind (client_field_value future ap) (\<lambda>value. Inr (map_option (\<lambda>v. v \<noteq> 0) value))"

definition config_run_client ::
    "'w os \<Rightarrow> (string \<Rightarrow> (bytes option \<times> nat \<times> int) option) \<Rightarrow> bool \<Rightarrow> bool \<Rightarrow> time_point \<Rightarrow> u16 \<Rightarrow> 'w \<Rightarrow>
     ((fault + proxy \<times> application \<times> runtime \<times> app_action list) \<times> 'w) option" where
  "config_run_client os attach le locked now client_id w =
     client_up os attach client_id (example_config ''config_client'' 30510 0) ''ConfigClient''
       (config_client_init le locked now) (ConfigClient True) w"

section \<open>Properties\<close>

lemmas field_ids = FIELD_BRIGHTNESS_def FIELD_VOLUME_def FIELD_POWER_STATE_def

lemma decode_encode_int32 [simp]: "decode_int32 (encode_int32 v) = v"
  by (simp add: decode_int32_def encode_int32_def)

lemma config_tables:
  assumes "sk = fst (config_init (ConfigService app) ap)"
  shows "om_get (sk_field_getters sk) = [FIELD_BRIGHTNESS \<mapsto> get_brightness,
      FIELD_VOLUME \<mapsto> get_volume, FIELD_POWER_STATE \<mapsto> get_power_state]"
    and "om_get (sk_field_setters sk) = [FIELD_BRIGHTNESS \<mapsto> set_brightness,
      FIELD_VOLUME \<mapsto> set_volume, FIELD_POWER_STATE \<mapsto> set_power_state]"
    and "om_get (sk_method_handlers sk) = Map.empty"
  by (simp_all add: assms config_init_def ConfigService_def register_field_def register_field_getter_def
      register_field_setter_def ServiceSkeleton_def Let_def om_get_put om_ok_put fun_eq_iff)

text \<open>Four big-endian bytes, written out, and what a setter makes of its payload.\<close>

lemma encode_int32_bytes:
  "encode_int32 v = [ucast (drop_bit 24 v), ucast (drop_bit 16 v), ucast (drop_bit 8 v), ucast v]"
  by (simp add: encode_int32_def int32_bytes_drop)

lemma decode_int32_payload:
  assumes "if length data < 4 then v = 0 else take 4 data = encode_int32 v"
  shows "decode_int32 data = v"
proof (cases "length data < 4")
  case False
  then have "data = int32_bytes v @ drop 4 data"
    using assms append_take_drop_id [of 4 data] by (simp add: encode_int32_def)
  then have "int32_at data 0 = v" by (metis int32_at_bytes(1))
  then show ?thesis using False by (simp add: decode_int32_def)
qed (use assms in \<open>simp add: decode_int32_def\<close>)

text \<open>The same over the codec; the getters of the other fields see no change.\<close>

lemma config_field_access:
  assumes "sk = fst (config_init (ConfigService app) ap)"
    and "om_get (sk_field_setters sk) field = Some setter" and "om_get (sk_field_getters sk) field = Some getter"
    and "sint (cs_brightness s) \<in> {0..100}" and "sint (cs_volume s) \<in> {0..100}" and "decode_int32 data = v"
  shows "\<exists>ok s' u. setter data s = Inr (ok, s') \<and> getter s' = Inr (encode_int32 u, s') \<and>
    sint (cs_brightness s') \<in> {0..100} \<and> sint (cs_volume s') \<in> {0..100} \<and> (\<not> ok \<longrightarrow> s' = s) \<and>
    (if field = FIELD_POWER_STATE then ok \<and> u = (if v = 0 then 0 else 1)
     else (ok \<longleftrightarrow> sint v \<in> {0..100}) \<and> (ok \<longrightarrow> u = v)) \<and>
    (\<forall>other g. other \<noteq> field \<and> om_get (sk_field_getters sk) other = Some g \<longrightarrow>
       (\<exists>cs. g s = Inr (cs, s) \<and> g s' = Inr (cs, s')))" (is "\<exists>ok s' u. ?access ok s' u")
proof -
  have others: "g = get_brightness \<and> other = FIELD_BRIGHTNESS \<or> g = get_volume \<and> other = FIELD_VOLUME \<or>
      g = get_power_state \<and> other = FIELD_POWER_STATE"
    if "om_get (sk_field_getters sk) other = Some g" for other g
    using that config_tables(1) [OF assms(1)] by (auto split: if_splits)
  note getters = get_brightness_def get_volume_def get_power_state_def
  let ?in = "sint v \<in> {0..100}"
  consider "field = FIELD_BRIGHTNESS" "setter = set_brightness" "getter = get_brightness"
    | "field = FIELD_VOLUME" "setter = set_volume" "getter = get_volume"
    | "field = FIELD_POWER_STATE" "setter = set_power_state" "getter = get_power_state"
    using assms(2,3) config_tables(1,2) [OF assms(1)] by (auto simp: field_ids split: if_splits)
  then show ?thesis
  proof cases
    case 1
    then have "?access ?in (if ?in then s\<lparr>cs_brightness := v\<rparr> else s) (if ?in then v else cs_brightness s)"
      using assms(4-6) by (auto simp: set_brightness_def getters field_ids Let_def dest!: others)
    then show ?thesis by blast
  next
    case 2
    then have "?access ?in (if ?in then s\<lparr>cs_volume := v\<rparr> else s) (if ?in then v else cs_volume s)"
      using assms(4-6) by (auto simp: set_volume_def getters field_ids Let_def dest!: others)
    then show ?thesis by blast
  next
    case 3
    then have "?access True (s\<lparr>cs_power_state := (v \<noteq> 0)\<rparr>) (if v = 0 then 0 else 1)"
      using assms(4-6) by (auto simp: set_power_state_def getters dest!: others)
    then show ?thesis by blast
  qed
qed

text \<open> C18: What the fields promise. The value of a payload is the integer in its first four bytes, the
  most significant first, or zero if there are fewer. Each setter either refuses, and changes
  nothing, or stores the value, and then the getter of the field gives it back as those four
  bytes (for the power state, 1 or 0, as the value was zero or not), which the client decodes to it; the
  other fields keep theirs. Brightness and volume stay between 0 and 100, and those and only
  those values are accepted. \<close>
theorem config_fields_keep_range:
  assumes "sk = fst (config_init (ConfigService app) ap)"
    and "om_get (sk_field_setters sk) field = Some setter" and "om_get (sk_field_getters sk) field = Some getter"
    and "sint (cs_brightness s) \<in> {0..100}" and "sint (cs_volume s) \<in> {0..100}"
    and "if length data < 4 then v = 0
      else take 4 data = [ucast (drop_bit 24 v), ucast (drop_bit 16 v), ucast (drop_bit 8 v), ucast v]"
  shows "\<exists>ok s' bs u. setter data s = Inr (ok, s') \<and> getter s' = Inr (bs, s') \<and>
    bs = [ucast (drop_bit 24 u), ucast (drop_bit 16 u), ucast (drop_bit 8 u), ucast u] \<and> decode_int32 bs = u \<and>
    sint (cs_brightness s') \<in> {0..100} \<and> sint (cs_volume s') \<in> {0..100} \<and>
    (\<not> ok \<longrightarrow> s' = s) \<and>
    (if field = FIELD_POWER_STATE then ok \<and> u = (if v = 0 then 0 else 1)
     else (ok \<longleftrightarrow> sint v \<in> {0..100}) \<and> (ok \<longrightarrow> u = v)) \<and>
    (\<forall>other g. other \<noteq> field \<and> om_get (sk_field_getters sk) other = Some g \<longrightarrow>
       (\<exists>cs. g s = Inr (cs, s) \<and> g s' = Inr (cs, s')))"
proof -
  have v: "decode_int32 data = v"
    using decode_int32_payload [of data v] assms(6) by (simp add: encode_int32_bytes)
  show ?thesis
    using config_field_access [OF assms(1-5) v] decode_encode_int32 unfolding encode_int32_bytes by blast
qed

theorem config_fields_keep_range_witness:
  "\<exists>ok s'. set_brightness [0, 0, 0, 150] config_state_new = Inr (ok, s') \<and> \<not> ok \<and>
    s' = config_state_new"
proof -
  let ?sk = "fst (config_init (ConfigService True) client)"
  have t: "om_get (sk_field_setters ?sk) FIELD_BRIGHTNESS = Some set_brightness"
    "om_get (sk_field_getters ?sk) FIELD_BRIGHTNESS = Some get_brightness"
    by (simp_all add: config_tables [OF refl] field_ids)
  have r: "sint (cs_brightness config_state_new) \<in> {0..100}" "sint (cs_volume config_state_new) \<in> {0..100}"
    by (simp_all add: config_state_new_def)
  have v: "if length [0, 0, 0, 150 :: u8] < 4 then (150 :: u32) = 0
      else take 4 [0, 0, 0, 150] = [ucast (drop_bit 24 (150 :: u32)), ucast (drop_bit 16 (150 :: u32)),
        ucast (drop_bit 8 (150 :: u32)), ucast (150 :: u32)]"
    by simp
  from config_fields_keep_range [OF refl t r v] show ?thesis
    by (auto simp: field_ids)
qed

text \<open>The field of a message is looked up by its low byte, which is the id of no field here.\<close>

lemma low_byte_no_field:
  fixes k :: u16
  shows "k AND 0x00FF \<notin> {FIELD_BRIGHTNESS, FIELD_VOLUME, FIELD_POWER_STATE}"
proof -
  have "(k AND 0x00FF) AND 0x8000 = 0" by (simp add: and.assoc)
  moreover have "FIELD_BRIGHTNESS AND 0x8000 \<noteq> 0" "FIELD_VOLUME AND 0x8000 \<noteq> 0"
    "FIELD_POWER_STATE AND 0x8000 \<noteq> 0" by (simp_all add: field_ids)
  ultimately show ?thesis by (metis empty_iff insertE)
qed

text \<open> The configuration is out of reach. Whatever message its skeleton gets, and however the
  runtime and the network are, the service is left as it is: the message is passed over or
  answered with E_UNKNOWN_METHOD, and no getter or setter runs. \<close>
theorem config_out_of_reach:
  "sk_on_message_received os message (fst (config_init (ConfigService app) ap0)) s ap rt w = Inr (s, rt, w) \<or>
   (\<exists>m. message = Some m \<and>
     sk_on_message_received os message (fst (config_init (ConfigService app) ap0)) s ap rt w =
       rbind (sk_respond_error os m E_UNKNOWN_METHOD (fst (config_init (ConfigService app) ap0)) rt w)
         (\<lambda>(rt, w). Inr (s, rt, w)))"
proof -
  let ?sk = "fst (config_init (ConfigService app) ap0)"
  have none: "om_get (sk_method_handlers ?sk) k = None" "om_get (sk_field_getters ?sk) (k AND 0x00FF) = None"
    "om_get (sk_field_setters ?sk) (k AND 0x00FF) = None" for k
    using low_byte_no_field [of k] by (simp_all add: config_tables [OF refl])
  show ?thesis
  proof (cases message)
    case None
    then show ?thesis by (simp add: sk_on_message_received_def)
  next
    case (Some m)
    then show ?thesis
      using none [of "m_method_id m"]
      by (simp add: sk_on_message_received_def handle_method_call_def handle_field_get_def
          handle_field_set_def Let_def)
  qed
qed

end
