(* ===== verification/ExampleEvent.thy ===== *)
theory ExampleEvent
  imports ExampleMethod
begin

text \<open>
  \<open>examples/example_event.cpp\<close>: a sensor that publishes temperature and humidity, and its client.
  Floating point is not modelled: a reading has some type \<open>'f\<close>, \<open>fixed\<close> stands for
  \<open>static_cast<int32_t>(x * 100)\<close> and \<open>shown\<close> for \<open>value / 100.0f\<close>. The random readings are a list,
  as long as the publishing thread runs.
\<close>

section \<open>Encoding\<close>

definition TEMPERATURE_SERVICE :: u16 where "TEMPERATURE_SERVICE = 0x2345"
definition TEMPERATURE_INSTANCE :: u16 where "TEMPERATURE_INSTANCE = 0x0001"
definition EVENT_TEMPERATURE_UPDATE :: u16 where "EVENT_TEMPERATURE_UPDATE = 0x8001"
definition EVENT_HUMIDITY_UPDATE :: u16 where "EVENT_HUMIDITY_UPDATE = 0x8002"
definition EVENTGROUP_SENSOR :: u16 where "EVENTGROUP_SENSOR = 0x0001"

definition encode_temperature :: "('f \<Rightarrow> u32) \<Rightarrow> 'f \<Rightarrow> bytes" where
  "encode_temperature fixed temp = int32_bytes (fixed temp)"

definition encode_humidity :: "('f \<Rightarrow> u32) \<Rightarrow> 'f \<Rightarrow> bytes" where
  "encode_humidity fixed humidity = int32_bytes (fixed humidity)"

definition decode_sensor_value :: "(u32 \<Rightarrow> 'f) \<Rightarrow> 'f \<Rightarrow> bytes \<Rightarrow> 'f" where
  "decode_sensor_value shown zero data =
     (if length data < 4 then zero else shown (int32_at data 0))"

section \<open>The sensor\<close>

definition TemperatureSensor :: "bool \<Rightarrow> unit skeleton" where
  "TemperatureSensor app = ServiceSkeleton app TEMPERATURE_SERVICE TEMPERATURE_INSTANCE"

definition sensor_init :: "bool \<Rightarrow> unit skeleton \<Rightarrow> application \<Rightarrow> unit skeleton \<times> application" where
  "sensor_init junk sk ap =
     (let sk = register_event junk EVENT_TEMPERATURE_UPDATE EVENTGROUP_SENSOR False sk;
          sk = register_event junk EVENT_HUMIDITY_UPDATE EVENTGROUP_SENSOR False sk
      in (sk, sk_init sk ap))"

fun publish ::
    "'w os \<Rightarrow> ('f \<Rightarrow> u32) \<Rightarrow> ('f \<times> 'f) list \<Rightarrow> unit skeleton \<Rightarrow> application \<Rightarrow> runtime \<Rightarrow> 'w \<Rightarrow>
     fault + runtime \<times> 'w" where
  "publish os fixed [] sk ap rt w = Inr (rt, w)"
| "publish os fixed ((temp, humidity) # readings) sk ap rt w =
     rbind (sk_notify_event os EVENT_TEMPERATURE_UPDATE (encode_temperature fixed temp) sk ap rt w)
       (\<lambda>(rt, w).
     rbind (sk_notify_event os EVENT_HUMIDITY_UPDATE (encode_humidity fixed humidity) sk ap rt w)
       (\<lambda>(rt, w). publish os fixed readings sk ap rt w))"

definition run_sensor ::
    "'w os \<Rightarrow> (string \<Rightarrow> (bytes option \<times> nat \<times> int) option) \<Rightarrow> bool \<Rightarrow> bool \<Rightarrow> time_point \<Rightarrow> u8 \<Rightarrow> bool \<Rightarrow>
     u16 \<Rightarrow> u32 list \<Rightarrow> ('f \<Rightarrow> u32) \<Rightarrow> ('f \<times> 'f) list \<Rightarrow> 'w \<Rightarrow> fault + (application \<times> runtime \<times> 'w) option" where
  "run_sensor os attach le locked now junk field_junk client_id order fixed readings w =
     rbind (server_up os attach le locked now junk client_id
         (example_config ''sensor_server'' 30509 30490) ''TemperatureSensor'' (sensor_init field_junk)
         (TemperatureSensor True) w)
       (\<lambda>up. case up of None \<Rightarrow> Inr None
        | Some (sk, ap, rt, w) \<Rightarrow>
            rbind (publish os fixed readings sk ap rt w) (\<lambda>(rt, w).
            rbind (server_down os order le locked sk ap rt w) (\<lambda>r. Inr (Some r))))"

section \<open>The client\<close>

definition SensorClient :: "bool \<Rightarrow> proxy" where
  "SensorClient app = ServiceProxy app TEMPERATURE_SERVICE TEMPERATURE_INSTANCE"

text \<open>The tokens of its two lambdas, and the value they print.\<close>

definition ON_TEMPERATURE :: handler where "ON_TEMPERATURE = 12"
definition ON_HUMIDITY :: handler where "ON_HUMIDITY = 13"

definition sensor_shown :: "(u32 \<Rightarrow> 'f) \<Rightarrow> 'f \<Rightarrow> message \<Rightarrow> 'f option" where
  "sensor_shown shown zero m = map_option (\<lambda>p. decode_sensor_value shown zero (p_data p)) (m_payload m)"

definition sensor_client_init ::
    "bool \<Rightarrow> bool \<Rightarrow> time_point \<Rightarrow> proxy \<Rightarrow> application \<Rightarrow> runtime \<Rightarrow>
     fault + proxy \<times> application \<times> runtime \<times> app_action list" where
  "sensor_client_init le locked now px ap rt =
     (let (ap, rt) = px_init px ap rt in
      rbind (px_subscribe_event le locked now EVENT_TEMPERATURE_UPDATE EVENTGROUP_SENSOR
          (Some ON_TEMPERATURE) px ap rt) (\<lambda>(ok, px, ap, rt, a1).
      rbind (px_subscribe_event le locked now EVENT_HUMIDITY_UPDATE EVENTGROUP_SENSOR
          (Some ON_HUMIDITY) px ap rt) (\<lambda>(ok, px, ap, rt, a2). Inr (px, ap, rt, a1 @ a2))))"

definition sensor_run_client ::
    "'w os \<Rightarrow> (string \<Rightarrow> (bytes option \<times> nat \<times> int) option) \<Rightarrow> bool \<Rightarrow> bool \<Rightarrow> time_point \<Rightarrow> u16 \<Rightarrow> 'w \<Rightarrow>
     ((fault + proxy \<times> application \<times> runtime \<times> app_action list) \<times> 'w) option" where
  "sensor_run_client os attach le locked now client_id w =
     client_up os attach client_id (example_config ''sensor_client'' 30510 0) ''SensorClient''
       (sensor_client_init le locked now) (SensorClient True) w"

section \<open>Properties\<close>

lemmas event_ids = EVENT_TEMPERATURE_UPDATE_def EVENT_HUMIDITY_UPDATE_def

lemma decode_sensor_value_encoded [simp]:
  "decode_sensor_value shown zero (encode_temperature fixed t) = shown (fixed t)"
  "decode_sensor_value shown zero (encode_humidity fixed t) = shown (fixed t)"
  by (simp_all add: decode_sensor_value_def encode_temperature_def encode_humidity_def)

text \<open>What a subscription of a proxy leaves behind.\<close>

lemma px_subscribe_effect:
  assumes "px_subscribe_event le locked now event eventgroup h px ap rt = Inr (ok, px', ap', rt', actions)"
    and "px_app px"
  shows "px_event_handlers px' = om_put event (eventgroup, h) (px_event_handlers px)"
    and "ap_event_handlers ap' = hm_put event (Some ON_EVENT_RECEIVED) (ap_event_handlers ap)"
    and "px_app px'"
  using assms
  by (auto simp: px_subscribe_event_def app_subscribe_event_def app_set_event_handler_def Let_def
      with_sd_def rbind_Inr_iff split: if_splits option.splits prod.splits)

lemma sensor_client_handlers:
  assumes "sensor_client_init le locked now (SensorClient True) ap rt = Inr (px, ap', rt', actions)"
  shows "om_get (px_event_handlers px) = [EVENT_TEMPERATURE_UPDATE \<mapsto> (EVENTGROUP_SENSOR, Some ON_TEMPERATURE),
      EVENT_HUMIDITY_UPDATE \<mapsto> (EVENTGROUP_SENSOR, Some ON_HUMIDITY)]"
    and "ap_event_handlers ap' EVENT_TEMPERATURE_UPDATE = Some (Some ON_EVENT_RECEIVED)"
    and "ap_event_handlers ap' EVENT_HUMIDITY_UPDATE = Some (Some ON_EVENT_RECEIVED)"
proof -
  obtain ap0 rt0 ok1 px1 ap1 rt1 a1 ok2 a2 where
    one: "px_subscribe_event le locked now EVENT_TEMPERATURE_UPDATE EVENTGROUP_SENSOR
        (Some ON_TEMPERATURE) (SensorClient True) ap0 rt0 = Inr (ok1, px1, ap1, rt1, a1)" and
    two: "px_subscribe_event le locked now EVENT_HUMIDITY_UPDATE EVENTGROUP_SENSOR
        (Some ON_HUMIDITY) px1 ap1 rt1 = Inr (ok2, px, ap', rt', a2)"
    using assms by (auto simp: sensor_client_init_def rbind_Inr_iff split: prod.splits)
  have new: "px_app (SensorClient True)" "px_event_handlers (SensorClient True) = om_empty"
    by (simp_all add: SensorClient_def ServiceProxy_def)
  note e1 = px_subscribe_effect [OF one new(1)]
  note e2 = px_subscribe_effect [OF two e1(3)]
  show "om_get (px_event_handlers px) = [EVENT_TEMPERATURE_UPDATE \<mapsto> (EVENTGROUP_SENSOR, Some ON_TEMPERATURE),
      EVENT_HUMIDITY_UPDATE \<mapsto> (EVENTGROUP_SENSOR, Some ON_HUMIDITY)]"
    by (simp add: e1 e2 new om_get_put om_ok_put fun_eq_iff)
  show "ap_event_handlers ap' EVENT_TEMPERATURE_UPDATE = Some (Some ON_EVENT_RECEIVED)"
    "ap_event_handlers ap' EVENT_HUMIDITY_UPDATE = Some (Some ON_EVENT_RECEIVED)"
    by (simp_all add: e1 e2 hm_put_def event_ids)
qed

text \<open> The client shows what the sensor encodes. After its \<open>init\<close>, a notification of the sensor's
  temperature that reaches the client's application is dispatched to the proxy, the proxy gives it
  to the lambda for temperatures, and the lambda prints the reading up to the fixed-point
  conversion; and the same for humidity. \<close>
theorem sensor_reading_shown:
  assumes "sensor_client_init le locked now (SensorClient True) ap rt = Inr (px, ap', rt', actions)"
    and "(event, lambda, data) \<in> {(EVENT_TEMPERATURE_UPDATE, ON_TEMPERATURE, encode_temperature fixed x),
      (EVENT_HUMIDITY_UPDATE, ON_HUMIDITY, encode_humidity fixed x)}"
    and "m = set_payload data (create_notification TEMPERATURE_SERVICE TEMPERATURE_INSTANCE event)"
  shows "dispatch_message os m ap' rt' w = Inr (ap', rt', w, [Ap_handler ON_EVENT_RECEIVED m]) \<and>
    px_on_event_received (Some m) px = [Ap_handler lambda m] \<and>
    sensor_shown shown zero m = Some (shown (fixed x))"
proof -
  have id: "event \<in> {EVENT_TEMPERATURE_UPDATE, EVENT_HUMIDITY_UPDATE}" using assms(2) by auto
  then have "event OR 0x8000 = event" by (auto simp: event_ids)
  then have m: "m_method_id m = event" "m_payload m = Some (payload_of data)" "m_message_type m = NOTIFICATION"
    using assms(3) by (simp_all add: set_payload_def create_notification_def)
  have "is_event m" using m(1) id by (auto simp: is_event_def event_ids)
  moreover have "\<not> is_response_type m" using m(3) by (simp add: is_response_type_def)
  moreover have "ap_event_handlers ap' event = Some (Some ON_EVENT_RECEIVED)"
    using sensor_client_handlers(2,3) [OF assms(1)] id by auto
  moreover have "px_on_event_received (Some m) px = [Ap_handler lambda m]"
    using sensor_client_handlers(1) [OF assms(1)] assms(2) m(1)
    by (auto simp: px_on_event_received_def event_ids)
  moreover have "sensor_shown shown zero m = Some (shown (fixed x))"
    using assms(2) m(2) by (auto simp: sensor_shown_def payload_of_def)
  ultimately show ?thesis by (simp add: dispatch_message_def m(1))
qed

theorem sensor_reading_shown_witness:
  "\<exists>px ap' rt' actions m. sensor_client_init True True 0 (SensorClient True) client client_runtime =
      Inr (px, ap', rt', actions) \<and>
    px_on_event_received (Some m) px = [Ap_handler ON_TEMPERATURE m] \<and>
    sensor_shown (\<lambda>v. sint v) 0 m = Some 2150"
proof -
  have shm: "rt_shm_agent client_runtime = None"
    by (simp add: client_runtime_def demo_runtime_def Runtime_def)
  obtain px ap' rt' actions where
    i: "sensor_client_init True True 0 (SensorClient True) client client_runtime = Inr (px, ap', rt', actions)"
    using shm by (simp add: sensor_client_init_def px_init_def SensorClient_def ServiceProxy_def
        px_subscribe_event_def app_subscribe_event_def with_shm_def with_sd_def
        subscribe_eventgroup_def app_init_def register_service_handler_def Let_def)
  let ?m = "set_payload (encode_temperature (\<lambda>x. x) 2150)
      (create_notification TEMPERATURE_SERVICE TEMPERATURE_INSTANCE EVENT_TEMPERATURE_UPDATE)"
  have "(EVENT_TEMPERATURE_UPDATE, ON_TEMPERATURE, encode_temperature (\<lambda>x. x) 2150) \<in>
      {(EVENT_TEMPERATURE_UPDATE, ON_TEMPERATURE, encode_temperature (\<lambda>x. x) (2150 :: u32)),
       (EVENT_HUMIDITY_UPDATE, ON_HUMIDITY, encode_humidity (\<lambda>x. x) 2150)}" by simp
  from sensor_reading_shown [OF i this refl, where shown = "\<lambda>v. sint v" and zero = 0] i
  show ?thesis by fastforce
qed

end
