(* ===== verification/ExampleDiscovery.thy ===== *)
theory ExampleDiscovery
  imports ExampleMethod
begin

text \<open>
  \<open>examples/example_discovery.cpp\<close>: a provider that offers four services and withdraws them one by
  one, and a monitor that looks for three types of services and lists what has been discovered.
  A skeleton is made ready and offered in one go, so the pairs of skeleton and time carry the
  sequence of \<open>run_service_provider\<close>.
\<close>

definition SERVICE_TYPE_CAMERA :: u16 where "SERVICE_TYPE_CAMERA = 0x4001"
definition SERVICE_TYPE_GPS :: u16 where "SERVICE_TYPE_GPS = 0x4002"
definition SERVICE_TYPE_AUDIO :: u16 where "SERVICE_TYPE_AUDIO = 0x4003"
definition INSTANCE_1 :: u16 where "INSTANCE_1 = 0x0001"
definition INSTANCE_2 :: u16 where "INSTANCE_2 = 0x0002"

section \<open>The provider\<close>

definition SimpleService :: "bool \<Rightarrow> u16 \<Rightarrow> u16 \<Rightarrow> unit skeleton" where
  "SimpleService app service instance = ServiceSkeleton app service instance"

definition simple_init :: "unit skeleton \<Rightarrow> application \<Rightarrow> application" where
  "simple_init sk ap = sk_init sk ap"

definition provider_services :: "unit skeleton list" where
  "provider_services = [SimpleService True SERVICE_TYPE_CAMERA INSTANCE_1,
     SimpleService True SERVICE_TYPE_CAMERA INSTANCE_2, SimpleService True SERVICE_TYPE_GPS INSTANCE_1,
     SimpleService True SERVICE_TYPE_AUDIO INSTANCE_1]"

fun offer_services ::
    "bool \<Rightarrow> bool \<Rightarrow> u8 \<Rightarrow> (unit skeleton \<times> time_point) list \<Rightarrow> application \<Rightarrow> runtime \<Rightarrow>
     fault + application \<times> runtime \<times> app_action list" where
  "offer_services le locked junk [] ap rt = Inr (ap, rt, [])"
| "offer_services le locked junk ((sk, now) # services) ap rt =
     rbind (sk_offer le locked now junk sk (simple_init sk ap) rt) (\<lambda>(ap, rt, actions).
     rbind (offer_services le locked junk services ap rt) (\<lambda>(ap, rt, actions').
       Inr (ap, rt, actions @ actions')))"

fun stop_services ::
    "bool \<Rightarrow> bool \<Rightarrow> unit skeleton list \<Rightarrow> application \<Rightarrow> runtime \<Rightarrow>
     fault + application \<times> runtime \<times> app_action list" where
  "stop_services le locked [] ap rt = Inr (ap, rt, [])"
| "stop_services le locked (sk # services) ap rt =
     rbind (sk_stop_offer le locked sk ap rt) (\<lambda>(ap, rt, actions).
     rbind (stop_services le locked services ap rt) (\<lambda>(ap, rt, actions').
       Inr (ap, rt, actions @ actions')))"

definition run_service_provider ::
    "'w os \<Rightarrow> (string \<Rightarrow> (bytes option \<times> nat \<times> int) option) \<Rightarrow> bool \<Rightarrow> bool \<Rightarrow> time_point list \<Rightarrow> u8 \<Rightarrow> u16 \<Rightarrow>
     u32 list \<Rightarrow> 'w \<Rightarrow> fault + (application \<times> runtime \<times> 'w) option" where
  "run_service_provider os attach le locked nows junk client_id order w =
     (let (ok, rt, w) = rt_init os attach
            (Runtime (example_config ''service_provider'' 30509 30490) client_id) w in
      if \<not> ok then Inr None
      else
        rbind (offer_services le locked junk (zip provider_services nows)
            (create_application ''ServiceProvider'') (app_init (rt_start rt))) (\<lambda>(ap, rt, actions).
        rbind (stop_services le locked provider_services ap rt) (\<lambda>(ap, rt, actions').
          Inr (Some (ap, rt_stop os order rt w)))))"

section \<open>The monitor\<close>

text \<open>The token of its availability lambda, which prints the change.\<close>

definition ON_SERVICE_CHANGED :: handler where "ON_SERVICE_CHANGED = 14"

text \<open>\<open>find_service\<close> without an instance looks for any.\<close>

fun find_types ::
    "(u16 \<times> time_point) list \<Rightarrow> service_discovery \<Rightarrow> service_discovery \<times> sd_action list" where
  "find_types [] sd = (sd, [])"
| "find_types ((service, now) # types) sd =
     (let (sd, actions) = find_service now service 0xFFFF sd;
          (sd, actions') = find_types types sd
      in (sd, actions @ actions'))"

definition monitor_types :: "u16 list" where
  "monitor_types = [SERVICE_TYPE_CAMERA, SERVICE_TYPE_GPS, SERVICE_TYPE_AUDIO]"

definition monitor_init ::
    "time_point list \<Rightarrow> application \<Rightarrow> runtime \<Rightarrow> fault + application \<times> runtime \<times> app_action list" where
  "monitor_init nows ap rt =
     (let ap = app_set_availability_handler (Some ON_SERVICE_CHANGED) ap;
          rt = app_init rt
      in with_sd rt (\<lambda>sd.
           let (sd, actions) = find_types (zip monitor_types nows) sd
           in Inr (ap, rt\<lparr>rt_service_discovery := Some sd\<rparr>, map Ap_sd actions)))"

text \<open>What \<open>print_discovered_services\<close> prints of each service.\<close>

definition print_discovered_services ::
    "runtime \<Rightarrow> fault + (u16 \<times> u16 \<times> u8 \<times> u32 \<times> u32 \<times> endpoint list) list" where
  "print_discovered_services rt = with_sd rt (\<lambda>sd. Inr (map (\<lambda>info.
     (si_service_id info, si_instance_id info, si_major_version info, si_minor_version info,
      si_ttl info, si_endpoints info)) (get_discovered_services sd)))"

definition run_discovery_client ::
    "'w os \<Rightarrow> (string \<Rightarrow> (bytes option \<times> nat \<times> int) option) \<Rightarrow> time_point list \<Rightarrow> u16 \<Rightarrow> 'w \<Rightarrow>
     ((fault + application \<times> runtime \<times> app_action list) \<times> 'w) option" where
  "run_discovery_client os attach nows client_id w =
     (let (ok, rt, w) = rt_init os attach
            (Runtime (example_config ''discovery_client'' 30510 0) client_id) w in
      if \<not> ok then None
      else Some (monitor_init nows (create_application ''DiscoveryClient'') (rt_start rt), w))"

section \<open>Properties\<close>

lemma offered_locally:
  assumes "sk_offer le locked now junk sk ap rt = Inr (ap', rt', actions)"
    and "sk = SimpleService True service instance"
    and "rt_service_discovery rt = Some sd" and "om_ok (sd_local_services sd)"
  shows "\<exists>sd'. rt_service_discovery rt' = Some sd' \<and> om_ok (sd_local_services sd') \<and>
    (\<forall>s i. is_local_service s i sd' \<longleftrightarrow> (s, i) = (service, instance) \<or> is_local_service s i sd)"
proof -
  let ?sd = "fst (offer_service now (skeleton_config sk) sd)"
  have sk: "sk_app sk" "sk_events sk = []" "sk_fields sk = []"
    "sc_service_id (skeleton_config sk) = service" "sc_instance_id (skeleton_config sk) = instance"
    by (simp_all add: assms(2) SimpleService_def ServiceSkeleton_def om_empty_def skeleton_config_def)
  have "rt_service_discovery rt' = Some ?sd"
    using assms(1,3) sk(1-3)
    by (auto simp: sk_offer_def app_offer_service_def with_sd_def with_shm_def rbind_Inr_iff Let_def
        split: option.splits prod.splits)
  moreover have "om_ok (sd_local_services ?sd)"
    using assms(4) by (simp add: offer_service_def om_ok_put Let_def)
  moreover have "is_local_service s i ?sd \<longleftrightarrow> (s, i) = (service, instance) \<or> is_local_service s i sd" for s i
    using assms(4) sk(4,5)
    by (auto simp: offer_service_def is_local_service_def om_get_put offered_info_def Let_def)
  ultimately show ?thesis by blast
qed

lemma withdrawn_locally:
  assumes "sk_stop_offer le locked sk ap rt = Inr (ap', rt', actions)"
    and "sk = SimpleService True service instance"
    and "rt_service_discovery rt = Some sd"
  shows "\<exists>sd'. rt_service_discovery rt' = Some sd' \<and>
    (\<forall>s i. is_local_service s i sd' \<longleftrightarrow> (s, i) \<noteq> (service, instance) \<and> is_local_service s i sd)"
proof -
  let ?sd = "fst (stop_offer_service service instance sd)"
  have sk: "sk_app sk" "sk_events sk = []" "sk_fields sk = []"
    "sk_service_id sk = service" "sk_instance_id sk = instance"
    by (simp_all add: assms(2) SimpleService_def ServiceSkeleton_def om_empty_def)
  have "rt_service_discovery rt' = Some ?sd"
    using assms(1,3) sk
    by (auto simp: sk_stop_offer_def app_stop_offer_service_def with_sd_def with_shm_def rbind_Inr_iff
        Let_def split: option.splits prod.splits)
  moreover have "is_local_service s i ?sd \<longleftrightarrow> (s, i) \<noteq> (service, instance) \<and> is_local_service s i sd" for s i
    by (auto simp: stop_offer_service_def is_local_service_def om_get_del split: option.split)
  ultimately show ?thesis by blast
qed

text \<open>The services of a list of skeletons.\<close>

definition provided :: "unit skeleton list \<Rightarrow> (u16 \<times> u16) set" where
  "provided sks = (\<lambda>sk. (sk_service_id sk, sk_instance_id sk)) ` set sks"

definition simple :: "unit skeleton \<Rightarrow> bool" where
  "simple sk \<longleftrightarrow> sk = SimpleService True (sk_service_id sk) (sk_instance_id sk)"

lemma offer_services_effect:
  assumes "offer_services le locked junk services ap rt = Inr (ap', rt', actions)"
    and "\<forall>sk \<in> set (map fst services). simple sk"
    and "rt_service_discovery rt = Some sd" and "om_ok (sd_local_services sd)"
  shows "\<exists>sd'. rt_service_discovery rt' = Some sd' \<and>
    (\<forall>s i. is_local_service s i sd' \<longleftrightarrow> (s, i) \<in> provided (map fst services) \<or> is_local_service s i sd)"
  using assms
proof (induction services arbitrary: ap rt sd actions)
  case Nil
  then show ?case by (simp add: provided_def)
next
  case (Cons x services)
  obtain sk now where x: "x = (sk, now)" by (cases x)
  obtain ap1 rt1 a1 a2 where one: "sk_offer le locked now junk sk (simple_init sk ap) rt = Inr (ap1, rt1, a1)"
    and rest: "offer_services le locked junk services ap1 rt1 = Inr (ap', rt', a2)"
    using Cons.prems(1) by (auto simp: x rbind_Inr_iff)
  have sk: "sk = SimpleService True (sk_service_id sk) (sk_instance_id sk)"
    using Cons.prems(2) x by (simp add: simple_def)
  obtain sd1 where sd1: "rt_service_discovery rt1 = Some sd1" "om_ok (sd_local_services sd1)"
    "\<forall>s i. is_local_service s i sd1 \<longleftrightarrow> (s, i) = (sk_service_id sk, sk_instance_id sk) \<or> is_local_service s i sd"
    using offered_locally [OF one sk Cons.prems(3,4)] by blast
  obtain sd2 where "rt_service_discovery rt' = Some sd2"
    "\<forall>s i. is_local_service s i sd2 \<longleftrightarrow> (s, i) \<in> provided (map fst services) \<or> is_local_service s i sd1"
    using Cons.IH [OF rest _ sd1(1,2)] Cons.prems(2) by auto
  then show ?case using sd1(3) by (auto simp: x provided_def)
qed

lemma stop_services_effect:
  assumes "stop_services le locked services ap rt = Inr (ap', rt', actions)"
    and "\<forall>sk \<in> set services. simple sk" and "rt_service_discovery rt = Some sd"
  shows "\<exists>sd'. rt_service_discovery rt' = Some sd' \<and>
    (\<forall>s i. is_local_service s i sd' \<longleftrightarrow> (s, i) \<notin> provided services \<and> is_local_service s i sd)"
  using assms
proof (induction services arbitrary: ap rt sd actions)
  case Nil
  then show ?case by (simp add: provided_def)
next
  case (Cons sk services)
  obtain ap1 rt1 a1 a2 where one: "sk_stop_offer le locked sk ap rt = Inr (ap1, rt1, a1)"
    and rest: "stop_services le locked services ap1 rt1 = Inr (ap', rt', a2)"
    using Cons.prems(1) by (auto simp: rbind_Inr_iff)
  have sk: "sk = SimpleService True (sk_service_id sk) (sk_instance_id sk)"
    using Cons.prems(2) by (simp add: simple_def)
  obtain sd1 where sd1: "rt_service_discovery rt1 = Some sd1"
    "\<forall>s i. is_local_service s i sd1 \<longleftrightarrow> (s, i) \<noteq> (sk_service_id sk, sk_instance_id sk) \<and> is_local_service s i sd"
    using withdrawn_locally [OF one sk Cons.prems(3)] by blast
  obtain sd2 where "rt_service_discovery rt' = Some sd2"
    "\<forall>s i. is_local_service s i sd2 \<longleftrightarrow> (s, i) \<notin> provided services \<and> is_local_service s i sd1"
    using Cons.IH [OF rest _ sd1(1)] Cons.prems(2) by auto
  then show ?case using sd1(2) by (auto simp: provided_def)
qed

lemma provider_services_simple: "\<forall>sk \<in> set provider_services. simple sk"
  by (simp add: provider_services_def simple_def SimpleService_def ServiceSkeleton_def)

text \<open>Without a shared-memory agent nothing can fail.\<close>

lemma offer_services_total:
  assumes "rt_shm_agent rt = None" and "rt_service_discovery rt \<noteq> None"
    and "\<forall>sk \<in> set (map fst services). simple sk"
  shows "\<exists>ap' rt' actions. offer_services le locked junk services ap rt = Inr (ap', rt', actions) \<and>
    rt_shm_agent rt' = None \<and> rt_service_discovery rt' \<noteq> None"
  using assms
proof (induction services arbitrary: ap rt)
  case (Cons x services)
  obtain sk now where x: "x = (sk, now)" by (cases x)
  have sk: "sk_app sk" "sk_events sk = []" "sk_fields sk = []"
    using Cons.prems(3) x
    by (auto simp: simple_def SimpleService_def ServiceSkeleton_def om_empty_def
        dest: arg_cong [of _ _ sk_app] arg_cong [of _ _ sk_events] arg_cong [of _ _ sk_fields])
  obtain sd where sd: "rt_service_discovery rt = Some sd" using Cons.prems(2) by blast
  obtain sd1 a1 where o: "offer_service now (skeleton_config sk) sd = (sd1, a1)" by fastforce
  let ?rt = "rt\<lparr>rt_service_discovery := Some sd1\<rparr>"
  have "sk_offer le locked now junk sk (simple_init sk ap) rt = Inr (simple_init sk ap, ?rt, map Ap_sd a1)"
    using Cons.prems(1) sk sd o
    by (simp add: sk_offer_def app_offer_service_def with_sd_def with_shm_def Let_def)
  moreover have "\<exists>ap' rt' actions. offer_services le locked junk services (simple_init sk ap) ?rt =
      Inr (ap', rt', actions) \<and> rt_shm_agent rt' = None \<and> rt_service_discovery rt' \<noteq> None"
    by (rule Cons.IH) (use Cons.prems in \<open>auto simp: x\<close>)
  ultimately show ?case by (auto simp: x)
qed simp

lemma stop_services_total:
  assumes "rt_shm_agent rt = None" and "rt_service_discovery rt \<noteq> None"
    and "\<forall>sk \<in> set services. simple sk"
  shows "\<exists>ap' rt' actions. stop_services le locked services ap rt = Inr (ap', rt', actions)"
  using assms
proof (induction services arbitrary: ap rt)
  case (Cons sk services)
  have sk: "sk_app sk" "sk_events sk = []" "sk_fields sk = []"
    using Cons.prems(3)
    by (auto simp: simple_def SimpleService_def ServiceSkeleton_def om_empty_def
        dest: arg_cong [of _ _ sk_app] arg_cong [of _ _ sk_events] arg_cong [of _ _ sk_fields])
  obtain sd where sd: "rt_service_discovery rt = Some sd" using Cons.prems(2) by blast
  obtain sd1 a1 where o: "stop_offer_service (sk_service_id sk) (sk_instance_id sk) sd = (sd1, a1)" by fastforce
  let ?rt = "rt\<lparr>rt_service_discovery := Some sd1\<rparr>"
  have "sk_stop_offer le locked sk ap rt = Inr (ap, ?rt, map Ap_sd a1)"
    using Cons.prems(1) sk sd o
    by (simp add: sk_stop_offer_def app_stop_offer_service_def with_sd_def with_shm_def Let_def)
  moreover have "\<exists>ap' rt' actions. stop_services le locked services ap ?rt = Inr (ap', rt', actions)"
    by (rule Cons.IH) (use Cons.prems in auto)
  ultimately show ?case by auto
qed simp

text \<open> The provider offers its four services and withdraws them again. Once all have been offered,
  in addition to what was, service discovery offers the two cameras, the positioning and the audio
  service, and nothing else; after the loop that stops them, none of the four, and all the others. \<close>
theorem provider_offers_and_withdraws:
  assumes "rt_service_discovery rt = Some sd" and "om_ok (sd_local_services sd)" and "length nows = 4"
    and "offer_services le locked junk (zip provider_services nows) ap rt = Inr (ap1, rt1, actions1)"
    and "stop_services le locked provider_services ap1 rt1 = Inr (ap2, rt2, actions2)"
    and "four = {(SERVICE_TYPE_CAMERA, INSTANCE_1), (SERVICE_TYPE_CAMERA, INSTANCE_2),
      (SERVICE_TYPE_GPS, INSTANCE_1), (SERVICE_TYPE_AUDIO, INSTANCE_1)}"
  shows "\<exists>sd1 sd2. rt_service_discovery rt1 = Some sd1 \<and> rt_service_discovery rt2 = Some sd2 \<and>
    (\<forall>s i. is_local_service s i sd1 \<longleftrightarrow> (s, i) \<in> four \<or> is_local_service s i sd) \<and>
    (\<forall>s i. is_local_service s i sd2 \<longleftrightarrow> (s, i) \<notin> four \<and> is_local_service s i sd)"
proof -
  have z: "map fst (zip provider_services nows) = provider_services"
    using assms(3) by (simp add: map_fst_zip provider_services_def)
  have four: "provided provider_services = four"
    by (simp add: assms(6) provided_def provider_services_def SimpleService_def ServiceSkeleton_def)
  obtain sd1 where sd1: "rt_service_discovery rt1 = Some sd1"
    "\<forall>s i. is_local_service s i sd1 \<longleftrightarrow> (s, i) \<in> four \<or> is_local_service s i sd"
    using offer_services_effect [OF assms(4) _ assms(1,2)] provider_services_simple unfolding z four by blast
  obtain sd2 where "rt_service_discovery rt2 = Some sd2"
    "\<forall>s i. is_local_service s i sd2 \<longleftrightarrow> (s, i) \<notin> four \<and> is_local_service s i sd1"
    using stop_services_effect [OF assms(5) provider_services_simple sd1(1)] unfolding four by blast
  with sd1 show ?thesis by auto
qed

theorem provider_offers_and_withdraws_witness:
  "\<exists>ap1 rt1 actions1 ap2 rt2 actions2 sd1 sd2.
    offer_services True True 0 (zip provider_services [1, 2, 3, 4]) client client_runtime =
      Inr (ap1, rt1, actions1) \<and>
    stop_services True True provider_services ap1 rt1 = Inr (ap2, rt2, actions2) \<and>
    rt_service_discovery rt1 = Some sd1 \<and> rt_service_discovery rt2 = Some sd2 \<and>
    is_local_service SERVICE_TYPE_CAMERA INSTANCE_2 sd1 \<and>
    \<not> is_local_service SERVICE_TYPE_CAMERA INSTANCE_2 sd2"
proof -
  have shm: "rt_shm_agent client_runtime = None"
    by (simp add: client_runtime_def demo_runtime_def Runtime_def)
  have z: "\<forall>sk \<in> set (map fst (zip provider_services [1, 2, 3, 4 :: time_point])). simple sk"
    using provider_services_simple by (simp add: provider_services_def)
  obtain ap1 rt1 a1 where one: "offer_services True True 0 (zip provider_services [1, 2, 3, 4]) client
      client_runtime = Inr (ap1, rt1, a1)" "rt_shm_agent rt1 = None" "rt_service_discovery rt1 \<noteq> None"
    using offer_services_total [OF shm _ z, of True True 0 client] client_runtime_simps(1) by auto
  obtain ap2 rt2 a2 where two: "stop_services True True provider_services ap1 rt1 = Inr (ap2, rt2, a2)"
    using stop_services_total [OF one(2,3) provider_services_simple] by blast
  from provider_offers_and_withdraws [OF client_runtime_simps(1) _ _ one(1) two refl]
  show ?thesis using one(1) two by (auto simp: ServiceDiscovery_def om_empty_def)
qed

text \<open>The monitor asks for its three types, whatever the instance.\<close>

lemma monitor_asks:
  assumes "rt_service_discovery rt = Some sd" and "om_ok (sd_find_requests sd)" and "length nows = 3"
  shows "\<exists>ap' rt' sd' actions. monitor_init nows ap rt = Inr (ap', rt', actions) \<and>
    rt_service_discovery rt' = Some sd' \<and>
    (\<forall>k < 3. om_get (sd_find_requests sd') (monitor_types ! k, 0xFFFF) = Some (nows ! k))"
proof -
  obtain n0 n1 n2 where nows: "nows = [n0, n1, n2]"
    using assms(3) by (auto simp: numeral_eq_Suc length_Suc_conv)
  have "rt_service_discovery (app_init rt) = Some sd"
    by (simp add: app_init_def register_service_handler_def assms(1))
  then show ?thesis
    using assms(2)
    by (simp add: monitor_init_def with_sd_def nows monitor_types_def find_service_def Let_def
        om_get_put om_ok_put numeral_eq_Suc less_Suc_eq SERVICE_TYPE_CAMERA_def SERVICE_TYPE_GPS_def
        SERVICE_TYPE_AUDIO_def split_def)
qed

end
