(* ===== verification/ExampleApps.thy ===== *)
theory ExampleApps
  imports ExampleMethod
begin

text \<open>
  \<open>examples/service_example.cpp\<close> and \<open>examples/event_example.cpp\<close>, the two that are built: a server
  and a client, a publisher and a subscriber, straight over \<open>Application\<close>. What they print of a
  payload is the text they read from it. Members of local configurations that the code leaves
  uninitialized are arguments.
\<close>

section \<open>Text as payload\<close>

definition text_bytes :: "string \<Rightarrow> bytes" where
  "text_bytes s = map (\<lambda>c. of_nat (of_char c)) s"

definition printed :: "message \<Rightarrow> string option" where
  "printed m = (case m_payload m of
     None \<Rightarrow> None
   | Some p \<Rightarrow> if p_data p = [] then None else Some (string_of_bytes (p_data p)))"

lemma string_of_text [simp]: "string_of_bytes (text_bytes s) = s"
proof -
  have "char_of (unat (of_nat (of_char c) :: u8)) = c" for c
    using of_char_of [of "of_char c :: nat"] by (simp add: unat_of_nat of_char_mod_256)
  then show ?thesis by (simp add: string_of_bytes_def text_bytes_def comp_def)
qed

section \<open>Requests\<close>

definition HELLO_SERVICE :: u16 where "HELLO_SERVICE = 0x1234"
definition HELLO_INSTANCE :: u16 where "HELLO_INSTANCE = 0x0001"
definition HELLO_METHOD :: u16 where "HELLO_METHOD = 0x0001"

definition example_service :: "bool \<Rightarrow> u16 \<Rightarrow> u16 \<Rightarrow> u16 \<Rightarrow> service_config" where
  "example_service reliable service instance port = \<lparr>sc_service_id = service,
     sc_instance_id = instance, sc_major_version = 1, sc_minor_version = 0, sc_ttl = 0xFFFFFF,
     sc_reliable = reliable, sc_unreliable = True, sc_reliable_port = 0, sc_unreliable_port = port\<rparr>"

text \<open>The token of the server's lambda, and what it does.\<close>

definition HELLO_HANDLER :: handler where "HELLO_HANDLER = 15"

definition hello_handler :: "'w os \<Rightarrow> message \<Rightarrow> runtime \<Rightarrow> 'w \<Rightarrow> fault + runtime \<times> 'w" where
  "hello_handler os m rt w = app_send_response os m (text_bytes ''Hello from server!'') rt w"

definition hello_run_server ::
    "'w os \<Rightarrow> (string \<Rightarrow> (bytes option \<times> nat \<times> int) option) \<Rightarrow> bool \<Rightarrow> bool \<Rightarrow> time_point \<Rightarrow> bool \<Rightarrow> u16 \<Rightarrow>
     'w \<Rightarrow> fault + (application \<times> runtime \<times> 'w) option" where
  "hello_run_server os attach le locked now reliable client_id w =
     (let (ok, rt, w) = rt_init os attach (Runtime (example_config ''server_app'' 30490 30491) client_id) w in
      if \<not> ok then Inr None
      else
        let ap = app_start (create_application ''server'');
            rt = app_init rt
        in rbind (app_offer_service le locked now
               (example_service reliable HELLO_SERVICE HELLO_INSTANCE 30490) rt) (\<lambda>(rt, actions).
             Inr (Some (app_register_method_handler HELLO_METHOD (Some HELLO_HANDLER) ap, rt, w))))"

text \<open>The token of the client's lambda, which prints the change.\<close>

definition HELLO_AVAILABLE :: handler where "HELLO_AVAILABLE = 16"

definition hello_run_client ::
    "'w os \<Rightarrow> (string \<Rightarrow> (bytes option \<times> nat \<times> int) option) \<Rightarrow> time_point \<Rightarrow> time_point \<Rightarrow> u16 \<Rightarrow> 'w \<Rightarrow>
     fault + (nat \<times> application \<times> runtime \<times> 'w) option" where
  "hello_run_client os attach now now' client_id w =
     (let (ok, rt, w) = rt_init os attach (Runtime (example_config ''client_app'' 30492 30493) client_id) w in
      if \<not> ok then Inr None
      else
        let ap = app_set_availability_handler (Some HELLO_AVAILABLE)
               (app_start (create_application ''client''));
            rt = app_init rt
        in with_sd rt (\<lambda>sd.
             let (sd, actions) = find_service now HELLO_SERVICE HELLO_INSTANCE sd;
                 rt = rt\<lparr>rt_service_discovery := Some sd\<rparr>
             in rbind (app_send_request os now' HELLO_SERVICE HELLO_INSTANCE HELLO_METHOD
                    (text_bytes ''Hello from client!'') False 5000 ap rt w) (\<lambda>r. Inr (Some r))))"

text \<open>What the client prints when the wait is over: nothing on a timeout.\<close>

definition hello_client_prints :: "nat \<Rightarrow> application \<Rightarrow> string option" where
  "hello_client_prints future ap = (case ap_promises ap ! future of
     Value response \<Rightarrow> printed response | _ \<Rightarrow> None)"

section \<open>Events\<close>

definition NEWS_SERVICE :: u16 where "NEWS_SERVICE = 0x5678"
definition NEWS_INSTANCE :: u16 where "NEWS_INSTANCE = 0x0001"
definition NEWS_EVENTGROUP :: u16 where "NEWS_EVENTGROUP = 0x0001"
definition NEWS_EVENT :: u16 where "NEWS_EVENT = 0x8001"

definition publisher_up ::
    "'w os \<Rightarrow> (string \<Rightarrow> (bytes option \<times> nat \<times> int) option) \<Rightarrow> bool \<Rightarrow> bool \<Rightarrow> time_point \<Rightarrow> bool \<Rightarrow> u8 \<Rightarrow>
     bool \<Rightarrow> bool \<Rightarrow> u16 \<Rightarrow> 'w \<Rightarrow> fault + (application \<times> runtime \<times> 'w) option" where
  "publisher_up os attach le locked now reliable junk is_field is_reliable client_id w =
     (let (ok, rt, w) = rt_init os attach (Runtime (example_config ''publisher_app'' 30500 30501) client_id) w in
      if \<not> ok then Inr None
      else
        let ap = app_start (create_application ''publisher'');
            rt = app_init rt
        in rbind (app_offer_service le locked now
               (example_service reliable NEWS_SERVICE NEWS_INSTANCE 30500) rt) (\<lambda>(rt, actions).
           rbind (app_offer_event junk
               \<lparr>ec_service_id = NEWS_SERVICE, ec_instance_id = NEWS_INSTANCE, ec_event_id = NEWS_EVENT,
                ec_eventgroup_id = NEWS_EVENTGROUP, ec_is_field = is_field,
                ec_is_reliable = is_reliable\<rparr> ap rt) (\<lambda>(ap, rt).
           with_sd rt (\<lambda>sd. Inr (Some (ap,
             rt\<lparr>rt_service_discovery := Some (set_subscription_handler (Some (\<lambda>info. True)) sd)\<rparr>, w))))))"

definition news_text :: "nat \<Rightarrow> string" where
  "news_text n = ''Event #'' @ stream_number 10 n"

text \<open>Turns of the publishing loop; the counter is an \<open>int\<close> and has been incremented \<open>n\<close> times.\<close>

fun publish_news ::
    "'w os \<Rightarrow> nat \<Rightarrow> nat \<Rightarrow> application \<Rightarrow> runtime \<Rightarrow> 'w \<Rightarrow> fault + runtime \<times> 'w" where
  "publish_news os n 0 ap rt w = Inr (rt, w)"
| "publish_news os n (Suc turns) ap rt w =
     rbind (int32_of (int n + 1)) (\<lambda>counter.
     rbind (app_notify_event os NEWS_EVENT (text_bytes (news_text (unat counter))) ap rt w)
       (\<lambda>(rt, w). publish_news os (n + 1) turns ap rt w))"

definition publisher_down ::
    "bool \<Rightarrow> bool \<Rightarrow> application \<Rightarrow> runtime \<Rightarrow> fault + application \<times> runtime \<times> app_action list" where
  "publisher_down le locked ap rt =
     rbind (app_stop_offer_event NEWS_SERVICE NEWS_INSTANCE NEWS_EVENT ap rt) (\<lambda>(ap, rt).
     rbind (app_stop_offer_service le locked NEWS_SERVICE NEWS_INSTANCE rt) (\<lambda>(rt, actions).
       Inr (ap, rt, actions)))"

text \<open>The token of the subscriber's lambda, which prints the text.\<close>

definition ON_NEWS :: handler where "ON_NEWS = 17"

definition subscriber_up ::
    "'w os \<Rightarrow> (string \<Rightarrow> (bytes option \<times> nat \<times> int) option) \<Rightarrow> bool \<Rightarrow> bool \<Rightarrow> time_point \<Rightarrow> u16 \<Rightarrow> 'w \<Rightarrow>
     fault + (bool \<times> application \<times> runtime \<times> app_action list) option" where
  "subscriber_up os attach le locked now client_id w =
     (let (ok, rt, w) = rt_init os attach (Runtime (example_config ''subscriber_app'' 30502 30503) client_id) w in
      if \<not> ok then Inr None
      else
        let ap = app_set_event_handler NEWS_EVENT (Some ON_NEWS) (app_start (create_application ''subscriber''));
            rt = app_init rt
        in rbind (app_subscribe_event le locked now NEWS_SERVICE NEWS_INSTANCE NEWS_EVENTGROUP NEWS_EVENT 1
             ap rt) (\<lambda>r. Inr (Some r)))"

definition subscriber_down ::
    "bool \<Rightarrow> bool \<Rightarrow> runtime \<Rightarrow> fault + runtime \<times> app_action list" where
  "subscriber_down le locked rt = app_unsubscribe_event le locked NEWS_SERVICE NEWS_INSTANCE NEWS_EVENTGROUP rt"

section \<open>Properties\<close>

text \<open>A runtime that has only been initialized runs nothing and has discovered nothing.\<close>

lemma udp_init_idle: "udp_init os address port UdpTransport w = (ok, ut, w') \<Longrightarrow> \<not> ut_running ut"
  by (auto simp: udp_init_def UdpTransport_def Let_def split: prod.splits if_splits)

lemma tcp_listen_idle: "tcp_listen os address port TcpTransport w = (ok, tt, w') \<Longrightarrow> \<not> tt_running tt"
  by (auto simp: tcp_listen_def TcpTransport_def Let_def split: prod.splits if_splits)

lemma rt_init_idle:
  assumes "rt_init os attach (Runtime config client_id) w = (True, rt, w')" and "rc_enable_sd config"
  shows "\<not> rt_running rt" and "\<not> ut_running (rt_udp_transport rt)" and "\<not> tt_running (rt_tcp_transport rt)"
    and "\<exists>sd. rt_service_discovery rt = Some sd \<and> \<not> sd_running sd \<and> sd_discovered_services sd = om_empty"
  using assms
  by (auto simp: rt_init_def Runtime_def Let_def udp_set_message_received_callback_def sd_init_def
      ServiceDiscovery_def split: prod.splits if_splits dest: udp_init_idle tcp_listen_idle)

lemma example_config_sd [simp]: "rc_enable_sd (example_config name udp_port tcp_port)"
  by (simp add: example_config_def default_runtime_config_def)

lemma app_init_fields [simp]:
  "rt_running (app_init rt) = rt_running rt" "rt_udp_transport (app_init rt) = rt_udp_transport rt"
  "rt_tcp_transport (app_init rt) = rt_tcp_transport rt"
  "rt_service_discovery (app_init rt) = rt_service_discovery rt"
  by (simp_all add: app_init_def register_service_handler_def)

lemma app_offer_service_transports:
  "app_offer_service le locked now config rt = Inr (rt', actions) \<Longrightarrow>
     rt_running rt' = rt_running rt \<and> rt_udp_transport rt' = rt_udp_transport rt \<and>
     rt_tcp_transport rt' = rt_tcp_transport rt"
  by (auto simp: app_offer_service_def with_sd_def with_shm_def rbind_Inr_iff Let_def
      split: option.splits prod.splits)

lemma app_offer_event_transports:
  "app_offer_event junk config ap rt = Inr (ap', rt') \<Longrightarrow>
     rt_running rt' = rt_running rt \<and> rt_udp_transport rt' = rt_udp_transport rt \<and>
     rt_tcp_transport rt' = rt_tcp_transport rt"
  by (auto simp: app_offer_event_def with_sd_def Let_def split: option.splits)

text \<open> The server and the publisher that are built never listen. Neither starts its runtime:
  when they are up, no thread of the runtime, of its transports or of service discovery runs, so
  they receive no request and no subscription, whatever arrives. \<close>
theorem built_examples_never_listen:
  assumes "hello_run_server os attach le locked now reliable client_id w = Inr (Some (ap, rt, w')) \<or>
    publisher_up os attach le locked now reliable junk is_field is_reliable client_id w = Inr (Some (ap, rt, w'))"
  shows "\<not> rt_running rt \<and> \<not> tt_running (rt_tcp_transport rt) \<and>
    udp_receive_turn os (rt_udp_transport rt) w'' = Inr ([], w'')"
proof -
  have "\<not> rt_running rt \<and> \<not> ut_running (rt_udp_transport rt) \<and> \<not> tt_running (rt_tcp_transport rt)"
    using assms
  proof
    assume "hello_run_server os attach le locked now reliable client_id w = Inr (Some (ap, rt, w'))"
    then obtain rt0 w0 actions where
      "rt_init os attach (Runtime (example_config ''server_app'' 30490 30491) client_id) w = (True, rt0, w0)"
      "app_offer_service le locked now (example_service reliable HELLO_SERVICE HELLO_INSTANCE 30490)
        (app_init rt0) = Inr (rt, actions)"
      by (auto simp: hello_run_server_def rbind_Inr_iff Let_def split: prod.splits if_splits)
    then show ?thesis using app_offer_service_transports [of le locked now _ "app_init rt0" rt actions]
        rt_init_idle(1-3) by fastforce
  next
    assume "publisher_up os attach le locked now reliable junk is_field is_reliable client_id w =
        Inr (Some (ap, rt, w'))"
    then obtain rt0 w0 rt1 actions rt2 sd config where
      "rt_init os attach (Runtime (example_config ''publisher_app'' 30500 30501) client_id) w = (True, rt0, w0)"
      "app_offer_service le locked now (example_service reliable NEWS_SERVICE NEWS_INSTANCE 30500)
        (app_init rt0) = Inr (rt1, actions)"
      "app_offer_event junk config (app_start (create_application ''publisher'')) rt1 = Inr (ap, rt2)"
      "rt = rt2\<lparr>rt_service_discovery := Some sd\<rparr>"
      by (auto simp: publisher_up_def with_sd_def rbind_Inr_iff Let_def
          split: prod.splits if_splits option.splits)
    then show ?thesis using app_offer_service_transports [of le locked now _ "app_init rt0" rt1 actions]
        app_offer_event_transports [of junk config _ rt1 ap rt2] rt_init_idle(1-3) by fastforce
  qed
  then show ?thesis by (simp add: udp_receive_turn_def)
qed

text \<open>A network on which a runtime comes up.\<close>

lemma example_comes_up:
  "\<exists>rt w. rt_init queue_os (\<lambda>_. None) (Runtime (example_config name udp_port tcp_port) client_id) [] =
     (True, rt, w) \<and> rt_shm_agent rt = None"
  by (simp add: rt_init_def Runtime_def udp_init_def tcp_listen_def udp_join_multicast_def queue_os_def
      example_config_def default_runtime_config_def Let_def split: prod.split)

theorem built_examples_never_listen_witness:
  "\<exists>ap rt w'. hello_run_server queue_os (\<lambda>_. None) True True 0 False 9 [] = Inr (Some (ap, rt, w')) \<and>
    \<not> rt_running rt \<and>
    udp_receive_turn queue_os (rt_udp_transport rt) [(serialize sample_message, [127, 0, 0, 1], 30509)] =
      Inr ([], [(serialize sample_message, [127, 0, 0, 1], 30509)])"
proof -
  obtain rt0 w0 where i: "rt_init queue_os (\<lambda>_. None) (Runtime (example_config ''server_app'' 30490 30491) 9) [] =
      (True, rt0, w0)" "rt_shm_agent rt0 = None"
    using example_comes_up by blast
  obtain sd where sd: "rt_service_discovery rt0 = Some sd"
    using rt_init_idle(4) [OF i(1)] by auto
  obtain ap rt w' where up: "hello_run_server queue_os (\<lambda>_. None) True True 0 False 9 [] = Inr (Some (ap, rt, w'))"
    using i sd
    by (cases "offer_service 0 (example_service False HELLO_SERVICE HELLO_INSTANCE 30490) sd")
      (simp add: hello_run_server_def app_offer_service_def with_sd_def with_shm_def app_init_def
        register_service_handler_def Let_def)
  from built_examples_never_listen [OF disjI1 [OF up]] up show ?thesis by blast
qed

text \<open> The client that is built says nothing. Its runtime has discovered no service when it sends
  its request, so the request is not sent and answered at once with E_NOT_REACHABLE, an answer
  without text: the client prints neither a response nor a timeout. \<close>
theorem hello_client_prints_nothing:
  assumes "hello_run_client os attach now now' client_id w = Inr (Some (future, ap, rt, w'))"
  shows "\<exists>m. ap_promises ap ! future = Value m \<and> m_return_code m = E_NOT_REACHABLE \<and>
    hello_client_prints future ap = None"
proof -
  obtain rt0 w0 sd where
    i: "rt_init os attach (Runtime (example_config ''client_app'' 30492 30493) client_id) w = (True, rt0, w0)"
    and sd: "rt_service_discovery rt0 = Some sd" and
    s: "app_send_request os now' HELLO_SERVICE HELLO_INSTANCE HELLO_METHOD (text_bytes ''Hello from client!'')
      False 5000 (app_set_availability_handler (Some HELLO_AVAILABLE) (app_start (create_application ''client'')))
      ((app_init rt0)\<lparr>rt_service_discovery := Some (fst (find_service now HELLO_SERVICE HELLO_INSTANCE sd))\<rparr>) w0 =
      Inr (future, ap, rt, w')"
    using assms
    by (auto simp: hello_run_client_def with_sd_def rbind_Inr_iff Let_def split: prod.splits if_splits option.splits)
  have "sd_discovered_services sd = om_empty" using rt_init_idle(4) [OF i] sd by auto
  then have "get_service_endpoints HELLO_SERVICE HELLO_INSTANCE (fst (find_service now HELLO_SERVICE HELLO_INSTANCE sd)) = []"
    by (simp add: get_service_endpoints_def find_service_def om_get_def om_empty_def)
  moreover have "ap_promises (app_set_availability_handler (Some HELLO_AVAILABLE)
      (app_start (create_application ''client''))) = []"
    by (simp add: app_set_availability_handler_def app_start_def create_application_def Application_def)
  ultimately show ?thesis using s
    by (auto simp: app_send_request_def with_sd_def Let_def rbind_Inr_iff enter_request_def set_value_def
        hello_client_prints_def printed_def create_error_response_def create_response_def payload_empty_def
        split: if_splits)
qed

theorem hello_client_prints_nothing_witness:
  "\<exists>future ap rt w'. hello_run_client queue_os (\<lambda>_. None) 0 1 9 [] = Inr (Some (future, ap, rt, w')) \<and>
    hello_client_prints future ap = None"
proof -
  obtain rt0 w0 where i: "rt_init queue_os (\<lambda>_. None) (Runtime (example_config ''client_app'' 30492 30493) 9) [] =
      (True, rt0, w0)"
    using example_comes_up by blast
  obtain sd where sd: "rt_service_discovery rt0 = Some sd" "sd_discovered_services sd = om_empty"
    using rt_init_idle(4) [OF i] by auto
  have "get_service_endpoints HELLO_SERVICE HELLO_INSTANCE (fst (find_service 0 HELLO_SERVICE HELLO_INSTANCE sd)) = []"
    using sd(2) by (simp add: get_service_endpoints_def find_service_def om_get_def om_empty_def)
  then obtain future ap rt w' where up:
      "hello_run_client queue_os (\<lambda>_. None) 0 1 9 [] = Inr (Some (future, ap, rt, w'))"
    using i sd(1)
    by (cases "find_service 0 HELLO_SERVICE HELLO_INSTANCE sd")
      (auto simp: hello_run_client_def with_sd_def app_send_request_def enter_request_def set_value_def
        app_set_availability_handler_def app_start_def create_application_def Application_def Let_def)
  from hello_client_prints_nothing [OF up] up show ?thesis by blast
qed

text \<open>What is published is what a subscriber prints.\<close>

lemma news_printed: "printed (set_payload (text_bytes (news_text n)) m) = Some (news_text n)"
  by (simp add: printed_def set_payload_def payload_of_def) (simp add: text_bytes_def news_text_def)

end
