(* ===== verification/ExampleDemos.thy ===== *)
theory ExampleDemos
  imports ExampleField ExampleDiscovery
begin

text \<open>
  What the demo clients under \<open>examples/\<close> do once they are up, with what they print: the calls of
  \<open>example_method.cpp\<close> and \<open>example_field.cpp\<close>, the reports of \<open>example_discovery.cpp\<close>, and the
  command lines of all six programs. What happens in the process while a client waits, for a
  future or in a sleep, is an argument. Output is a list of lines.
\<close>

section \<open>Printing\<close>

definition print_int :: "u32 \<Rightarrow> string" where
  "print_int v = (if sint v < 0 then ''-'' @ stream_number 10 (nat (- sint v))
     else stream_number 10 (nat (sint v)))"

definition print_on :: "bool \<Rightarrow> string" where
  "print_on on = (if on then ''ON'' else ''OFF'')"

text \<open>A line for a value, if there is one.\<close>

definition shown :: "string \<Rightarrow> string option \<Rightarrow> string list" where
  "shown label s = (case s of None \<Rightarrow> [] | Some s \<Rightarrow> [label @ s])"

section \<open>Waiting\<close>

type_synonym 'w client = "proxy \<times> application \<times> runtime \<times> 'w"

text \<open>
  A synchronous call: send, wait while \<open>meanwhile\<close> happens, read the future. A call that sends
  nothing does not wait, and then nothing need happen.
\<close>

definition call_and_wait ::
    "(proxy \<Rightarrow> application \<Rightarrow> runtime \<Rightarrow> 'w \<Rightarrow> fault + nat option \<times> application \<times> runtime \<times> 'w) \<Rightarrow>
     (nat option \<Rightarrow> application \<Rightarrow> fault + 'r) \<Rightarrow> ('w client \<Rightarrow> 'w client) \<Rightarrow> 'w client \<Rightarrow>
     fault + 'r \<times> 'w client" where
  "call_and_wait send get meanwhile c = (let (px, ap, rt, w) = c in
     rbind (send px ap rt w) (\<lambda>(future, ap, rt, w).
       let (px, ap, rt, w) = meanwhile (px, ap, rt, w)
       in rbind (get future ap) (\<lambda>r. Inr (r, px, ap, rt, w))))"

section \<open>The calculator's client\<close>

definition calculator_session ::
    "'w os \<Rightarrow> (nat \<Rightarrow> time_point) \<Rightarrow> (nat \<Rightarrow> 'w client \<Rightarrow> 'w client) \<Rightarrow> 'w client \<Rightarrow>
     fault + string list \<times> 'w client" where
  "calculator_session os now meanwhile c =
     (let c = meanwhile 0 c in
      rbind (call_and_wait (calc_add os (now 1) 10 5) calc_result (meanwhile 1) c) (\<lambda>(sum, c).
      rbind (call_and_wait (calc_subtract os (now 2) 10 5) calc_result (meanwhile 2) c) (\<lambda>(difference, c).
      rbind (call_and_wait (calc_multiply os (now 3) 10 5) calc_result (meanwhile 3) c) (\<lambda>(prod, c).
      rbind (call_and_wait (calc_divide os (now 4) 10 5) calc_result (meanwhile 4) c) (\<lambda>(quotient, c).
        Inr ([''Waiting for service...'', '''', ''=== Calculator Demo ==='']
          @ shown ''10 + 5 = '' (map_option print_int sum)
          @ shown ''10 - 5 = '' (map_option print_int difference)
          @ shown ''10 * 5 = '' (map_option print_int prod)
          @ shown ''10 / 5 = '' (map_option print_int quotient), c))))))"

text \<open>The whole of \<open>run_client\<close>; without a runtime it gives up.\<close>

definition calculator_demo ::
    "'w os \<Rightarrow> (string \<Rightarrow> (bytes option \<times> nat \<times> int) option) \<Rightarrow> u16 \<Rightarrow> (nat \<Rightarrow> time_point) \<Rightarrow>
     (nat \<Rightarrow> 'w client \<Rightarrow> 'w client) \<Rightarrow> u32 list \<Rightarrow> 'w \<Rightarrow> fault + (string list \<times> runtime \<times> 'w) option" where
  "calculator_demo os attach client_id now meanwhile order w =
     (case calculator_run_client os attach client_id w of
        None \<Rightarrow> Inr None
      | Some ((px, ap, rt), w) \<Rightarrow>
          rbind (calculator_session os now meanwhile (px, ap, rt, w)) (\<lambda>(lines, px, ap, rt, w).
            Inr (Some (''Starting Calculator Client...'' # lines, rt_stop os order rt w))))"

section \<open>The configuration's client\<close>

definition field_report :: "string \<Rightarrow> u32 option \<Rightarrow> u32 option \<Rightarrow> bool option \<Rightarrow> string list" where
  "field_report when brightness volume powered =
     shown (when @ '' brightness: '') (map_option print_int brightness)
     @ shown (when @ '' volume: '') (map_option print_int volume)
     @ shown (when @ '' power: '') (map_option print_on powered)"

text \<open>The three reads that the client does twice.\<close>

definition read_fields ::
    "'w os \<Rightarrow> (nat \<Rightarrow> time_point) \<Rightarrow> (nat \<Rightarrow> 'w client \<Rightarrow> 'w client) \<Rightarrow> 'w client \<Rightarrow>
     fault + (u32 option \<times> u32 option \<times> bool option) \<times> 'w client" where
  "read_fields os now meanwhile c =
     rbind (call_and_wait (client_get_brightness os (now 0)) client_field_value (meanwhile 0) c)
       (\<lambda>(brightness, c).
     rbind (call_and_wait (client_get_volume os (now 1)) client_field_value (meanwhile 1) c) (\<lambda>(volume, c).
     rbind (call_and_wait (client_get_power_state os (now 2)) client_power_value (meanwhile 2) c)
       (\<lambda>(powered, c). Inr ((brightness, volume, powered), c))))"

definition config_session ::
    "'w os \<Rightarrow> (nat \<Rightarrow> time_point) \<Rightarrow> (nat \<Rightarrow> 'w client \<Rightarrow> 'w client) \<Rightarrow> 'w client \<Rightarrow>
     fault + string list \<times> 'w client" where
  "config_session os now meanwhile c =
     rbind (read_fields os now meanwhile (meanwhile 3 c)) (\<lambda>((brightness, volume, powered), c).
     rbind (call_and_wait (client_set_brightness os (now 4) 75) px_set_field_wait (meanwhile 4) c) (\<lambda>(_, c).
     rbind (call_and_wait (client_set_volume os (now 5) 50) px_set_field_wait (meanwhile 5) c) (\<lambda>(_, c).
     rbind (call_and_wait (client_set_power_state os (now 6) False) px_set_field_wait (meanwhile 6) c) (\<lambda>(_, c).
     rbind (read_fields os (\<lambda>n. now (7 + n)) (\<lambda>n. meanwhile (7 + n)) (meanwhile 10 c))
       (\<lambda>((brightness', volume', powered'), c).
     rbind (call_and_wait (client_set_brightness os (now 11) 150) px_set_field_wait (meanwhile 11) c)
       (\<lambda>(success, c).
       Inr (['''', ''=== Field Access Demo ===''] @ field_report ''Initial'' brightness volume powered
         @ ['''', ''Setting new values...'', '''', ''Reading updated values...'']
         @ field_report ''Updated'' brightness' volume' powered'
         @ ['''', ''Testing invalid value (brightness = 150)...'',
            ''Set brightness result: '' @ (if success then ''SUCCESS'' else ''FAILED'')],
         meanwhile 12 c)))))))"

definition config_demo ::
    "'w os \<Rightarrow> (string \<Rightarrow> (bytes option \<times> nat \<times> int) option) \<Rightarrow> bool \<Rightarrow> bool \<Rightarrow> u16 \<Rightarrow> (nat \<Rightarrow> time_point) \<Rightarrow>
     (nat \<Rightarrow> 'w client \<Rightarrow> 'w client) \<Rightarrow> u32 list \<Rightarrow> 'w \<Rightarrow> fault + (string list \<times> runtime \<times> 'w) option" where
  "config_demo os attach le locked client_id now meanwhile order w =
     (case config_run_client os attach le locked (now 13) client_id w of
        None \<Rightarrow> Inr None
      | Some (up, w) \<Rightarrow> rbind up (\<lambda>(px, ap, rt, actions).
          rbind (config_session os now meanwhile (px, ap, rt, w)) (\<lambda>(lines, px, ap, rt, w).
            Inr (Some (''Starting Config Client...'' # lines, rt_stop os order rt w)))))"

section \<open>The monitor\<close>

text \<open>
  The manipulators of the stream are sticky: the service is printed in base 16, the instance,
  after \<open>std::dec\<close>, in base 10 behind a 0x. \<open>on_service_changed\<close> prints both in base 16.
\<close>

definition endpoint_line :: "endpoint \<Rightarrow> string" where
  "endpoint_line ep = ''    '' @ ep_address ep @ '':'' @ stream_number 10 (unat (ep_port ep)) @
     '' ('' @ (if ep_protocol ep = UDP then ''UDP'' else ''TCP'') @ '')''"

definition service_lines :: "service_info \<Rightarrow> string list" where
  "service_lines info =
     (''Service 0x'' @ stream_number 16 (unat (si_service_id info)) @
      '', Instance 0x'' @ stream_number 10 (unat (si_instance_id info)) @
      '' (v'' @ stream_number 10 (unat (si_major_version info)) @ ''.'' @
      stream_number 10 (unat (si_minor_version info)) @ '')'' @
      '' TTL: '' @ stream_number 10 (unat (si_ttl info)) @ ''s'')
     # ''  Endpoints:'' # map endpoint_line (si_endpoints info)"

definition discovered_lines :: "service_info list \<Rightarrow> string list" where
  "discovered_lines services = ['''', ''=== Discovered Services ===''] @
     (if services = [] then [''No services discovered yet.''] else concat (map service_lines services)) @ ['''']"

definition service_changed_line :: "u16 \<Rightarrow> u16 \<Rightarrow> bool \<Rightarrow> string" where
  "service_changed_line service instance available =
     ''[Discovery] Service 0x'' @ stream_number 16 (unat service) @
     '', Instance 0x'' @ stream_number 16 (unat instance) @
     '' is now '' @ (if available then ''AVAILABLE'' else ''UNAVAILABLE'')"

text \<open>Turns of the loop, a second apart.\<close>

fun monitor_session ::
    "(nat \<Rightarrow> runtime \<Rightarrow> runtime) \<Rightarrow> nat \<Rightarrow> runtime \<Rightarrow> fault + string list \<times> runtime" where
  "monitor_session meanwhile 0 rt = Inr ([], rt)"
| "monitor_session meanwhile (Suc turns) rt =
     rbind (with_sd rt (\<lambda>sd. Inr (discovered_lines (get_discovered_services sd)))) (\<lambda>lines.
     rbind (monitor_session meanwhile turns (meanwhile turns rt)) (\<lambda>(lines', rt). Inr (lines @ lines', rt)))"

definition monitor_run :: "(nat \<Rightarrow> runtime \<Rightarrow> runtime) \<Rightarrow> runtime \<Rightarrow> fault + string list \<times> runtime" where
  "monitor_run meanwhile rt = monitor_session meanwhile 60 rt"

definition discovery_demo ::
    "'w os \<Rightarrow> (string \<Rightarrow> (bytes option \<times> nat \<times> int) option) \<Rightarrow> time_point list \<Rightarrow> u16 \<Rightarrow>
     (nat \<Rightarrow> runtime \<Rightarrow> runtime) \<Rightarrow> u32 list \<Rightarrow> 'w \<Rightarrow> fault + (string list \<times> runtime \<times> 'w) option" where
  "discovery_demo os attach nows client_id meanwhile order w =
     (case run_discovery_client os attach nows client_id w of
        None \<Rightarrow> Inr None
      | Some (up, w) \<Rightarrow> rbind up (\<lambda>(ap, rt, actions).
          rbind (monitor_run meanwhile rt) (\<lambda>(lines, rt).
            Inr (Some (''Starting Discovery Client...'' # lines, rt_stop os order rt w)))))"

section \<open>Command lines\<close>

text \<open>
  What \<open>main\<close> runs, prints and returns, for the name of the program and the words after it. Without
  a word it knows, four of the programs explain themselves and return 0; the two that are built
  take a missing word and an unknown one for errors. A mode comes with its line of explanation.
\<close>

definition usage :: "string \<Rightarrow> string \<times> string \<Rightarrow> string \<times> string \<Rightarrow> string list" where
  "usage name one other =
     [''Usage: '' @ name @ '' ['' @ fst one @ ''|'' @ fst other @ '']'', snd one, snd other]"

fun demo_main :: "string \<times> string \<Rightarrow> string \<times> string \<Rightarrow> string \<Rightarrow> string list \<Rightarrow>
    string option \<times> string list \<times> int" where
  "demo_main one other name [] = (None, usage name one other, 0)"
| "demo_main one other name (word # words) =
     (if word = fst one then (Some (fst one), [], 0)
      else if word = fst other then (Some (fst other), [], 0)
      else (None, usage name one other, 0))"

fun strict_main :: "string \<times> string \<Rightarrow> string \<times> string \<Rightarrow> string \<Rightarrow> string list \<Rightarrow>
    string option \<times> string list \<times> int" where
  "strict_main one other name [] = (None, usage name one other, 1)"
| "strict_main one other name (word # words) =
     (if word = fst one then (Some (fst one), [], 0)
      else if word = fst other then (Some (fst other), [], 0)
      else (None, usage name one other, 1))"

definition calculator_main :: "string \<Rightarrow> string list \<Rightarrow> string option \<times> string list \<times> int" where
  "calculator_main = demo_main (''server'', ''  server - Start the calculator service'')
     (''client'', ''  client - Start the calculator client'')"

definition config_main :: "string \<Rightarrow> string list \<Rightarrow> string option \<times> string list \<times> int" where
  "config_main = demo_main (''server'', ''  server - Start the configuration service'')
     (''client'', ''  client - Start the configuration client'')"

definition sensor_main :: "string \<Rightarrow> string list \<Rightarrow> string option \<times> string list \<times> int" where
  "sensor_main = demo_main (''sensor'', ''  sensor - Start the temperature sensor service'')
     (''client'', ''  client - Start the sensor client'')"

definition discovery_main :: "string \<Rightarrow> string list \<Rightarrow> string option \<times> string list \<times> int" where
  "discovery_main =
     demo_main (''provider'', ''  provider - Start the service provider (offers multiple services)'')
       (''client'', ''  client   - Start the discovery client (discovers services)'')"

definition hello_main :: "string \<Rightarrow> string list \<Rightarrow> string option \<times> string list \<times> int" where
  "hello_main = strict_main (''server'', ''  server  - Run as server'')
     (''client'', ''  client  - Run as client'')"

definition news_main :: "string \<Rightarrow> string list \<Rightarrow> string option \<times> string list \<times> int" where
  "news_main = strict_main (''publisher'', ''  publisher  - Run as event publisher'')
     (''subscriber'', ''  subscriber - Run as event subscriber'')"

section \<open>Properties\<close>

text \<open>What may happen while a client waits: whatever leaves the proxy in a reachable state.\<close>

definition proxy_lives :: "'w os \<Rightarrow> ('w client \<Rightarrow> 'w client) \<Rightarrow> bool" where
  "proxy_lives os f \<longleftrightarrow> (\<forall>px ap rt w. px_reachable os False (px, ap) \<longrightarrow>
     (case f (px, ap, rt, w) of (px', ap', _) \<Rightarrow> px_reachable os False (px', ap')))"

definition client_ok :: "'w os \<Rightarrow> 'w client \<Rightarrow> bool" where
  "client_ok os c \<longleftrightarrow> (case c of (px, ap, _) \<Rightarrow> px_reachable os False (px, ap))"

lemma client_ok_wait: "proxy_lives os f \<Longrightarrow> client_ok os c \<Longrightarrow> client_ok os (f c)"
  by (cases c) (auto simp: proxy_lives_def client_ok_def)

text \<open>A call over a proxy that nobody has made available comes to nothing.\<close>

lemma call_and_wait_nothing:
  assumes "client_ok os c" and "proxy_lives os meanwhile"
    and "\<And>px ap rt w. \<not> px_available px \<Longrightarrow> send px ap rt w = Inr (None, ap, rt, w)"
    and "\<And>ap. get None ap = Inr r"
  shows "\<exists>c'. call_and_wait send get meanwhile c = Inr (r, c') \<and> client_ok os c'"
proof -
  obtain px ap rt w where c: "c = (px, ap, rt, w)" by (cases c)
  have "\<not> px_available px"
    using px_reachable_unavailable [of os "(px, ap)"] assms(1) by (simp add: c client_ok_def)
  then show ?thesis using assms(3,4) client_ok_wait [OF assms(2,1)]
    by (cases "meanwhile c") (auto simp: call_and_wait_def c)
qed

lemmas calls_unavailable = calc_add_def calc_subtract_def calc_multiply_def calc_divide_def
  client_get_brightness_def client_get_volume_def client_get_power_state_def
  client_set_brightness_def client_set_volume_def client_set_power_state_def
  px_call_send_def px_get_field_send_def px_set_field_send_def

lemmas futures_nothing = calc_result_def client_field_value_def client_power_value_def
  px_set_field_wait_def px_call_wait_def

lemma calc_nothing:
  assumes "client_ok os c" and "proxy_lives os meanwhile"
    and "send \<in> {calc_add os now a b, calc_subtract os now a b, calc_multiply os now a b, calc_divide os now a b}"
  shows "\<exists>c'. call_and_wait send calc_result meanwhile c = Inr (None, c') \<and> client_ok os c'"
  by (rule call_and_wait_nothing [OF assms(1,2)])
    (use assms(3) in \<open>auto simp: calls_unavailable futures_nothing\<close>)

lemma set_nothing:
  assumes "client_ok os c" and "proxy_lives os meanwhile"
    and "send \<in> {client_set_brightness os now v, client_set_volume os now v, client_set_power_state os now b}"
  shows "\<exists>c'. call_and_wait send px_set_field_wait meanwhile c = Inr (False, c') \<and> client_ok os c'"
  by (rule call_and_wait_nothing [OF assms(1,2)])
    (use assms(3) in \<open>auto simp: calls_unavailable futures_nothing\<close>)

lemma get_nothing:
  assumes "client_ok os c" and "proxy_lives os meanwhile"
  shows "\<exists>c'. call_and_wait (client_get_brightness os now) client_field_value meanwhile c = Inr (None, c') \<and>
      client_ok os c'"
    and "\<exists>c'. call_and_wait (client_get_volume os now) client_field_value meanwhile c = Inr (None, c') \<and>
      client_ok os c'"
    and "\<exists>c'. call_and_wait (client_get_power_state os now) client_power_value meanwhile c = Inr (None, c') \<and>
      client_ok os c'"
  by (rule call_and_wait_nothing [OF assms]; simp add: calls_unavailable futures_nothing)+

lemma read_nothing:
  assumes "client_ok os c" and "\<And>n. proxy_lives os (meanwhile n)"
  shows "\<exists>c'. read_fields os now meanwhile c = Inr ((None, None, None), c') \<and> client_ok os c'"
proof -
  obtain c1 where 1: "call_and_wait (client_get_brightness os (now 0)) client_field_value (meanwhile 0) c =
      Inr (None, c1)" "client_ok os c1"
    using get_nothing(1) [OF assms(1,2)] by blast
  obtain c2 where 2: "call_and_wait (client_get_volume os (now 1)) client_field_value (meanwhile 1) c1 =
      Inr (None, c2)" "client_ok os c2"
    using get_nothing(2) [OF 1(2) assms(2)] by blast
  obtain c3 where 3: "call_and_wait (client_get_power_state os (now 2)) client_power_value (meanwhile 2) c2 =
      Inr (None, c3)" "client_ok os c3"
    using get_nothing(3) [OF 2(2) assms(2)] by blast
  show ?thesis unfolding read_fields_def 1 2 3 rbind.simps prod.case using 3(2) by blast
qed

lemma calculator_session_nothing:
  assumes "client_ok os c" and "\<And>n. proxy_lives os (meanwhile n)"
  shows "\<exists>c'. calculator_session os now meanwhile c =
    Inr ([''Waiting for service...'', '''', ''=== Calculator Demo ===''], c')"
proof -
  have c0: "client_ok os (meanwhile 0 c)" by (rule client_ok_wait [OF assms(2,1)])
  obtain c1 where 1: "call_and_wait (calc_add os (now 1) 10 5) calc_result (meanwhile 1) (meanwhile 0 c) =
      Inr (None, c1)" "client_ok os c1"
    using calc_nothing [OF c0 assms(2)] by blast
  obtain c2 where 2: "call_and_wait (calc_subtract os (now 2) 10 5) calc_result (meanwhile 2) c1 = Inr (None, c2)"
      "client_ok os c2"
    using calc_nothing [OF 1(2) assms(2)] by blast
  obtain c3 where 3: "call_and_wait (calc_multiply os (now 3) 10 5) calc_result (meanwhile 3) c2 = Inr (None, c3)"
      "client_ok os c3"
    using calc_nothing [OF 2(2) assms(2)] by blast
  obtain c4 where 4: "call_and_wait (calc_divide os (now 4) 10 5) calc_result (meanwhile 4) c3 = Inr (None, c4)"
    using calc_nothing [OF 3(2) assms(2)] by blast
  show ?thesis unfolding calculator_session_def Let_def 1 2 3 4 rbind.simps prod.case
    by (intro exI) (simp add: shown_def)
qed

lemma config_session_nothing:
  assumes "client_ok os c" and "\<And>n. proxy_lives os (meanwhile n)"
  shows "\<exists>c'. config_session os now meanwhile c =
    Inr (['''', ''=== Field Access Demo ==='', '''', ''Setting new values...'', '''', ''Reading updated values...'',
      '''', ''Testing invalid value (brightness = 150)...'', ''Set brightness result: FAILED''], c')"
proof -
  have c0: "client_ok os (meanwhile 3 c)" by (rule client_ok_wait [OF assms(2,1)])
  obtain c1 where 1: "read_fields os now meanwhile (meanwhile 3 c) = Inr ((None, None, None), c1)" "client_ok os c1"
    using read_nothing [OF c0, of meanwhile now] assms(2) by blast
  obtain c2 where 2: "call_and_wait (client_set_brightness os (now 4) 75) px_set_field_wait (meanwhile 4) c1 =
      Inr (False, c2)" "client_ok os c2"
    using set_nothing [OF 1(2) assms(2)] by blast
  obtain c3 where 3: "call_and_wait (client_set_volume os (now 5) 50) px_set_field_wait (meanwhile 5) c2 =
      Inr (False, c3)" "client_ok os c3"
    using set_nothing [OF 2(2) assms(2)] by blast
  obtain c4 where 4: "call_and_wait (client_set_power_state os (now 6) False) px_set_field_wait (meanwhile 6) c3 =
      Inr (False, c4)" "client_ok os c4"
    using set_nothing [OF 3(2) assms(2)] by blast
  have c5: "client_ok os (meanwhile 10 c4)" by (rule client_ok_wait [OF assms(2) 4(2)])
  obtain c6 where 5: "read_fields os (\<lambda>n. now (7 + n)) (\<lambda>n. meanwhile (7 + n)) (meanwhile 10 c4) =
      Inr ((None, None, None), c6)" "client_ok os c6"
    using read_nothing [OF c5, of "\<lambda>n. meanwhile (7 + n)" "\<lambda>n. now (7 + n)"] assms(2) by blast
  obtain c7 where 6: "call_and_wait (client_set_brightness os (now 11) 150) px_set_field_wait (meanwhile 11) c6 =
      Inr (False, c7)"
    using set_nothing [OF 5(2) assms(2)] by blast
  show ?thesis unfolding config_session_def 1 2 3 4 5 6 rbind.simps prod.case
    by (intro exI) (simp add: field_report_def shown_def)
qed

text \<open> The demo clients show nothing. Whatever the network and the servers do, as long as nobody
  calls the application's availability callback, which the library never does, the calculator's
  client prints its headings and no result, and the configuration's client prints its headings, no
  value, and that setting the brightness failed; no call faults. \<close>

theorem demo_clients_show_nothing:
  assumes "px_reachable os False (px, ap)" and "\<forall>n. proxy_lives os (meanwhile n)"
  shows "(\<exists>c'. calculator_session os now meanwhile (px, ap, rt, w) =
      Inr ([''Waiting for service...'', '''', ''=== Calculator Demo ===''], c')) \<and>
    (\<exists>c'. config_session os now meanwhile (px, ap, rt, w) =
      Inr (['''', ''=== Field Access Demo ==='', '''', ''Setting new values...'', '''', ''Reading updated values...'',
        '''', ''Testing invalid value (brightness = 150)...'', ''Set brightness result: FAILED''], c'))"
proof -
  have "client_ok os (px, ap, rt, w)" using assms(1) by (simp add: client_ok_def)
  then show ?thesis
    using calculator_session_nothing [of os _ meanwhile now] config_session_nothing [of os _ meanwhile now] assms(2)
    by blast
qed

theorem demo_clients_show_nothing_witness:
  "\<exists>c'. calculator_session queue_os (\<lambda>_. 0) (\<lambda>_. id) (CalculatorClient True, Application ''c'', client_runtime, []) =
     Inr ([''Waiting for service...'', '''', ''=== Calculator Demo ===''], c')"
proof -
  have "px_reachable queue_os False (CalculatorClient True, Application ''c'')"
    unfolding CalculatorClient_def by (rule px_reachable.Px_new)
  moreover have "\<forall>n :: nat. proxy_lives queue_os ((\<lambda>_. id) n)" by (simp add: proxy_lives_def)
  ultimately show ?thesis using demo_clients_show_nothing [of queue_os _ _ "\<lambda>_. id"] by blast
qed

text \<open>With the right answers the calculator's client would have printed the right lines.\<close>

lemma calculator_lines:
  "shown ''10 + 5 = '' (map_option print_int (Some 15)) = [''10 + 5 = 15'']"
  "shown ''10 - 5 = '' (map_option print_int (Some (- 5))) = [''10 - 5 = -5'']"
  by (simp_all add: shown_def print_int_def stream_number.simps digit_def char_of_def bit_0 bit_iff_odd)

text \<open>The monitor prints instance 16 as 0x16.\<close>

lemma instance_printed_in_base_ten:
  assumes "si_instance_id info = 16"
  shows "hd (service_lines info) =
     ''Service 0x'' @ stream_number 16 (unat (si_service_id info)) @ '', Instance 0x16'' @
     '' (v'' @ stream_number 10 (unat (si_major_version info)) @ ''.'' @
     stream_number 10 (unat (si_minor_version info)) @ '')'' @
     '' TTL: '' @ stream_number 10 (unat (si_ttl info)) @ ''s''"
proof -
  have "stream_number 10 16 = ''16''" by (simp add: stream_number.simps digit_def char_of_def bit_0 bit_iff_odd)
  then show ?thesis using assms by (simp add: service_lines_def)
qed

end
