(* ===== verification/Ownership.thy ===== *)
theory Ownership
  imports Prelude "HOL-Library.AList"
begin

text \<open>
  Who owns whom, and which handlers hold whom. Applications own their runtime, skeletons and
  proxies own their application (\<open>shared_ptr\<close>), and users own what they keep pointers to; but the
  lambdas the library registers capture a plain \<open>this\<close>. Several applications, skeletons and
  proxies over one runtime, as a user creates, uses and drops them and as messages arrive. What
  the handlers compute is the subject of the other theories.
\<close>

section \<open>Objects and handler tables\<close>

text \<open>Objects are numbered in the order of their creation; a number is never used again.\<close>

datatype object = App nat | Skeleton nat | Proxy nat

text \<open>
  The lambdas of the library: of \<open>Application::init\<close>, of \<open>ServiceSkeleton::init\<close>, of
  \<open>ServiceProxy::init\<close> and of \<open>ServiceProxy::subscribe_event\<close>; and lambdas of users, which
  capture nothing here.
\<close>

datatype closure =
    On_message nat
  | On_request nat
  | On_available nat
  | On_event nat
  | User_closure

fun captured :: "closure \<Rightarrow> object option" where
  "captured (On_message a) = Some (App a)"
| "captured (On_request k) = Some (Skeleton k)"
| "captured (On_available p) = Some (Proxy p)"
| "captured (On_event p) = Some (Proxy p)"
| "captured User_closure = None"

record handlers =
  hs_methods :: "u16 \<rightharpoonup> closure"
  hs_events :: "u16 \<rightharpoonup> closure"
  hs_available :: "closure option"

definition no_handlers :: handlers where
  "no_handlers = \<lparr>hs_methods = Map.empty, hs_events = Map.empty, hs_available = None\<rparr>"

text \<open>
  The applications alive with their tables, the skeletons and proxies alive with the application
  each owns, the pointers the user holds, the runtime's handlers by service and instance, the
  threads of \<open>call_method_async\<close> with the proxy each uses, and the closures called so far.
\<close>

record owners =
  ow_runtime_held :: bool
  ow_apps :: "(nat \<times> handlers) list"
  ow_skeletons :: "(nat \<times> nat) list"
  ow_proxies :: "(nat \<times> nat) list"
  ow_held :: "nat set"
  ow_service_handlers :: "u16 \<times> u16 \<rightharpoonup> closure"
  ow_async :: "nat list"
  ow_next :: nat
  ow_called :: "closure list"
  ow_fault :: "fault option"

definition own_start :: owners where
  "own_start = \<lparr>ow_runtime_held = True, ow_apps = [], ow_skeletons = [], ow_proxies = [],
     ow_held = {}, ow_service_handlers = Map.empty, ow_async = [], ow_next = 0, ow_called = [],
     ow_fault = None\<rparr>"

fun alive :: "object \<Rightarrow> owners \<Rightarrow> bool" where
  "alive (App a) s \<longleftrightarrow> a \<in> fst ` set (ow_apps s)"
| "alive (Skeleton k) s \<longleftrightarrow> k \<in> fst ` set (ow_skeletons s)"
| "alive (Proxy p) s \<longleftrightarrow> p \<in> fst ` set (ow_proxies s)"

text \<open>Every application holds a \<open>shared_ptr\<close> to the runtime.\<close>

definition runtime_alive :: "owners \<Rightarrow> bool" where
  "runtime_alive s \<longleftrightarrow> ow_runtime_held s \<or> ow_apps s \<noteq> []"

text \<open>The owners of an application.\<close>

definition owned :: "nat \<Rightarrow> owners \<Rightarrow> bool" where
  "owned a s \<longleftrightarrow> a \<in> ow_held s \<or> a \<in> snd ` set (ow_skeletons s) \<or> a \<in> snd ` set (ow_proxies s)"

text \<open>
  A reference to an application is gone: with the last one it is destroyed, and its tables with
  it. Its destructor only stops it, and does not take back what \<open>init\<close> registered with the runtime.
\<close>

definition release_app :: "nat \<Rightarrow> owners \<Rightarrow> owners" where
  "release_app a s = (if owned a s then s else s\<lparr>ow_apps := AList.delete a (ow_apps s)\<rparr>)"

definition app_handlers :: "nat \<Rightarrow> owners \<Rightarrow> handlers option" where
  "app_handlers a s = map_of (ow_apps s) a"

definition set_handlers :: "nat \<Rightarrow> (handlers \<Rightarrow> handlers) \<Rightarrow> owners \<Rightarrow> owners option" where
  "set_handlers a f s = (case app_handlers a s of
     None \<Rightarrow> None
   | Some h \<Rightarrow> Some (s\<lparr>ow_apps := AList.update a (f h) (ow_apps s)\<rparr>))"

section \<open>Operations\<close>

definition make_app :: "owners \<Rightarrow> owners option" where
  "make_app s = (if runtime_alive s
     then Some (s\<lparr>ow_apps := (ow_next s, no_handlers) # ow_apps s, ow_held := insert (ow_next s) (ow_held s),
       ow_next := ow_next s + 1\<rparr>)
     else None)"

definition make_skeleton :: "nat \<Rightarrow> owners \<Rightarrow> owners option" where
  "make_skeleton a s = (if alive (App a) s
     then Some (s\<lparr>ow_skeletons := (ow_next s, a) # ow_skeletons s, ow_next := ow_next s + 1\<rparr>) else None)"

definition make_proxy :: "nat \<Rightarrow> owners \<Rightarrow> owners option" where
  "make_proxy a s = (if alive (App a) s
     then Some (s\<lparr>ow_proxies := (ow_next s, a) # ow_proxies s, ow_next := ow_next s + 1\<rparr>) else None)"

definition own_app_init :: "nat \<Rightarrow> owners \<Rightarrow> owners option" where
  "own_app_init a s = (if alive (App a) s
     then Some (s\<lparr>ow_service_handlers := (ow_service_handlers s)((0, 0) \<mapsto> On_message a)\<rparr>) else None)"

definition own_skeleton_init :: "nat \<Rightarrow> owners \<Rightarrow> owners option" where
  "own_skeleton_init k s = (case map_of (ow_skeletons s) k of
     None \<Rightarrow> None
   | Some a \<Rightarrow> set_handlers a (\<lambda>h. h\<lparr>hs_methods := (hs_methods h)(0 \<mapsto> On_request k)\<rparr>) s)"

definition own_proxy_init :: "nat \<Rightarrow> owners \<Rightarrow> owners option" where
  "own_proxy_init p s = (case map_of (ow_proxies s) p of
     None \<Rightarrow> None
   | Some a \<Rightarrow> Option.bind (set_handlers a (hs_available_update (\<lambda>_. Some (On_available p))) s)
       (own_app_init a))"

text \<open>\<open>unsubscribe_event\<close> takes the user's handler out of the proxy and leaves the closure.\<close>

definition own_subscribe :: "nat \<Rightarrow> u16 \<Rightarrow> owners \<Rightarrow> owners option" where
  "own_subscribe p event s = (case map_of (ow_proxies s) p of
     None \<Rightarrow> None
   | Some a \<Rightarrow> set_handlers a (\<lambda>h. h\<lparr>hs_events := (hs_events h)(event \<mapsto> On_event p)\<rparr>) s)"

definition own_unsubscribe :: "nat \<Rightarrow> u16 \<Rightarrow> owners \<Rightarrow> owners option" where
  "own_unsubscribe p event s = (if alive (Proxy p) s then Some s else None)"

text \<open>What users register themselves, or take out with an empty handler or \<open>unregister\<close>.\<close>

definition users_own :: "bool \<Rightarrow> closure option" where
  "users_own on = (if on then Some User_closure else None)"

definition own_set_method :: "nat \<Rightarrow> u16 \<Rightarrow> bool \<Rightarrow> owners \<Rightarrow> owners option" where
  "own_set_method a m on = set_handlers a (\<lambda>h. h\<lparr>hs_methods := (hs_methods h)(m := users_own on)\<rparr>)"

definition own_set_event :: "nat \<Rightarrow> u16 \<Rightarrow> bool \<Rightarrow> owners \<Rightarrow> owners option" where
  "own_set_event a e on = set_handlers a (\<lambda>h. h\<lparr>hs_events := (hs_events h)(e := users_own on)\<rparr>)"

definition own_set_available :: "nat \<Rightarrow> bool \<Rightarrow> owners \<Rightarrow> owners option" where
  "own_set_available a on = set_handlers a (\<lambda>h. h\<lparr>hs_available := users_own on\<rparr>)"

definition own_set_service :: "u16 \<Rightarrow> u16 \<Rightarrow> bool \<Rightarrow> owners \<Rightarrow> owners option" where
  "own_set_service service inst on s = (if runtime_alive s
     then Some (s\<lparr>ow_service_handlers := (ow_service_handlers s)((service, inst) := users_own on)\<rparr>)
     else None)"

text \<open>
  Dropping the last pointer. A skeleton or proxy is owned by users only, so it is destroyed at
  once, and then its reference to the application is gone.
\<close>

definition drop_app :: "nat \<Rightarrow> owners \<Rightarrow> owners option" where
  "drop_app a s = (if a \<in> ow_held s then Some (release_app a (s\<lparr>ow_held := ow_held s - {a}\<rparr>)) else None)"

definition destroy_skeleton :: "nat \<Rightarrow> owners \<Rightarrow> owners option" where
  "destroy_skeleton k s = (case map_of (ow_skeletons s) k of
     None \<Rightarrow> None
   | Some a \<Rightarrow> Some (release_app a (s\<lparr>ow_skeletons := AList.delete k (ow_skeletons s)\<rparr>)))"

definition destroy_proxy :: "nat \<Rightarrow> owners \<Rightarrow> owners option" where
  "destroy_proxy p s = (case map_of (ow_proxies s) p of
     None \<Rightarrow> None
   | Some a \<Rightarrow> Some (release_app a (s\<lparr>ow_proxies := AList.delete p (ow_proxies s)\<rparr>)))"

text \<open>Calling a lambda uses what it captured.\<close>

definition call_closure :: "closure \<Rightarrow> owners \<Rightarrow> owners" where
  "call_closure c s = (case captured c of
     Some ob \<Rightarrow> if alive ob s then s\<lparr>ow_called := ow_called s @ [c]\<rparr>
       else s\<lparr>ow_fault := Some Use_after_free\<rparr>
   | None \<Rightarrow> s\<lparr>ow_called := ow_called s @ [c]\<rparr>)"

definition call_some :: "closure option \<Rightarrow> owners \<Rightarrow> owners" where
  "call_some c s = (case c of None \<Rightarrow> s | Some c \<Rightarrow> call_closure c s)"

text \<open>\<open>Application::handle_message\<close>: a response meets a promise and calls nobody.\<close>

datatype arrival = Response_arrives | Event_arrives u16 | Request_arrives u16

fun handler_for :: "arrival \<Rightarrow> handlers \<Rightarrow> closure option" where
  "handler_for Response_arrives h = None"
| "handler_for (Event_arrives e) h = hs_events h e"
| "handler_for (Request_arrives m) h = hs_methods h m"

definition own_handle :: "nat \<Rightarrow> arrival \<Rightarrow> owners \<Rightarrow> owners option" where
  "own_handle a m s = (case app_handlers a s of
     None \<Rightarrow> None | Some h \<Rightarrow> Some (call_some (handler_for m h) s))"

definition own_available :: "nat \<Rightarrow> owners \<Rightarrow> owners option" where
  "own_available a s = (case app_handlers a s of
     None \<Rightarrow> None | Some h \<Rightarrow> Some (call_some (hs_available h) s))"

text \<open>
  A message the runtime routes, by its service and instance: with the closure of \<open>init\<close> it goes on to
  the application. \<open>deserialize\<close> never sets the instance, and a reassembled message takes that of its
  segments, so that what arrives has the initial one, 0xFFFF (\<open>RuntimeRuns\<close>).
\<close>

definition own_deliver :: "u16 \<Rightarrow> u16 \<Rightarrow> arrival \<Rightarrow> owners \<Rightarrow> owners option" where
  "own_deliver service inst m s = (if \<not> runtime_alive s then None
     else case ow_service_handlers s (service, inst) of
       None \<Rightarrow> Some s
     | Some (On_message a) \<Rightarrow>
         if alive (App a) s then own_handle a m (call_closure (On_message a) s)
         else Some (call_closure (On_message a) s)
     | Some c \<Rightarrow> Some (call_closure c s))"

text \<open>\<open>call_method_async\<close> starts a thread over the proxy; later it runs \<open>call_method\<close> on it.\<close>

definition own_call_async :: "nat \<Rightarrow> owners \<Rightarrow> owners option" where
  "own_call_async p s = (if alive (Proxy p) s then Some (s\<lparr>ow_async := p # ow_async s\<rparr>) else None)"

definition own_async_runs :: "nat \<Rightarrow> owners \<Rightarrow> owners option" where
  "own_async_runs p s = (if p \<notin> set (ow_async s) then None
     else if alive (Proxy p) s then Some (s\<lparr>ow_async := remove1 p (ow_async s)\<rparr>)
     else Some (s\<lparr>ow_fault := Some Use_after_free\<rparr>))"

datatype own_event =
    Make_app
  | Make_skeleton nat
  | Make_proxy nat
  | Init_app nat
  | Init_skeleton nat
  | Init_proxy nat
  | Subscribe nat u16
  | Unsubscribe nat u16
  | Set_method nat u16 bool
  | Set_event nat u16 bool
  | Set_available nat bool
  | Set_service u16 u16 bool
  | Drop_runtime
  | Drop_app nat
  | Drop_skeleton nat
  | Drop_proxy nat
  | Deliver u16 arrival
  | Handle nat arrival
  | Available nat
  | Call_async nat
  | Async_runs nat

text \<open>A step is possible when the user has what it takes, and before any fault.\<close>

fun own_event_step :: "own_event \<Rightarrow> owners \<Rightarrow> owners option" where
  "own_event_step Make_app = make_app"
| "own_event_step (Make_skeleton a) = make_skeleton a"
| "own_event_step (Make_proxy a) = make_proxy a"
| "own_event_step (Init_app a) = own_app_init a"
| "own_event_step (Init_skeleton k) = own_skeleton_init k"
| "own_event_step (Init_proxy p) = own_proxy_init p"
| "own_event_step (Subscribe p e) = own_subscribe p e"
| "own_event_step (Unsubscribe p e) = own_unsubscribe p e"
| "own_event_step (Set_method a m c) = own_set_method a m c"
| "own_event_step (Set_event a e c) = own_set_event a e c"
| "own_event_step (Set_available a c) = own_set_available a c"
| "own_event_step (Set_service service inst c) = own_set_service service inst c"
| "own_event_step Drop_runtime = (\<lambda>s. Some (s\<lparr>ow_runtime_held := False\<rparr>))"
| "own_event_step (Drop_app a) = drop_app a"
| "own_event_step (Drop_skeleton k) = destroy_skeleton k"
| "own_event_step (Drop_proxy p) = destroy_proxy p"
| "own_event_step (Deliver service m) = own_deliver service 0xFFFF m"
| "own_event_step (Handle a m) = own_handle a m"
| "own_event_step (Available a) = own_available a"
| "own_event_step (Call_async p) = own_call_async p"
| "own_event_step (Async_runs p) = own_async_runs p"

fun own_run :: "own_event list \<Rightarrow> owners \<Rightarrow> owners option" where
  "own_run [] s = Some s"
| "own_run (e # es) s = (if ow_fault s = None then Option.bind (own_event_step e s) (own_run es)
     else None)"

section \<open>Ownership is counted right\<close>

definition own_ok :: "owners \<Rightarrow> bool" where
  "own_ok s \<longleftrightarrow> distinct (map fst (ow_apps s)) \<and> distinct (map fst (ow_skeletons s)) \<and>
     distinct (map fst (ow_proxies s)) \<and> (\<forall>a. alive (App a) s \<longleftrightarrow> owned a s) \<and>
     (\<forall>n. alive (App n) s \<or> alive (Skeleton n) s \<or> alive (Proxy n) s \<longrightarrow> n < ow_next s)"

lemmas own_defs = make_app_def make_skeleton_def make_proxy_def own_app_init_def own_skeleton_init_def
  own_proxy_init_def own_subscribe_def own_unsubscribe_def own_set_method_def own_set_event_def
  own_set_available_def own_set_service_def drop_app_def destroy_skeleton_def destroy_proxy_def
  own_deliver_def own_handle_def own_available_def own_call_async_def own_async_runs_def

text \<open>What most steps leave alone.\<close>

definition same_owners :: "owners \<Rightarrow> owners \<Rightarrow> bool" where
  "same_owners s t \<longleftrightarrow> map fst (ow_apps t) = map fst (ow_apps s) \<and> ow_skeletons t = ow_skeletons s \<and>
     ow_proxies t = ow_proxies s \<and> ow_held t = ow_held s \<and> ow_next t = ow_next s"

lemma same_owners_trans: "same_owners s t \<Longrightarrow> same_owners t u \<Longrightarrow> same_owners s u"
  by (simp add: same_owners_def)

lemma same_owners_refl [simp]: "same_owners s s"
  by (simp add: same_owners_def)

lemma same_owners_alive: "same_owners s t \<Longrightarrow> alive ob t \<longleftrightarrow> alive ob s"
  by (cases ob) (simp_all add: same_owners_def flip: set_map)

lemma same_owners_owned: "same_owners s t \<Longrightarrow> owned a t \<longleftrightarrow> owned a s"
  by (simp add: same_owners_def owned_def)

lemma same_owners_ok: "same_owners s t \<Longrightarrow> own_ok s \<Longrightarrow> own_ok t"
  unfolding own_ok_def same_owners_alive same_owners_owned by (auto simp: same_owners_def)

lemma app_handlers_alive: "app_handlers a s = Some h \<Longrightarrow> a \<in> fst ` set (ow_apps s)"
  by (force simp: app_handlers_def dest: map_of_SomeD)

lemma set_handlers_same: "set_handlers a f s = Some t \<Longrightarrow> same_owners s t"
  by (auto simp: set_handlers_def same_owners_def update_keys dest: app_handlers_alive split: option.splits)

lemma call_closure_same: "same_owners s (call_closure c s)"
  by (auto simp: call_closure_def same_owners_def split: option.split)

lemma call_some_same: "same_owners s (call_some c s)"
  by (auto simp: call_some_def call_closure_same split: option.split)

lemma handle_same: "own_handle a m s = Some t \<Longrightarrow> same_owners s t"
  by (auto simp: own_handle_def call_some_same split: option.splits)

fun keeps_owners :: "own_event \<Rightarrow> bool" where
  "keeps_owners Make_app = False"
| "keeps_owners (Make_skeleton a) = False"
| "keeps_owners (Make_proxy a) = False"
| "keeps_owners (Drop_app a) = False"
| "keeps_owners (Drop_skeleton k) = False"
| "keeps_owners (Drop_proxy p) = False"
| "keeps_owners _ = True"

lemma same_owners_update [simp]:
  "same_owners s (s\<lparr>ow_service_handlers := hs\<rparr>)" "same_owners s (s\<lparr>ow_runtime_held := b\<rparr>)"
  "same_owners s (s\<lparr>ow_async := ps\<rparr>)" "same_owners s (s\<lparr>ow_fault := x\<rparr>)"
  by (simp_all add: same_owners_def)

lemma app_init_same: "own_app_init a s = Some t \<Longrightarrow> same_owners s t"
  by (auto simp: own_app_init_def split: if_splits)

lemma step_same: "own_event_step e s = Some t \<Longrightarrow> keeps_owners e \<Longrightarrow> same_owners s t"
  by (cases e)
    (auto simp: own_defs(4-12) own_defs(16-20) bind_eq_Some_conv call_some_same call_closure_same
      split: option.splits if_splits closure.splits
      intro: set_handlers_same app_init_same same_owners_trans same_owners_trans [OF call_closure_same call_some_same])

text \<open>
  Losing a reference: if everything but application \<open>a\<close> is counted right, then so is all after
  \<open>release_app\<close>.
\<close>

lemma delete_keys: "fst ` set (AList.delete k xs) = fst ` set xs - {k}"
  using dom_map_of_conv_image_fst [of "AList.delete k xs"] dom_map_of_conv_image_fst [of xs]
  by (simp add: delete_conv' dom_fun_upd)

lemma delete_values:
  assumes "map_of xs k = Some a" and "distinct (map fst xs)" and "b \<noteq> a"
  shows "b \<in> snd ` set (AList.delete k xs) \<longleftrightarrow> b \<in> snd ` set xs"
proof
  assume "b \<in> snd ` set xs"
  then obtain j where "(j, b) \<in> set xs" by force
  moreover from this have "j \<noteq> k" by (metis assms map_of_is_SomeI option.inject)
  ultimately show "b \<in> snd ` set (AList.delete k xs)" by (force simp: AList.delete_eq)
qed (auto simp: AList.delete_eq)

definition counted_but :: "nat \<Rightarrow> owners \<Rightarrow> bool" where
  "counted_but a s \<longleftrightarrow> distinct (map fst (ow_apps s)) \<and> distinct (map fst (ow_skeletons s)) \<and>
     distinct (map fst (ow_proxies s)) \<and> alive (App a) s \<and>
     (\<forall>b. b \<noteq> a \<longrightarrow> alive (App b) s \<longleftrightarrow> owned b s) \<and>
     (\<forall>n. alive (App n) s \<or> alive (Skeleton n) s \<or> alive (Proxy n) s \<longrightarrow> n < ow_next s)"

lemma release_ok:
  assumes "counted_but a s"
  shows "own_ok (release_app a s)"
proof (cases "owned a s")
  case True
  then have "alive (App b) s \<longleftrightarrow> owned b s" for b
    using assms by (cases "b = a") (simp_all del: alive.simps add: counted_but_def)
  then show ?thesis using True assms by (simp del: alive.simps add: own_ok_def counted_but_def release_app_def)
next
  case False
  let ?t = "s\<lparr>ow_apps := AList.delete a (ow_apps s)\<rparr>"
  have t: "owned b ?t \<longleftrightarrow> owned b s" "alive (App b) ?t \<longleftrightarrow> alive (App b) s \<and> b \<noteq> a"
    "alive (Skeleton b) ?t = alive (Skeleton b) s" "alive (Proxy b) ?t = alive (Proxy b) s" for b
    by (auto simp: owned_def delete_keys)
  have "own_ok ?t" using assms False unfolding own_ok_def t
    by (auto simp del: alive.simps simp: counted_but_def distinct_delete)
  then show ?thesis using False by (simp add: release_app_def)
qed

lemma destroy_skeleton_ok:
  assumes "own_ok s" and "destroy_skeleton k s = Some t"
  shows "own_ok t"
proof -
  obtain a where a: "map_of (ow_skeletons s) k = Some a"
    "t = release_app a (s\<lparr>ow_skeletons := AList.delete k (ow_skeletons s)\<rparr>)" (is "t = release_app a ?s")
    using assms(2) by (auto simp: destroy_skeleton_def split: option.splits)
  have "owned a s" using map_of_SomeD [OF a(1)] by (force simp: owned_def)
  moreover have "alive (App b) ?s = alive (App b) s" "alive (Proxy b) ?s = alive (Proxy b) s"
    "alive (Skeleton b) ?s \<longleftrightarrow> alive (Skeleton b) s \<and> b \<noteq> k"
    "b \<noteq> a \<Longrightarrow> owned b ?s \<longleftrightarrow> owned b s" for b
    using assms(1) delete_values [OF a(1), of b] by (auto simp: owned_def own_ok_def delete_keys)
  ultimately have "counted_but a ?s" using assms(1)
    by (auto simp del: alive.simps simp: counted_but_def own_ok_def distinct_delete)
  then show ?thesis unfolding a(2) by (rule release_ok)
qed

lemma destroy_proxy_ok:
  assumes "own_ok s" and "destroy_proxy p s = Some t"
  shows "own_ok t"
proof -
  obtain a where a: "map_of (ow_proxies s) p = Some a"
    "t = release_app a (s\<lparr>ow_proxies := AList.delete p (ow_proxies s)\<rparr>)" (is "t = release_app a ?s")
    using assms(2) by (auto simp: destroy_proxy_def split: option.splits)
  have "owned a s" using map_of_SomeD [OF a(1)] by (force simp: owned_def)
  moreover have "alive (App b) ?s = alive (App b) s" "alive (Skeleton b) ?s = alive (Skeleton b) s"
    "alive (Proxy b) ?s \<longleftrightarrow> alive (Proxy b) s \<and> b \<noteq> p"
    "b \<noteq> a \<Longrightarrow> owned b ?s \<longleftrightarrow> owned b s" for b
    using assms(1) delete_values [OF a(1), of b] by (auto simp: owned_def own_ok_def delete_keys)
  ultimately have "counted_but a ?s" using assms(1)
    by (auto simp del: alive.simps simp: counted_but_def own_ok_def distinct_delete)
  then show ?thesis unfolding a(2) by (rule release_ok)
qed

lemma drop_app_ok:
  assumes "own_ok s" and "drop_app a s = Some t"
  shows "own_ok t"
proof -
  have a: "a \<in> ow_held s" "t = release_app a (s\<lparr>ow_held := ow_held s - {a}\<rparr>)" (is "t = release_app a ?s")
    using assms(2) by (auto simp: drop_app_def split: if_splits)
  have "owned a s" using a(1) by (simp add: owned_def)
  moreover have "alive ob ?s = alive ob s" for ob by (cases ob) simp_all
  moreover have "b \<noteq> a \<Longrightarrow> owned b ?s \<longleftrightarrow> owned b s" for b by (simp add: owned_def)
  ultimately have "counted_but a ?s" using assms(1)
    by (auto simp del: alive.simps simp: counted_but_def own_ok_def)
  then show ?thesis unfolding a(2) by (rule release_ok)
qed

lemma make_app_ok:
  assumes "own_ok s" and "make_app s = Some t"
  shows "own_ok t"
proof -
  have t: "t = s\<lparr>ow_apps := (ow_next s, no_handlers) # ow_apps s, ow_held := insert (ow_next s) (ow_held s),
      ow_next := ow_next s + 1\<rparr>"
    using assms(2) by (simp add: make_app_def split: if_splits)
  have f: "\<not> alive (App (ow_next s)) s" using assms(1) unfolding own_ok_def by blast
  have "alive (App b) t \<longleftrightarrow> b = ow_next s \<or> alive (App b) s" "alive (Skeleton b) t = alive (Skeleton b) s"
    "alive (Proxy b) t = alive (Proxy b) s" "owned b t \<longleftrightarrow> b = ow_next s \<or> owned b s" for b
    by (auto simp: t owned_def)
  moreover have "distinct (map fst (ow_apps t)) \<longleftrightarrow> distinct (map fst (ow_apps s))"
    "ow_skeletons t = ow_skeletons s" "ow_proxies t = ow_proxies s" "ow_next t = Suc (ow_next s)"
    using f by (simp_all add: t)
  ultimately show ?thesis using assms(1)
    by (auto simp del: alive.simps simp: own_ok_def less_Suc_eq)
qed

lemma make_skeleton_ok:
  assumes "own_ok s" and "make_skeleton a s = Some t"
  shows "own_ok t"
proof -
  have t: "alive (App a) s" "t = s\<lparr>ow_skeletons := (ow_next s, a) # ow_skeletons s, ow_next := ow_next s + 1\<rparr>"
    using assms(2) by (simp_all add: make_skeleton_def split: if_splits)
  have f: "\<not> alive (Skeleton (ow_next s)) s" "owned a s" using assms(1) t(1) unfolding own_ok_def by blast+
  have "alive (App b) t = alive (App b) s" "alive (Skeleton b) t \<longleftrightarrow> b = ow_next s \<or> alive (Skeleton b) s"
    "alive (Proxy b) t = alive (Proxy b) s" "owned b t \<longleftrightarrow> owned b s" for b
    using f(2) by (auto simp: t(2) owned_def)
  moreover have "distinct (map fst (ow_skeletons t)) \<longleftrightarrow> distinct (map fst (ow_skeletons s))"
    "ow_apps t = ow_apps s" "ow_proxies t = ow_proxies s" "ow_next t = Suc (ow_next s)"
    using f(1) by (simp_all add: t(2))
  ultimately show ?thesis using assms(1)
    by (auto simp del: alive.simps simp: own_ok_def less_Suc_eq)
qed

lemma make_proxy_ok:
  assumes "own_ok s" and "make_proxy a s = Some t"
  shows "own_ok t"
proof -
  have t: "alive (App a) s" "t = s\<lparr>ow_proxies := (ow_next s, a) # ow_proxies s, ow_next := ow_next s + 1\<rparr>"
    using assms(2) by (simp_all add: make_proxy_def split: if_splits)
  have f: "\<not> alive (Proxy (ow_next s)) s" "owned a s" using assms(1) t(1) unfolding own_ok_def by blast+
  have "alive (App b) t = alive (App b) s" "alive (Proxy b) t \<longleftrightarrow> b = ow_next s \<or> alive (Proxy b) s"
    "alive (Skeleton b) t = alive (Skeleton b) s" "owned b t \<longleftrightarrow> owned b s" for b
    using f(2) by (auto simp: t(2) owned_def)
  moreover have "distinct (map fst (ow_proxies t)) \<longleftrightarrow> distinct (map fst (ow_proxies s))"
    "ow_apps t = ow_apps s" "ow_skeletons t = ow_skeletons s" "ow_next t = Suc (ow_next s)"
    using f(1) by (simp_all add: t(2))
  ultimately show ?thesis using assms(1)
    by (auto simp del: alive.simps simp: own_ok_def less_Suc_eq)
qed

lemma own_step_ok:
  assumes "own_ok s" and "own_event_step e s = Some t"
  shows "own_ok t"
proof (cases "keeps_owners e")
  case True
  then show ?thesis using step_same [OF assms(2)] same_owners_ok assms(1) by blast
next
  case False
  then show ?thesis using assms
    by (cases e) (auto intro: make_app_ok make_skeleton_ok make_proxy_ok drop_app_ok
        destroy_skeleton_ok destroy_proxy_ok)
qed

lemma own_run_ok: "own_run es s = Some t \<Longrightarrow> own_ok s \<Longrightarrow> own_ok t"
  by (induction es arbitrary: s)
    (auto simp del: own_event_step.simps simp: bind_eq_Some_conv split: if_splits dest: own_step_ok)

lemma own_ok_start: "own_ok own_start"
  by (simp add: own_ok_def own_start_def owned_def)

text \<open> An application lives exactly as long as somebody owns it. After any sequence of creating,
  initializing, using and dropping applications, skeletons and proxies over a runtime, an
  application is alive if and only if the user holds a pointer to it or a living skeleton or
  proxy does: none is destroyed under its skeletons and proxies, and none is left over. \<close>

theorem applications_live_while_owned:
  assumes "own_run es own_start = Some s"
  shows "alive (App a) s \<longleftrightarrow> a \<in> ow_held s \<or> a \<in> snd ` set (ow_skeletons s) \<or> a \<in> snd ` set (ow_proxies s)"
proof -
  have "own_ok s" using own_run_ok [OF assms own_ok_start] .
  then show ?thesis by (simp add: own_ok_def owned_def)
qed

text \<open>A skeleton as users write it: made and initialized.\<close>

definition plain_use :: "own_event list" where
  "plain_use = [Make_app, Init_app 0, Make_skeleton 0, Init_skeleton 1]"

theorem applications_live_while_owned_witness:
  "\<exists>s. own_run (plain_use @ [Drop_app 0, Drop_skeleton 1]) own_start = Some s \<and> \<not> alive (App 0) s"
proof -
  obtain s where s: "own_run (plain_use @ [Drop_app 0, Drop_skeleton 1]) own_start = Some s"
    "ow_held s = {}" "ow_skeletons s = []" "ow_proxies s = []"
    by (simp add: plain_use_def own_start_def own_defs set_handlers_def app_handlers_def
        runtime_alive_def no_handlers_def release_app_def owned_def)
  then show ?thesis using applications_live_while_owned [OF s(1), of 0] by simp
qed

section \<open>Handlers and the objects they capture\<close>

text \<open>
  A drop is tidy when no closure that can still be called captures what it destroys: the skeleton's
  dispatcher, the proxy's closures and threads. The application's own entry in the runtime, under
  service 0 and instance 0, does not count: no message that arrives is looked up there.
\<close>

fun tidy :: "own_event \<Rightarrow> owners \<Rightarrow> owners \<Rightarrow> bool" where
  "tidy (Drop_skeleton k) s t \<longleftrightarrow> (\<forall>a h m. map_of (ow_skeletons s) k = Some a \<longrightarrow>
     app_handlers a t = Some h \<longrightarrow> hs_methods h m \<noteq> Some (On_request k))"
| "tidy (Drop_proxy p) s t \<longleftrightarrow> p \<notin> set (ow_async t) \<and>
     (\<forall>a h. map_of (ow_proxies s) p = Some a \<longrightarrow> app_handlers a t = Some h \<longrightarrow>
        hs_available h \<noteq> Some (On_available p) \<and> (\<forall>e. hs_events h e \<noteq> Some (On_event p)))"
| "tidy _ s t \<longleftrightarrow> True"

fun tidy_run :: "own_event list \<Rightarrow> owners \<Rightarrow> bool" where
  "tidy_run [] s \<longleftrightarrow> True"
| "tidy_run (e # es) s \<longleftrightarrow> (\<forall>t. own_event_step e s = Some t \<longrightarrow> tidy e s t \<and> tidy_run es t)"

text \<open>
  Every closure that can be called captures an object that is alive, in its own application; the
  runtime calls only users' closures.
\<close>

definition table_clean :: "owners \<Rightarrow> nat \<Rightarrow> handlers \<Rightarrow> bool" where
  "table_clean s a h \<longleftrightarrow>
     (\<forall>m c. hs_methods h m = Some c \<longrightarrow>
        c = User_closure \<or> (\<exists>k. c = On_request k \<and> map_of (ow_skeletons s) k = Some a)) \<and>
     (\<forall>e c. hs_events h e = Some c \<longrightarrow>
        c = User_closure \<or> (\<exists>p. c = On_event p \<and> map_of (ow_proxies s) p = Some a)) \<and>
     (\<forall>c. hs_available h = Some c \<longrightarrow>
        c = User_closure \<or> (\<exists>p. c = On_available p \<and> map_of (ow_proxies s) p = Some a))"

definition service_clean :: "owners \<Rightarrow> bool" where
  "service_clean s \<longleftrightarrow>
     (\<forall>service c. ow_service_handlers s (service, 0xFFFF) = Some c \<longrightarrow> c = User_closure)"

definition clean :: "owners \<Rightarrow> bool" where
  "clean s \<longleftrightarrow> ow_fault s = None \<and> service_clean s \<and> (\<forall>p \<in> set (ow_async s). alive (Proxy p) s) \<and>
     (\<forall>a h. app_handlers a s = Some h \<longrightarrow> table_clean s a h)"

lemma clean_start: "clean own_start"
  by (simp add: clean_def own_start_def service_clean_def app_handlers_def)

lemma map_of_alive: "map_of (ow_skeletons s) k = Some a \<Longrightarrow> alive (Skeleton k) s"
  "map_of (ow_proxies s) p = Some a \<Longrightarrow> alive (Proxy p) s"
  by (force dest: map_of_SomeD)+

lemma table_clean_alive:
  assumes "table_clean s a h" and "hs_methods h m = Some c \<or> hs_events h e = Some c \<or> hs_available h = Some c"
    and "captured c = Some ob"
  shows "alive ob s"
proof -
  consider "c = User_closure" | k where "c = On_request k" "map_of (ow_skeletons s) k = Some a"
    | p where "c = On_event p \<or> c = On_available p" "map_of (ow_proxies s) p = Some a"
    using assms(1,2) unfolding table_clean_def by blast
  then show ?thesis using assms(3) map_of_alive by cases auto
qed

lemma table_cleanD:
  "table_clean s a h \<Longrightarrow> hs_methods h m = Some (On_request k) \<Longrightarrow> map_of (ow_skeletons s) k = Some a"
  "table_clean s a h \<Longrightarrow> hs_events h e = Some (On_event p) \<Longrightarrow> map_of (ow_proxies s) p = Some a"
  "table_clean s a h \<Longrightarrow> hs_available h = Some (On_available p) \<Longrightarrow> map_of (ow_proxies s) p = Some a"
  unfolding table_clean_def by blast+

lemma table_clean_change:
  assumes "table_clean s a h"
    and "\<And>m k. hs_methods h m = Some (On_request k) \<Longrightarrow> map_of (ow_skeletons t) k = map_of (ow_skeletons s) k"
    and "\<And>e p. hs_events h e = Some (On_event p) \<Longrightarrow> map_of (ow_proxies t) p = map_of (ow_proxies s) p"
    and "\<And>p. hs_available h = Some (On_available p) \<Longrightarrow> map_of (ow_proxies t) p = map_of (ow_proxies s) p"
  shows "table_clean t a h"
  using assms unfolding table_clean_def by metis

text \<open>In a clean state no call faults, and calls change nothing a clean state speaks about.\<close>

lemma call_alive:
  assumes "\<And>ob. captured c = Some ob \<Longrightarrow> alive ob s"
  shows "call_closure c s = s\<lparr>ow_called := ow_called s @ [c]\<rparr>"
  using assms by (auto simp: call_closure_def split: option.split)

lemma clean_called [simp]: "clean (s\<lparr>ow_called := cs\<rparr>) \<longleftrightarrow> clean s"
proof -
  have "alive ob (s\<lparr>ow_called := cs\<rparr>) \<longleftrightarrow> alive ob s" for ob by (cases ob) simp_all
  then show ?thesis
    by (simp del: alive.simps add: clean_def service_clean_def table_clean_def app_handlers_def runtime_alive_def)
qed

lemma clean_handle:
  assumes "clean s" and "own_handle a m s = Some t"
  shows "clean t"
proof -
  obtain h where h: "app_handlers a s = Some h" "t = call_some (handler_for m h) s"
    using assms(2) by (auto simp: own_handle_def split: option.splits)
  have tc: "table_clean s a h" using assms(1) h(1) by (simp add: clean_def)
  show ?thesis
  proof (cases "handler_for m h")
    case (Some c)
    then have "\<exists>i e. hs_methods h i = Some c \<or> hs_events h e = Some c" by (cases m) auto
    then have "call_closure c s = s\<lparr>ow_called := ow_called s @ [c]\<rparr>"
      using table_clean_alive [OF tc] by (intro call_alive) blast
    then show ?thesis using Some h(2) assms(1) by (simp add: call_some_def)
  qed (use h(2) assms(1) in \<open>simp add: call_some_def\<close>)
qed

lemma clean_available:
  assumes "clean s" and "own_available a s = Some t"
  shows "clean t"
proof -
  obtain h where h: "app_handlers a s = Some h" "t = call_some (hs_available h) s"
    using assms(2) by (auto simp: own_available_def split: option.splits)
  have tc: "table_clean s a h" using assms(1) h(1) by (simp add: clean_def)
  show ?thesis
  proof (cases "hs_available h")
    case (Some c)
    then have "call_closure c s = s\<lparr>ow_called := ow_called s @ [c]\<rparr>"
      using table_clean_alive [OF tc] by (intro call_alive) blast
    then show ?thesis using Some h(2) assms(1) by (simp add: call_some_def)
  qed (use h(2) assms(1) in \<open>simp add: call_some_def\<close>)
qed

lemma clean_deliver:
  assumes "clean s" and "own_deliver service 0xFFFF m s = Some t"
  shows "clean t"
proof (cases "ow_service_handlers s (service, 0xFFFF)")
  case (Some c)
  then have "c = User_closure" using assms(1) unfolding clean_def service_clean_def by blast
  then have "t = s\<lparr>ow_called := ow_called s @ [c]\<rparr>"
    using assms(2) Some by (simp add: own_deliver_def call_closure_def split: if_splits)
  then show ?thesis using assms(1) by simp
qed (use assms in \<open>simp add: own_deliver_def split: if_splits\<close>)

text \<open>Registering: the table of one application changes.\<close>

lemma clean_set_handlers:
  assumes "clean s" and "set_handlers a f s = Some t"
    and "\<And>h. table_clean s a h \<Longrightarrow> table_clean s a (f h)"
  shows "clean t"
proof -
  obtain h where h: "app_handlers a s = Some h" "t = s\<lparr>ow_apps := AList.update a (f h) (ow_apps s)\<rparr>"
    using assms(2) by (auto simp: set_handlers_def split: option.splits)
  have same: "same_owners s t" using assms(2) by (rule set_handlers_same)
  have al: "alive ob t \<longleftrightarrow> alive ob s" for ob using same by (rule same_owners_alive)
  have "table_clean t b h' \<longleftrightarrow> table_clean s b h'" for b h' by (simp add: h(2) table_clean_def)
  moreover have "app_handlers b t = (if b = a then Some (f h) else app_handlers b s)" for b
    by (simp add: h(2) app_handlers_def update_conv')
  ultimately show ?thesis using assms(1,3) h
    unfolding clean_def service_clean_def al by auto
qed

lemma table_clean_update [simp]:
  "table_clean (s\<lparr>ow_service_handlers := hs\<rparr>) a h = table_clean s a h"
  "table_clean (s\<lparr>ow_async := ps\<rparr>) a h = table_clean s a h"
  "table_clean (s\<lparr>ow_runtime_held := b\<rparr>) a h = table_clean s a h"
  "app_handlers a (s\<lparr>ow_service_handlers := hs\<rparr>) = app_handlers a s"
  "app_handlers a (s\<lparr>ow_async := ps\<rparr>) = app_handlers a s"
  "app_handlers a (s\<lparr>ow_runtime_held := b\<rparr>) = app_handlers a s"
  by (simp_all add: table_clean_def app_handlers_def)

lemma alive_update [simp]:
  "alive ob (s\<lparr>ow_service_handlers := hs\<rparr>) = alive ob s" "alive ob (s\<lparr>ow_async := ps\<rparr>) = alive ob s"
  "alive ob (s\<lparr>ow_runtime_held := b\<rparr>) = alive ob s"
  by (cases ob; simp)+

lemma clean_app_init: "clean s \<Longrightarrow> own_app_init a s = Some t \<Longrightarrow> clean t"
  by (auto simp del: alive.simps simp: clean_def service_clean_def own_app_init_def split: if_splits)

text \<open>Creating: nothing captures the new number, as what is captured is alive.\<close>

lemma clean_mono:
  assumes "clean s" and "own_ok s"
    and "ow_service_handlers t = ow_service_handlers s" and "ow_async t = ow_async s" and "ow_fault t = ow_fault s"
    and "\<And>ob. alive ob s \<Longrightarrow> alive ob t"
    and "\<And>k. alive (Skeleton k) s \<Longrightarrow> map_of (ow_skeletons t) k = map_of (ow_skeletons s) k"
    and "\<And>p. alive (Proxy p) s \<Longrightarrow> map_of (ow_proxies t) p = map_of (ow_proxies s) p"
    and "\<And>b h. app_handlers b t = Some h \<Longrightarrow> h = no_handlers \<or> app_handlers b s = Some h"
  shows "clean t"
proof -
  have "table_clean t b h" if "app_handlers b t = Some h" for b h
  proof (cases "h = no_handlers")
    case False
    then have "app_handlers b s = Some h" using assms(9) that by blast
    then have "table_clean s b h" using assms(1) unfolding clean_def by blast
    then show ?thesis using assms(7,8) map_of_alive unfolding table_clean_def by metis
  qed (simp add: table_clean_def no_handlers_def)
  then show ?thesis using assms(1,3-6) unfolding clean_def service_clean_def by metis
qed

lemma clean_make:
  assumes "clean s" and "own_ok s" and "e \<in> {Make_app, Make_skeleton a, Make_proxy a}"
    and "own_event_step e s = Some t"
  shows "clean t"
proof -
  have f: "\<not> alive (App (ow_next s)) s" "\<not> alive (Skeleton (ow_next s)) s" "\<not> alive (Proxy (ow_next s)) s"
    using assms(2) unfolding own_ok_def by blast+
  have al: "alive ob s \<Longrightarrow> alive ob t" for ob
    using assms(3,4) by (cases ob) (force simp: own_defs(1-3) split: if_splits)+
  have "(ow_next s, b) \<notin> set (ow_skeletons s)" "(ow_next s, b) \<notin> set (ow_proxies s)" for b
    using f by force+
  then show ?thesis
    by (intro clean_mono [OF assms(1,2) _ _ _ al])
      (use assms(3,4) in \<open>auto simp: own_defs(1-3) runtime_alive_def app_handlers_def split: if_splits\<close>)
qed

text \<open>Dropping tidily.\<close>

lemma release_fields [simp]:
  "ow_skeletons (release_app a s) = ow_skeletons s" "ow_proxies (release_app a s) = ow_proxies s"
  "ow_async (release_app a s) = ow_async s" "ow_service_handlers (release_app a s) = ow_service_handlers s"
  "ow_fault (release_app a s) = ow_fault s" "ow_runtime_held (release_app a s) = ow_runtime_held s"
  by (simp_all add: release_app_def)

lemma release_handlers: "app_handlers b (release_app a s) = Some h \<Longrightarrow> app_handlers b s = Some h"
  by (auto simp: release_app_def app_handlers_def delete_conv' split: if_splits)

lemma clean_drop:
  assumes "clean s" and "t = release_app a u"
    and "ow_apps u = ow_apps s" and "ow_service_handlers u = ow_service_handlers s"
    and "ow_fault u = ow_fault s" and "\<forall>p \<in> set (ow_async u). alive (Proxy p) u"
    and "\<And>b h. app_handlers b t = Some h \<Longrightarrow> table_clean s b h \<Longrightarrow> table_clean u b h"
  shows "clean t"
proof -
  have "service_clean t" using assms(1,2,4) by (simp add: clean_def service_clean_def)
  moreover have "table_clean t b h" if "app_handlers b t = Some h" for b h
  proof -
    have "app_handlers b s = Some h"
      using release_handlers [of b a u h] that assms(2,3) by (simp add: app_handlers_def)
    then have "table_clean u b h" using assms(1,7) that by (simp add: clean_def)
    then show ?thesis by (simp add: assms(2) table_clean_def)
  qed
  ultimately show ?thesis using assms(1,2,5,6) by (simp add: clean_def)
qed

lemma clean_skeleton_drop:
  assumes "clean s" and "own_ok s" and "destroy_skeleton k s = Some t" and "tidy (Drop_skeleton k) s t"
  shows "clean t"
proof -
  obtain a where a: "map_of (ow_skeletons s) k = Some a"
    "t = release_app a (s\<lparr>ow_skeletons := AList.delete k (ow_skeletons s)\<rparr>)" (is "t = release_app a ?u")
    using assms(3) by (auto simp: destroy_skeleton_def split: option.splits)
  have not_k: "app_handlers a t = Some h \<Longrightarrow> hs_methods h m \<noteq> Some (On_request k)" for h m
    using assms(4) a(1) by auto
  have "table_clean ?u b h" if "app_handlers b t = Some h" "table_clean s b h" for b h
  proof -
    have "hs_methods h m \<noteq> Some (On_request k)" for m
      using that a(1) not_k table_cleanD(1) [OF that(2)] by (cases "b = a") auto
    then show ?thesis by (intro table_clean_change [OF that(2)]) (auto simp: delete_conv')
  qed
  then show ?thesis
    using assms(1) by (intro clean_drop [OF assms(1) a(2)]) (auto simp: clean_def)
qed

lemma clean_proxy_drop:
  assumes "clean s" and "own_ok s" and "destroy_proxy p s = Some t" and "tidy (Drop_proxy p) s t"
  shows "clean t"
proof -
  obtain a where a: "map_of (ow_proxies s) p = Some a"
    "t = release_app a (s\<lparr>ow_proxies := AList.delete p (ow_proxies s)\<rparr>)" (is "t = release_app a ?u")
    using assms(3) by (auto simp: destroy_proxy_def split: option.splits)
  have at: "p \<notin> set (ow_async t)"
    and not_p: "app_handlers a t = Some h \<Longrightarrow> hs_available h \<noteq> Some (On_available p)"
      "app_handlers a t = Some h \<Longrightarrow> hs_events h e \<noteq> Some (On_event p)" for h e
    using assms(4) a(1) by auto
  have "table_clean ?u b h" if "app_handlers b t = Some h" "table_clean s b h" for b h
  proof -
    have "hs_available h \<noteq> Some (On_available p)" "hs_events h e \<noteq> Some (On_event p)" for e
      using that a(1) not_p table_cleanD(2,3) [OF that(2)] by (cases "b = a"; auto)+
    then show ?thesis by (intro table_clean_change [OF that(2)]) (auto simp: delete_conv')
  qed
  moreover have "\<forall>q \<in> set (ow_async ?u). alive (Proxy q) ?u"
    using assms(1) at a(2) by (auto simp: clean_def delete_keys)
  ultimately show ?thesis by (intro clean_drop [OF assms(1) a(2)]) auto
qed

lemma clean_app_drop:
  assumes "clean s" and "drop_app a s = Some t"
  shows "clean t"
proof -
  have a: "t = release_app a (s\<lparr>ow_held := ow_held s - {a}\<rparr>)" (is "t = release_app a ?u")
    using assms(2) by (auto simp: drop_app_def split: if_splits)
  show ?thesis using assms(1)
    by (intro clean_drop [OF assms(1) a]) (auto simp: clean_def table_clean_def)
qed

lemma table_clean_changes:
  assumes "table_clean s a h"
  shows "map_of (ow_skeletons s) k = Some a \<Longrightarrow>
      table_clean s a (h\<lparr>hs_methods := (hs_methods h)(m \<mapsto> On_request k)\<rparr>)"
    and "map_of (ow_proxies s) p = Some a \<Longrightarrow>
      table_clean s a (h\<lparr>hs_events := (hs_events h)(e \<mapsto> On_event p)\<rparr>)"
    and "map_of (ow_proxies s) p = Some a \<Longrightarrow> table_clean s a (h\<lparr>hs_available := Some (On_available p)\<rparr>)"
    and "table_clean s a (h\<lparr>hs_methods := (hs_methods h)(m := users_own b)\<rparr>)"
    and "table_clean s a (h\<lparr>hs_events := (hs_events h)(e := users_own b)\<rparr>)"
    and "table_clean s a (h\<lparr>hs_available := users_own b\<rparr>)"
  using assms by (simp_all add: table_clean_def users_own_def)

lemma clean_register:
  assumes "clean s" and "own_event_step e s = Some t"
    and "e \<in> {Init_skeleton k, Init_proxy k, Subscribe k i, Set_method a i b, Set_event a i b, Set_available a b}"
  shows "clean t"
proof -
  have *: "clean t" if "set_handlers a f s = Some t" "\<And>h. table_clean s a h \<Longrightarrow> table_clean s a (f h)" for a f t
    using clean_set_handlers [OF assms(1) that] .
  from assms(3) consider "e = Init_skeleton k" | "e = Init_proxy k" | "e = Subscribe k i"
    | "e = Set_method a i b" | "e = Set_event a i b" | "e = Set_available a b" by blast
  then show ?thesis
  proof cases
    case 2
    then obtain a u where "map_of (ow_proxies s) k = Some a" "own_app_init a u = Some t"
      "set_handlers a (hs_available_update (\<lambda>_. Some (On_available k))) s = Some u"
      using assms(2) by (auto simp: own_proxy_init_def bind_eq_Some_conv split: option.splits)
    then show ?thesis using * table_clean_changes(3) clean_app_init by meson
  qed (use assms(2) in \<open>auto simp: own_skeleton_init_def own_subscribe_def own_set_method_def
      own_set_event_def own_set_available_def split: option.splits
      elim!: * intro: table_clean_changes\<close>)
qed

lemma clean_step:
  assumes "clean s" and "own_ok s" and "own_event_step e s = Some t" and "tidy e s t"
  shows "clean t"
proof (cases e)
  case (Set_service service inst b)
  then show ?thesis using assms(1,3)
    by (auto simp: own_set_service_def clean_def service_clean_def users_own_def split: if_splits)
next
  case Drop_runtime
  then show ?thesis using assms(1,3)
    by (auto simp del: alive.simps simp: clean_def service_clean_def runtime_alive_def)
next
  case (Unsubscribe p e)
  then show ?thesis using assms(1,3) by (auto simp: own_unsubscribe_def split: if_splits)
next
  case (Call_async p)
  then show ?thesis using assms(1,3)
    by (auto simp del: alive.simps simp: own_call_async_def clean_def service_clean_def runtime_alive_def
        split: if_splits)
next
  case (Async_runs p)
  then have "p \<in> set (ow_async s)" "alive (Proxy p) s" "t = s\<lparr>ow_async := remove1 p (ow_async s)\<rparr>"
    using assms(1,3) by (auto simp del: alive.simps simp: own_async_runs_def clean_def split: if_splits)
  then show ?thesis using assms(1)
    by (auto simp del: alive.simps simp: clean_def service_clean_def runtime_alive_def
        dest: set_remove1_subset [THEN subsetD])
next
  case (Init_app a)
  then show ?thesis using clean_app_init assms(1,3) by simp
next
  case (Drop_skeleton k)
  then show ?thesis using clean_skeleton_drop [OF assms(1,2), of k t] assms(3,4) by (simp del: tidy.simps)
next
  case (Drop_proxy p)
  then show ?thesis using clean_proxy_drop [OF assms(1,2), of p t] assms(3,4) by (simp del: tidy.simps)
next
  case (Drop_app a)
  then show ?thesis using clean_app_drop [OF assms(1), of a t] assms(3) by simp
next
  case (Deliver service m)
  then show ?thesis using clean_deliver assms(1,3) by simp
next
  case (Handle a m)
  then show ?thesis using clean_handle assms(1,3) by simp
next
  case (Available a)
  then show ?thesis using clean_available assms(1,3) by simp
qed (rule clean_make [OF assms(1,2) _ assms(3)], blast, rule clean_make [OF assms(1,2) _ assms(3)], blast,
    rule clean_make [OF assms(1,2) _ assms(3)], blast, (rule clean_register [OF assms(1,3)], blast)+)

lemma clean_run:
  "own_run es s = Some t \<Longrightarrow> clean s \<Longrightarrow> own_ok s \<Longrightarrow> tidy_run es s \<Longrightarrow> clean t"
  by (induction es arbitrary: s)
    (auto simp del: own_event_step.simps tidy.simps simp: bind_eq_Some_conv split: if_splits
      intro: clean_step own_step_ok)

text \<open>No step from a clean state faults, not even an untidy one.\<close>

lemma clean_no_fault:
  assumes "clean s" and "own_ok s" and "own_event_step e s = Some t"
  shows "ow_fault t = None"
proof (cases "tidy e s t")
  case True
  then show ?thesis using clean_step [OF assms] by (simp add: clean_def)
next
  case False
  then show ?thesis using assms(1,3)
    by (cases e) (auto simp: own_defs(13-15) clean_def split: option.splits if_splits)
qed

lemma destroyed_skeleton_dead: "destroy_skeleton k s = Some t \<Longrightarrow> \<not> alive (Skeleton k) t"
  unfolding destroy_skeleton_def
  by (cases "map_of (ow_skeletons s) k") (auto simp: AList.delete_eq)

lemma destroyed_proxy_dead: "destroy_proxy p s = Some t \<Longrightarrow> \<not> alive (Proxy p) t"
  unfolding destroy_proxy_def
  by (cases "map_of (ow_proxies s) p") (auto simp: AList.delete_eq)

lemma untidy_faults:
  assumes "own_event_step e s = Some t" and "\<not> tidy e s t"
  shows "\<exists>e' u. own_event_step e' t = Some u \<and> ow_fault u = Some Use_after_free"
proof -
  have handled: ?thesis if "app_handlers a t = Some h" "handler_for m h = Some c" "captured c = Some ob"
    "\<not> alive ob t" for a h m c ob
    using that by (intro exI [of _ "Handle a m"])
      (auto simp: own_handle_def call_some_def call_closure_def)
  from assms(2) consider k where "e = Drop_skeleton k" | p where "e = Drop_proxy p"
    by (cases e) auto
  then show ?thesis
  proof cases
    case 1
    then obtain a h m where "map_of (ow_skeletons s) k = Some a" "app_handlers a t = Some h"
      "hs_methods h m = Some (On_request k)"
      using assms(2) by auto
    moreover have "\<not> alive (Skeleton k) t" using assms(1) 1 destroyed_skeleton_dead by simp
    ultimately show ?thesis using handled [of a h "Request_arrives m" "On_request k" "Skeleton k"] by simp
  next
    case 2
    then obtain a where a: "map_of (ow_proxies s) p = Some a"
      using assms(1) by (auto simp: destroy_proxy_def split: option.splits)
    have dead: "\<not> alive (Proxy p) t"
      using assms(1) 2 destroyed_proxy_dead by simp
    have "\<not> tidy (Drop_proxy p) s t" using assms(2) 2 by simp
    then consider "p \<in> set (ow_async t)"
      | h where "app_handlers a t = Some h" "hs_available h = Some (On_available p)"
      | h i where "app_handlers a t = Some h" "hs_events h i = Some (On_event p)"
      unfolding tidy.simps a by blast
    then show ?thesis
    proof cases
      case 1
      then show ?thesis using dead
        by (intro exI [of _ "Async_runs p"]) (simp add: own_async_runs_def)
    next
      case 2
      then show ?thesis using dead
        by (intro exI [of _ "Available a"]) (auto simp: own_available_def call_some_def call_closure_def)
    next
      case 3
      then show ?thesis using dead handled [of a h "Event_arrives i" "On_event p" "Proxy p"] by simp
    qed
  qed
qed

text \<open> C29: When dropping an object is safe. As long as every drop of a run has been tidy, nothing has
  touched freed memory, and then the next step leaves a state in which every possible message from
  the wire, call of \<open>handle_message\<close> or \<open>on_service_available\<close> and asynchronous call is safe if and only if it is
  not an untidy drop: one that destroys a skeleton still registered with an application that
  lives on, or a proxy still subscribed, registered for availability or called
  asynchronously. Dropping an application leaves nothing behind that is called: the runtime keeps its
  closure, but under service 0 and instance 0, where no message from the wire is looked up. \<close>

theorem dropping_is_safe_iff_tidy:
  assumes "own_run es own_start = Some s" and "tidy_run es own_start" and "own_event_step e s = Some t"
  shows "ow_fault s = None \<and>
    ((\<forall>e' u. own_event_step e' t = Some u \<longrightarrow> ow_fault u = None) \<longleftrightarrow> tidy e s t)"
proof -
  have c: "clean s" "own_ok s" "own_ok t"
    using clean_run [OF assms(1) clean_start own_ok_start assms(2)]
      own_run_ok [OF assms(1) own_ok_start] own_step_ok [OF _ assms(3)] by blast+
  have "ow_fault u = None" if "tidy e s t" "own_event_step e' t = Some u" for e' u
    using clean_no_fault [OF clean_step [OF c(1,2) assms(3) that(1)] c(3) that(2)] .
  moreover have "tidy e s t" if "\<forall>e' u. own_event_step e' t = Some u \<longrightarrow> ow_fault u = None"
    using that untidy_faults [OF assms(3)] by fastforce
  ultimately show ?thesis using c(1) unfolding clean_def by blast
qed

theorem dropping_is_safe_iff_tidy_witness:
  "\<exists>s t. own_run plain_use own_start = Some s \<and> own_event_step (Drop_skeleton 1) s = Some t \<and>
     \<not> (\<forall>e' u. own_event_step e' t = Some u \<longrightarrow> ow_fault u = None)"
proof -
  obtain s where s: "own_run plain_use own_start = Some s" "map_of (ow_skeletons s) 1 = Some 0"
    "app_handlers 0 s = Some (no_handlers\<lparr>hs_methods := [0 \<mapsto> On_request 1]\<rparr>)" "ow_held s = {0}"
    by (simp add: plain_use_def own_start_def own_defs set_handlers_def app_handlers_def
        runtime_alive_def no_handlers_def)
  have t: "tidy_run plain_use own_start" by (simp add: plain_use_def)
  define u where "u = s\<lparr>ow_skeletons := AList.delete 1 (ow_skeletons s)\<rparr>"
  have d: "own_event_step (Drop_skeleton 1) s = Some u"
    using s(2,4) by (simp add: destroy_skeleton_def release_app_def owned_def u_def)
  have "app_handlers 0 u = app_handlers 0 s" by (simp add: u_def app_handlers_def)
  then have "\<not> tidy (Drop_skeleton 1) s u"
    using s(2,3) by auto
  with dropping_is_safe_iff_tidy [OF s(1) t d] s(1) d show ?thesis by blast
qed

end
