(* ===== verification/Shutdown.thy ===== *)
theory Shutdown
  imports Prelude
begin

text \<open>
  Starting and stopping the worker threads: of \<open>ServiceDiscovery\<close>, \<open>UdpTransport\<close> and
  \<open>TcpTransport\<close> (its accept thread), which share one scheme of \<open>start\<close> and \<open>stop\<close>, and of
  \<open>ShmAgent\<close>, with \<open>connect\<close> and \<open>disconnect\<close>. Callers of these functions and the thread they
  start run interleaved; what the threads do in a turn is the subject of the other theories. The
  receive threads of TCP connections, which \<open>TcpTransport::stop\<close> joins with a lock held, are in
  \<open>TcpStop\<close>. A thread is made in one step and its handle stored in the next. A transport may have no
  socket, from beginning to end: then \<open>stop\<close> shuts nothing down, \<open>TcpTransport::start\<close> makes no thread, and \<open>recvfrom\<close>
  returns an error at once. \<open>connect\<close> finds the shared memory.
\<close>

section \<open>The worker\<close>

datatype worker_kind = Sd_thread | Udp_thread | Accept_thread | Shm_thread

text \<open>
  Where a worker is: at the head of its loop, in its blocking call, at the second test of the flag
  (service discovery has one after the wait), at work, or at its end.
\<close>

datatype worker_pc = Loop_head | Blocked | Second_test | At_work | Thread_ended

text \<open>A caller of \<open>start\<close> or \<open>stop\<close>: between two calls, or inside one.\<close>

datatype caller = Outside | Launching | Storing | Waking | Testing | Joining

text \<open>
  \<open>th_thread\<close> is the thread object: \<open>None\<close> when it is not joinable. \<open>th_made i\<close> is a thread that caller
  \<open>i\<close> has made and not stored yet. \<open>th_socket\<close> says that the transport has a socket (for the accept
  thread, that it listens), \<open>th_shut\<close> that it has been shut down. \<open>th_terminated\<close> is \<open>std::terminate\<close>: a joinable thread object has been
  assigned to, or a thread that cannot be joined has been joined.
\<close>

record threading =
  th_running :: bool
  th_connected :: bool
  th_socket :: bool
  th_shut :: bool
  th_thread :: "worker_pc option"
  th_made :: "nat \<Rightarrow> worker_pc option"
  th_callers :: "nat \<Rightarrow> caller"
  th_terminated :: bool

definition th_start :: "bool \<Rightarrow> threading" where
  "th_start socket = \<lparr>th_running = False, th_connected = False, th_socket = socket, th_shut = False,
     th_thread = None, th_made = (\<lambda>_. None), th_callers = (\<lambda>_. Outside), th_terminated = False\<rparr>"

text \<open>
  When the blocking call returns: \<open>wait_for\<close> and \<open>shm_wait\<close> after 100 ms at the latest; \<open>recvfrom\<close>
  and \<open>accept\<close> when something arrives or there is no socket, and, if the system wakes them on \<open>shutdown\<close>, with the socket
  shut down. POSIX does not say that it does for a datagram socket that is not connected.
\<close>

definition call_returns :: "worker_kind \<Rightarrow> bool \<Rightarrow> bool \<Rightarrow> threading \<Rightarrow> bool" where
  "call_returns kind wakes arrives s \<longleftrightarrow>
     kind = Sd_thread \<or> kind = Shm_thread \<or> arrives \<or> \<not> th_socket s \<or> wakes \<and> th_shut s"

text \<open>A step of the worker; \<open>arrives\<close> is whether its call has something to return.\<close>

fun worker_pc_step :: "worker_kind \<Rightarrow> bool \<Rightarrow> bool \<Rightarrow> threading \<Rightarrow> worker_pc \<Rightarrow> worker_pc option" where
  "worker_pc_step kind wakes arrives s Loop_head = Some (if th_running s then Blocked else Thread_ended)"
| "worker_pc_step kind wakes arrives s Blocked = (if call_returns kind wakes arrives s
     then Some (if kind = Sd_thread then Second_test else if arrives then At_work else Loop_head)
     else None)"
| "worker_pc_step kind wakes arrives s Second_test = Some (if th_running s then At_work else Thread_ended)"
| "worker_pc_step kind wakes arrives s At_work = Some Loop_head"
| "worker_pc_step kind wakes arrives s Thread_ended = None"

definition worker_steps :: "worker_kind \<Rightarrow> bool \<Rightarrow> bool \<Rightarrow> threading \<Rightarrow> threading option" where
  "worker_steps kind wakes arrives s = (case th_thread s of
     None \<Rightarrow> None
   | Some pc \<Rightarrow> map_option (\<lambda>pc'. s\<lparr>th_thread := Some pc'\<rparr>) (worker_pc_step kind wakes arrives s pc))"

text \<open>A thread can run before its handle is stored.\<close>

definition made_steps :: "worker_kind \<Rightarrow> bool \<Rightarrow> nat \<Rightarrow> bool \<Rightarrow> threading \<Rightarrow> threading option" where
  "made_steps kind wakes i arrives s = (case th_made s i of
     None \<Rightarrow> None
   | Some pc \<Rightarrow> map_option (\<lambda>pc'. s\<lparr>th_made := (th_made s)(i := Some pc')\<rparr>)
       (worker_pc_step kind wakes arrives s pc))"

section \<open>Callers\<close>

definition caller_at :: "nat \<Rightarrow> caller \<Rightarrow> threading \<Rightarrow> threading" where
  "caller_at i pc s = s\<lparr>th_callers := (th_callers s)(i := pc)\<rparr>"

text \<open>
  \<open>start\<close> exchanges the flag and returns if it was set; \<open>connect\<close> only looks at \<open>connected_\<close>, and
  sets it and the flag just before it makes the thread.
\<close>

definition calls_start :: "worker_kind \<Rightarrow> nat \<Rightarrow> threading \<Rightarrow> threading" where
  "calls_start kind i s = (if kind = Shm_thread
     then if th_connected s then s else caller_at i Launching s
     else if th_running s then s else caller_at i Launching (s\<lparr>th_running := True\<rparr>))"

definition launches :: "worker_kind \<Rightarrow> nat \<Rightarrow> threading \<Rightarrow> threading" where
  "launches kind i s =
     (let s = (if kind = Shm_thread then s\<lparr>th_connected := True, th_running := True\<rparr> else s) in
      if kind = Accept_thread \<and> \<not> th_socket s then caller_at i Outside s
      else caller_at i Storing (s\<lparr>th_made := (th_made s)(i := Some Loop_head)\<rparr>))"

definition stores :: "nat \<Rightarrow> threading \<Rightarrow> threading" where
  "stores i s = (if th_thread s = None
     then caller_at i Outside (s\<lparr>th_thread := th_made s i, th_made := (th_made s)(i := None)\<rparr>)
     else s\<lparr>th_terminated := True\<rparr>)"

text \<open>
  \<open>stop\<close> clears the flag, notifies or shuts the socket down, and joins the thread if it is joinable;
  \<open>disconnect\<close> does nothing unless connected, and clears \<open>connected_\<close> at its end.
\<close>

definition calls_stop :: "worker_kind \<Rightarrow> nat \<Rightarrow> threading \<Rightarrow> threading" where
  "calls_stop kind i s = (if kind = Shm_thread \<and> \<not> th_connected s then s
     else caller_at i Waking (s\<lparr>th_running := False\<rparr>))"

definition wakes_worker :: "worker_kind \<Rightarrow> nat \<Rightarrow> threading \<Rightarrow> threading" where
  "wakes_worker kind i s = caller_at i Testing
     (if kind \<in> {Udp_thread, Accept_thread} \<and> th_socket s then s\<lparr>th_shut := True\<rparr> else s)"

definition stop_done :: "worker_kind \<Rightarrow> nat \<Rightarrow> threading \<Rightarrow> threading" where
  "stop_done kind i s = caller_at i Outside (if kind = Shm_thread then s\<lparr>th_connected := False\<rparr> else s)"

definition tests_joinable :: "worker_kind \<Rightarrow> nat \<Rightarrow> threading \<Rightarrow> threading" where
  "tests_joinable kind i s = (if th_thread s = None then stop_done kind i s else caller_at i Joining s)"

definition joins :: "worker_kind \<Rightarrow> nat \<Rightarrow> threading \<Rightarrow> threading option" where
  "joins kind i s = (case th_thread s of
     None \<Rightarrow> Some (s\<lparr>th_terminated := True\<rparr>)
   | Some Thread_ended \<Rightarrow> Some (stop_done kind i (s\<lparr>th_thread := None\<rparr>))
   | Some pc \<Rightarrow> None)"

text \<open>
  A callback of the worker calls \<open>stop\<close>: the thread joins itself, which throws, and nothing on the
  thread catches it.
\<close>

definition stops_itself :: "threading \<Rightarrow> threading option" where
  "stops_itself s = (if th_thread s = Some At_work then Some (s\<lparr>th_running := False, th_terminated := True\<rparr>)
     else None)"

datatype th_event = Start nat | Stop nat | Goes_on nat | Works bool | Made_works nat bool | Stops_itself

fun th_step :: "worker_kind \<Rightarrow> bool \<Rightarrow> th_event \<Rightarrow> threading \<Rightarrow> threading option" where
  "th_step kind wakes (Start i) s = (if th_callers s i = Outside then Some (calls_start kind i s) else None)"
| "th_step kind wakes (Stop i) s = (if th_callers s i = Outside then Some (calls_stop kind i s) else None)"
| "th_step kind wakes (Goes_on i) s = (case th_callers s i of
     Outside \<Rightarrow> None
   | Launching \<Rightarrow> Some (launches kind i s)
   | Storing \<Rightarrow> Some (stores i s)
   | Waking \<Rightarrow> Some (wakes_worker kind i s)
   | Testing \<Rightarrow> Some (tests_joinable kind i s)
   | Joining \<Rightarrow> joins kind i s)"
| "th_step kind wakes (Works arrives) s = worker_steps kind wakes arrives s"
| "th_step kind wakes (Made_works i arrives) s = made_steps kind wakes i arrives s"
| "th_step kind wakes Stops_itself s = stops_itself s"

fun th_run :: "worker_kind \<Rightarrow> bool \<Rightarrow> th_event list \<Rightarrow> threading \<Rightarrow> threading option" where
  "th_run kind wakes [] s = Some s"
| "th_run kind wakes (e # es) s = (if th_terminated s then None
     else Option.bind (th_step kind wakes e s) (th_run kind wakes es))"

section \<open>One caller\<close>

text \<open>Steps of caller \<open>c\<close> and of the worker.\<close>

fun by_one :: "nat \<Rightarrow> th_event \<Rightarrow> bool" where
  "by_one c (Start i) \<longleftrightarrow> i = c"
| "by_one c (Stop i) \<longleftrightarrow> i = c"
| "by_one c (Goes_on i) \<longleftrightarrow> i = c"
| "by_one c (Works arrives) \<longleftrightarrow> True"
| "by_one c (Made_works i arrives) \<longleftrightarrow> True"
| "by_one c Stops_itself \<longleftrightarrow> False"

text \<open>How the flags and the thread object go together at each place of the caller.\<close>

definition has_worker :: "worker_kind \<Rightarrow> threading \<Rightarrow> bool" where
  "has_worker kind s \<longleftrightarrow> kind = Accept_thread \<longrightarrow> th_socket s"

fun threads_fit :: "worker_kind \<Rightarrow> nat \<Rightarrow> caller \<Rightarrow> threading \<Rightarrow> bool" where
  "threads_fit kind c Outside s \<longleftrightarrow> (th_thread s \<noteq> None \<longleftrightarrow> th_running s \<and> has_worker kind s) \<and>
     (kind = Shm_thread \<longrightarrow> (th_connected s \<longleftrightarrow> th_running s))"
| "threads_fit kind c Launching s \<longleftrightarrow> th_thread s = None \<and> (kind = Shm_thread \<or> th_running s)"
| "threads_fit kind c Storing s \<longleftrightarrow> th_thread s = None \<and> th_made s c \<noteq> None \<and> th_running s \<and>
     has_worker kind s \<and> (kind = Shm_thread \<longrightarrow> th_connected s)"
| "threads_fit kind c Waking s \<longleftrightarrow> \<not> th_running s"
| "threads_fit kind c Testing s \<longleftrightarrow> \<not> th_running s"
| "threads_fit kind c Joining s \<longleftrightarrow> \<not> th_running s \<and> th_thread s \<noteq> None"

definition one_caller_ok :: "worker_kind \<Rightarrow> nat \<Rightarrow> threading \<Rightarrow> bool" where
  "one_caller_ok kind c s \<longleftrightarrow> \<not> th_terminated s \<and> threads_fit kind c (th_callers s c) s"

lemmas caller_defs = calls_start_def launches_def stores_def calls_stop_def wakes_worker_def
  stop_done_def tests_joinable_def joins_def caller_at_def Let_def

lemma th_step_socket: "th_step kind wakes e s = Some t \<Longrightarrow> th_socket t = th_socket s"
  by (cases e) (auto simp: caller_defs worker_steps_def made_steps_def stops_itself_def
      split: if_splits option.splits caller.splits worker_pc.splits)

lemma th_run_socket: "th_run kind wakes es s = Some t \<Longrightarrow> th_socket t = th_socket s"
  by (induction es arbitrary: s)
    (auto simp del: th_step.simps simp: bind_eq_Some_conv split: if_splits dest!: th_step_socket)

lemma one_caller_step:
  assumes "one_caller_ok kind c s" and "by_one c e" and "th_step kind wakes e s = Some t"
  shows "one_caller_ok kind c t"
proof (cases e)
  case (Works arrives)
  then obtain pc pc' where "th_thread s = Some pc" "t = s\<lparr>th_thread := Some pc'\<rparr>"
    using assms(3) by (auto simp: worker_steps_def split: option.splits)
  then show ?thesis using assms(1)
    by (cases "th_callers s c") (auto simp: one_caller_ok_def has_worker_def)
next
  case (Made_works i arrives)
  then obtain pc' where "t = s\<lparr>th_made := (th_made s)(i := Some pc')\<rparr>"
    using assms(3) by (auto simp: made_steps_def split: option.splits)
  then show ?thesis using assms(1)
    by (cases "th_callers s c") (auto simp: one_caller_ok_def has_worker_def)
next
  case (Goes_on i)
  then show ?thesis using assms
    by (cases "th_callers s c")
      (auto simp: caller_defs one_caller_ok_def has_worker_def split: if_splits option.splits worker_pc.splits)
qed (use assms in \<open>auto simp: caller_defs one_caller_ok_def has_worker_def split: if_splits\<close>)

lemma one_caller_run:
  "th_run kind wakes es s = Some t \<Longrightarrow> one_caller_ok kind c s \<Longrightarrow> \<forall>e \<in> set es. by_one c e \<Longrightarrow>
     one_caller_ok kind c t"
  by (induction es arbitrary: s)
    (auto simp del: th_step.simps simp: bind_eq_Some_conv split: if_splits dest: one_caller_step)

text \<open> C30: Starting and stopping from one thread works. Whatever sequence of \<open>start\<close> and \<open>stop\<close> (or
  \<open>connect\<close> and \<open>disconnect\<close>) one thread goes through, however the worker runs in between, the
  program is never terminated, and between two calls there is a thread exactly if the flag is set,
  except that a TCP transport without a listening socket never has an accept thread: after a stop
  the worker has ended and been joined, and can be started again. \<close>

theorem one_caller_starts_and_stops:
  assumes "th_run kind wakes es (th_start socket) = Some s" and "\<forall>e \<in> set es. by_one c e"
  shows "\<not> th_terminated s \<and> (th_callers s c = Outside \<longrightarrow>
    (th_thread s \<noteq> None \<longleftrightarrow> th_running s \<and> (kind = Accept_thread \<longrightarrow> socket)))"
proof -
  have "one_caller_ok kind c (th_start socket)" by (simp add: one_caller_ok_def th_start_def)
  note ok = one_caller_run [OF assms(1) this assms(2)]
  have "th_socket s = socket" using th_run_socket [OF assms(1)] by (simp add: th_start_def)
  then show ?thesis using ok
    by (cases "th_callers s c") (simp_all add: one_caller_ok_def has_worker_def)
qed

text \<open>The receive thread of UDP: started, stopped in its blocking call, joined.\<close>

definition udp_life :: "th_event list" where
  "udp_life = [Start 0, Goes_on 0, Made_works 0 False, Goes_on 0, Stop 0, Goes_on 0, Goes_on 0, Works False, Works False, Goes_on 0]"

theorem one_caller_starts_and_stops_witness:
  "\<exists>s. th_run Udp_thread True udp_life (th_start True) = Some s \<and> \<not> th_running s \<and> th_thread s = None"
proof -
  obtain s where s: "th_run Udp_thread True udp_life (th_start True) = Some s" "th_callers s 0 = Outside" "\<not> th_running s"
    by (simp add: udp_life_def th_start_def caller_defs worker_steps_def made_steps_def call_returns_def)
  have "\<forall>e \<in> set udp_life. by_one 0 e" by (simp add: udp_life_def)
  from one_caller_starts_and_stops [OF s(1) this] s show ?thesis by auto
qed

section \<open>How long stopping takes\<close>

text \<open>Steps a worker has left once the flag is cleared.\<close>

fun steps_left :: "worker_pc \<Rightarrow> nat" where
  "steps_left Blocked = 3"
| "steps_left At_work = 2"
| "steps_left Loop_head = 1"
| "steps_left Second_test = 1"
| "steps_left Thread_ended = 0"

lemma steps_left_decrease:
  assumes "\<not> th_running s" and "worker_pc_step kind wakes arrives s pc = Some pc'"
  shows "steps_left pc' < steps_left pc"
  using assms by (cases pc) (auto split: if_splits)

lemma worker_run_left:
  assumes "th_run kind wakes (map Works bs) s = Some t" and "\<not> th_running s" and "th_thread s = Some pc"
  shows "\<exists>pc'. t = s\<lparr>th_thread := Some pc'\<rparr> \<and> length bs + steps_left pc' \<le> steps_left pc"
  using assms
proof (induction bs arbitrary: s pc)
  case (Cons b bs)
  then obtain u where u: "worker_steps kind wakes b s = Some u" "th_run kind wakes (map Works bs) u = Some t"
    by (auto simp: bind_eq_Some_conv split: if_splits)
  then obtain pc1 where p: "worker_pc_step kind wakes b s pc = Some pc1" "u = s\<lparr>th_thread := Some pc1\<rparr>"
    using Cons.prems(3) by (auto simp: worker_steps_def)
  then show ?case using Cons.IH [OF u(2), of pc1] Cons.prems(2) steps_left_decrease [OF Cons.prems(2) p(1)]
    by auto
next
  case Nil
  then have "t = s\<lparr>th_thread := Some pc\<rparr>" by (cases s) simp
  then show ?case by auto
qed

text \<open> C31: A stop takes at most one turn of the worker. With the flag cleared, and the blocking call
  one that returns (it has a time limit, or the system wakes it on \<open>shutdown\<close>), the worker takes at
  most three more steps, is never blocked before its end, and then the caller that waits in \<open>join\<close>
  returns, with no thread left. \<close>

theorem stop_returns:
  assumes "th_run kind wakes (map Works bs) s = Some t"
    and "\<not> th_running s" and "\<not> th_terminated s" and "th_callers s i = Joining" and "th_thread s \<noteq> None"
    and "kind \<in> {Sd_thread, Shm_thread} \<or> wakes \<and> th_shut s"
  shows "length bs \<le> 3 \<and> (\<exists>u. th_step kind wakes (Works False) t = Some u \<or>
    th_step kind wakes (Goes_on i) t = Some u \<and> th_callers u i = Outside \<and> th_thread u = None)"
proof -
  obtain pc where pc: "th_thread s = Some pc" using assms(5) by blast
  obtain pc' where t: "t = s\<lparr>th_thread := Some pc'\<rparr>" "length bs + steps_left pc' \<le> steps_left pc"
    using worker_run_left [OF assms(1,2) pc] by blast
  have "length bs \<le> 3" using t(2) by (cases pc) auto
  moreover have "\<exists>u. th_step kind wakes (Works False) t = Some u \<or>
    th_step kind wakes (Goes_on i) t = Some u \<and> th_callers u i = Outside \<and> th_thread u = None"
    using assms(4,6) by (cases pc') (auto simp: t(1) worker_steps_def call_returns_def joins_def stop_done_def
        caller_at_def)
  ultimately show ?thesis by blast
qed

definition stopping :: threading where
  "stopping = (th_start True)\<lparr>th_shut := True, th_thread := Some Blocked, th_callers := (\<lambda>_. Outside)(0 := Joining)\<rparr>"

theorem stop_returns_witness:
  "\<exists>u. th_run Udp_thread True (map Works [True, False, False]) stopping = Some (stopping\<lparr>th_thread := Some Thread_ended\<rparr>) \<and>
    th_step Udp_thread True (Goes_on 0) (stopping\<lparr>th_thread := Some Thread_ended\<rparr>) = Some u \<and> th_thread u = None"
proof -
  have r: "th_run Udp_thread True (map Works [True, False, False]) stopping =
      Some (stopping\<lparr>th_thread := Some Thread_ended\<rparr>)"
    by (simp add: stopping_def th_start_def worker_steps_def call_returns_def)
  have "th_step Udp_thread True (Works False) (stopping\<lparr>th_thread := Some Thread_ended\<rparr>) = None"
    by (simp add: worker_steps_def)
  with stop_returns [OF r, of 0] r show ?thesis by (auto simp: stopping_def th_start_def)
qed

text \<open> A stop can wait for ever. If the system does not wake \<open>recvfrom\<close> or \<open>accept\<close> on \<open>shutdown\<close>,
  and nothing arrives, then a worker in its blocking call stays there, and whoever is in \<open>join\<close>. \<close>

theorem stop_waits_for_arrival:
  assumes "kind \<in> {Udp_thread, Accept_thread}" and "th_run kind False es s = Some t"
    and "Works True \<notin> set es" and "th_thread s = Some Blocked" and "th_callers s i = Joining"
    and "th_socket s"
  shows "th_thread t = Some Blocked \<and> th_callers t i = Joining"
  using assms(2-)
proof (induction es arbitrary: s)
  case (Cons e es)
  then obtain u where u: "th_step kind False e s = Some u" "th_run kind False es u = Some t"
    by (auto simp del: th_step.simps simp: bind_eq_Some_conv split: if_splits)
  have "th_thread u = Some Blocked \<and> th_callers u i = Joining"
    using u(1) Cons.prems(2-) assms(1)
    by (cases e) (auto simp: caller_defs worker_steps_def made_steps_def call_returns_def stops_itself_def
        split: if_splits caller.splits option.splits)
  moreover have "th_socket u" using th_step_socket [OF u(1)] Cons.prems(5) by simp
  ultimately show ?case using Cons u(2) by auto
qed simp

theorem stop_waits_for_arrival_witness:
  "\<exists>t. th_run Udp_thread False [Start 1, Goes_on 1] stopping = Some t \<and> th_thread t = Some Blocked \<and>
    th_callers t 0 = Joining"
proof -
  obtain t where t: "th_run Udp_thread False [Start 1, Goes_on 1] stopping = Some t"
    by (simp add: stopping_def th_start_def caller_defs)
  then show ?thesis using stop_waits_for_arrival [OF _ t, of 0] by (simp add: stopping_def th_start_def)
qed

text \<open> Two callers can terminate the program. A \<open>stop\<close> between the exchange of the flag and the
  making of the thread in \<open>start\<close> finds no thread to join; the thread ends at once but its object
  stays joinable, and the next \<open>start\<close> assigns to it. Two calls of \<open>connect\<close> at the same time do
  the same to the agent. No call of \<open>stop\<close> by the worker itself is needed. \<close>

theorem overlapping_calls_terminate:
  "\<exists>es s. Stops_itself \<notin> set es \<and> th_run kind wakes es (th_start True) = Some s \<and> th_terminated s"
proof (cases "kind = Shm_thread")
  case True
  then show ?thesis
    by (intro exI [of _ "[Start 0, Start 1, Goes_on 0, Goes_on 1, Goes_on 0, Goes_on 1]"]) (simp add: th_start_def caller_defs)
next
  case False
  then show ?thesis
    by (intro exI [of _ "[Start 0, Stop 1, Goes_on 1, Goes_on 1, Goes_on 0, Goes_on 0, Start 0, Goes_on 0, Goes_on 0]"])
      (simp add: th_start_def caller_defs)
qed

end
