(* ===== verification/Descriptors.thy ===== *)
theory Descriptors
  imports Tcp
begin

text \<open>
  Where the file descriptors of the transports go: which calls open one, which close it, and what
  the destructors (\<open>~UdpTransport\<close>, \<open>~TcpTransport\<close>) leave open. The system is any that opens
  and closes descriptors as POSIX documents it; \<open>opened\<close> observes which are open. The operations are
  taken as a whole, one after the other, and \<open>stop\<close> returns only from an empty table (\<open>TcpStop\<close>); what
  \<open>stop\<close> does to a connection that is just being opened is in \<open>TcpRace\<close>.
\<close>

section \<open>Destructors\<close>

definition udp_destroy :: "'w os \<Rightarrow> udp_transport \<Rightarrow> 'w \<Rightarrow> 'w" where
  "udp_destroy os ut w =
     (let (ut, w) = udp_stop os ut w
      in if 0 \<le> ut_socket_fd ut then os_close os (ut_socket_fd ut) w else w)"

text \<open>The loop over the connections that are left, in some \<open>order\<close> of the table.\<close>

fun close_sockets :: "'w os \<Rightarrow> tcp_transport \<Rightarrow> u32 list \<Rightarrow> 'w \<Rightarrow> 'w" where
  "close_sockets os tt [] w = w"
| "close_sockets os tt (cid # cids) w = close_sockets os tt cids
     (case tt_connections tt cid of
        None \<Rightarrow> w
      | Some conn \<Rightarrow> if 0 \<le> cn_socket_fd conn then os_close os (cn_socket_fd conn) w else w)"

definition tcp_destroy :: "'w os \<Rightarrow> u32 list \<Rightarrow> u32 list \<Rightarrow> tcp_transport \<Rightarrow> 'w \<Rightarrow> 'w option" where
  "tcp_destroy os shut order tt w =
     (if \<not> tcp_stop_returns tt then None
      else
        let (tt, w) = tcp_stop os shut tt w;
            w = close_sockets os tt order w
        in Some (if 0 \<le> tt_listen_socket tt then os_close os (tt_listen_socket tt) w else w))"

section \<open>Systems that keep descriptors apart\<close>

text \<open>
  \<open>socket\<close> and \<open>accept\<close> return a descriptor that was not open, \<open>close\<close> closes its own, and no other
  call opens or closes one.
\<close>

definition opens :: "('w \<Rightarrow> int set) \<Rightarrow> 'w \<Rightarrow> int \<Rightarrow> 'w \<Rightarrow> bool" where
  "opens opened w fd w' \<longleftrightarrow>
     (if fd < 0 then opened w' = opened w else fd \<notin> opened w \<and> opened w' = insert fd (opened w))"

definition tracks_fds :: "'w os \<Rightarrow> ('w \<Rightarrow> int set) \<Rightarrow> bool" where
  "tracks_fds os opened \<longleftrightarrow>
     (\<forall>b w. opens opened w (fst (os_socket os b w)) (snd (os_socket os b w))) \<and>
     (\<forall>fd w. opens opened w (fst (fst (os_accept os fd w))) (snd (os_accept os fd w))) \<and>
     (\<forall>fd w. opened (os_close os fd w) = opened w - {fd}) \<and>
     (\<forall>fd w. opened (os_shutdown os fd w) = opened w) \<and>
     (\<forall>fd w. opened (snd (os_reuseaddr os fd w)) = opened w) \<and>
     (\<forall>fd a p w. opened (snd (os_bind os fd a p w)) = opened w) \<and>
     (\<forall>fd w. opened (snd (os_getsockname os fd w)) = opened w) \<and>
     (\<forall>fd n w. opened (snd (os_listen os fd n w)) = opened w) \<and>
     (\<forall>fd a p w. opened (snd (os_connect os fd a p w)) = opened w) \<and>
     (\<forall>fd bs w. opened (snd (os_send os fd bs w)) = opened w) \<and>
     (\<forall>fd n all w. opened (snd (os_recv os fd n all w)) = opened w)"

lemma tracksD:
  assumes "tracks_fds os opened"
  shows "opened (os_close os fd w) = opened w - {fd}" "opened (os_shutdown os fd w) = opened w"
    "opened (snd (os_reuseaddr os fd w)) = opened w" "opened (snd (os_bind os fd a p w)) = opened w"
    "opened (snd (os_getsockname os fd w)) = opened w" "opened (snd (os_listen os fd n w)) = opened w"
    "opened (snd (os_connect os fd a p w)) = opened w" "opened (snd (os_send os fd bs w)) = opened w"
    "opened (snd (os_recv os fd k all w)) = opened w"
  using assms by (simp_all add: tracks_fds_def)

lemma tracks_socket:
  "tracks_fds os opened \<Longrightarrow> opens opened w (fst (os_socket os b w)) (snd (os_socket os b w))"
  by (simp add: tracks_fds_def)

lemma tracks_accept:
  "tracks_fds os opened \<Longrightarrow> opens opened w (fst (fst (os_accept os fd w))) (snd (os_accept os fd w))"
  by (simp add: tracks_fds_def)

section \<open>Accounting\<close>

definition listening_fd :: "tcp_transport \<Rightarrow> int set" where
  "listening_fd tt = (if 0 \<le> tt_listen_socket tt then {tt_listen_socket tt} else {})"

definition connection_fds :: "tcp_transport \<Rightarrow> int set" where
  "connection_fds tt = cn_socket_fd ` ran (tt_connections tt)"

text \<open>
  Everything open is held by the transport or in \<open>rest\<close> (by others, or lost), and the transport
  holds each of its descriptors once.
\<close>

definition accounted :: "('w \<Rightarrow> int set) \<Rightarrow> int set \<Rightarrow> tcp_transport \<times> 'w \<Rightarrow> bool" where
  "accounted opened rest c \<longleftrightarrow> (case c of (tt, w) \<Rightarrow>
     opened w = rest \<union> listening_fd tt \<union> connection_fds tt \<and>
     rest \<inter> listening_fd tt = {} \<and> rest \<inter> connection_fds tt = {} \<and>
     listening_fd tt \<inter> connection_fds tt = {} \<and> (\<forall>fd \<in> connection_fds tt. 0 \<le> fd) \<and>
     (\<forall>cid cid' conn conn'. tt_connections tt cid = Some conn \<longrightarrow> tt_connections tt cid' = Some conn' \<longrightarrow>
        cn_socket_fd conn = cn_socket_fd conn' \<longrightarrow> cid = cid'))"

text \<open>
  What happens to a transport while it runs: its operations, the receive thread of a connection
  from its start to its end, and sending. \<open>None\<close>: the receive thread faults or does not end, or a stop
  does not return.
\<close>

datatype fd_event = Operation tcp_event | Receiver u32 | Sending u32 message

fun fd_step :: "'w os \<Rightarrow> ('w \<Rightarrow> bool) \<Rightarrow> ('w \<Rightarrow> bool) \<Rightarrow> fd_event \<Rightarrow> tcp_transport \<times> 'w \<Rightarrow> (tcp_transport \<times> 'w) option" where
  "fd_step os alive serving (Operation e) c = tcp_step os e c"
| "fd_step os alive serving (Receiver cid) c =
     (case connection_receive_thread os alive serving cid (fst c) (snd c) of
        Some (Inr (tt, actions, w)) \<Rightarrow> Some (tt, w)
      | _ \<Rightarrow> None)"
| "fd_step os alive serving (Sending cid m) c = Some (fst c, snd (tcp_send_to os cid m (fst c) (snd c)))"

fun fd_run :: "'w os \<Rightarrow> ('w \<Rightarrow> bool) \<Rightarrow> ('w \<Rightarrow> bool) \<Rightarrow> fd_event list \<Rightarrow> tcp_transport \<times> 'w \<Rightarrow> (tcp_transport \<times> 'w) option" where
  "fd_run os alive serving [] c = Some c"
| "fd_run os alive serving (e # es) c = Option.bind (fd_step os alive serving e c) (fd_run os alive serving es)"

text \<open>What an event loses: descriptors nobody holds any more and nobody has closed.\<close>

fun loses :: "fd_event \<Rightarrow> tcp_transport \<Rightarrow> int set" where
  "loses (Operation (Tev_listen a p)) tt = listening_fd tt"
| "loses _ tt = {}"

fun lost :: "'w os \<Rightarrow> ('w \<Rightarrow> bool) \<Rightarrow> ('w \<Rightarrow> bool) \<Rightarrow> fd_event list \<Rightarrow> tcp_transport \<times> 'w \<Rightarrow> int set" where
  "lost os alive serving [] c = {}"
| "lost os alive serving (e # es) c = loses e (fst c) \<union>
     (case fd_step os alive serving e c of None \<Rightarrow> {} | Some c' \<Rightarrow> lost os alive serving es c')"

lemma fds_of_updates [simp]:
  "listening_fd (tt\<lparr>tt_next_connection_id := n\<rparr>) = listening_fd tt"
  "connection_fds (tt\<lparr>tt_next_connection_id := n\<rparr>) = connection_fds tt"
  "listening_fd (tt\<lparr>tt_endpoint_to_connection := m\<rparr>) = listening_fd tt"
  "connection_fds (tt\<lparr>tt_endpoint_to_connection := m\<rparr>) = connection_fds tt"
  "listening_fd (tt\<lparr>tt_running := r\<rparr>) = listening_fd tt"
  "connection_fds (tt\<lparr>tt_running := r\<rparr>) = connection_fds tt"
  "listening_fd (tt\<lparr>tt_local_port := q\<rparr>) = listening_fd tt"
  "connection_fds (tt\<lparr>tt_local_port := q\<rparr>) = connection_fds tt"
  "listening_fd (tt\<lparr>tt_local_address := a\<rparr>) = listening_fd tt"
  "connection_fds (tt\<lparr>tt_local_address := a\<rparr>) = connection_fds tt"
  "connection_fds (tt\<lparr>tt_listen_socket := fd\<rparr>) = connection_fds tt"
  "listening_fd (tt\<lparr>tt_connections := cs\<rparr>) = listening_fd tt"
  by (simp_all add: listening_fd_def connection_fds_def)

lemma connection_fds_I: "tt_connections tt cid = Some conn \<Longrightarrow> cn_socket_fd conn \<in> connection_fds tt"
  by (auto simp: connection_fds_def ran_def)

text \<open>A fresh descriptor goes into the table under a fresh id.\<close>

lemma accounted_add:
  assumes "accounted opened rest (tt, w)" and "opens opened w (cn_socket_fd conn) w'"
    and "0 \<le> cn_socket_fd conn" and "tt_connections tt cid = None" and "opened w'' = opened w'"
  shows "accounted opened rest (add_connection cid conn tt, w'')"
proof -
  have "connection_fds (add_connection cid conn tt) = insert (cn_socket_fd conn) (connection_fds tt)"
    using assms(4) by (simp add: connection_fds_def add_connection_def hm_put_def)
  moreover have "cn_socket_fd conn' \<noteq> cn_socket_fd conn" "cn_socket_fd conn \<noteq> cn_socket_fd conn'"
    if "tt_connections tt cid' = Some conn'" for cid' conn'
    using assms(1-3) connection_fds_I [OF that] by (auto simp: accounted_def opens_def)
  ultimately show ?thesis using assms
    by (auto simp: accounted_def opens_def add_connection_def hm_put_def listening_fd_def split: if_splits)
qed

lemma accounted_cong:
  assumes "tt_connections tt' = tt_connections tt" and "tt_listen_socket tt' = tt_listen_socket tt"
    and "opened w' = opened w"
  shows "accounted opened rest (tt', w') \<longleftrightarrow> accounted opened rest (tt, w)"
  using assms by (simp add: accounted_def listening_fd_def connection_fds_def)


lemma accounted_listen:
  assumes "tracks_fds os opened" and "accounted opened rest (tt, w)"
  shows "accounted opened (rest \<union> listening_fd tt) (snd (tcp_listen os a p tt w))"
proof -
  obtain fd w1 where s: "os_socket os True w = (fd, w1)" by (cases "os_socket os True w")
  have o: "opens opened w fd w1" using tracks_socket [OF assms(1), of w True] by (simp add: s)
  have old: "accounted opened (rest \<union> listening_fd tt) (tt\<lparr>tt_listen_socket := fd'\<rparr>, w')"
    if "opened w' = opened w" "fd' < 0" for w' fd'
    using assms(2) that by (auto simp: accounted_def listening_fd_def)
  have new: "accounted opened (rest \<union> listening_fd tt)
      (tt\<lparr>tt_listen_socket := fd, tt_local_port := q, tt_local_address := b\<rparr>, w')"
    if "opened w' = opened w1" "0 \<le> fd" for w' q b
    using assms(2) that o by (auto simp: accounted_def opens_def listening_fd_def)
  show ?thesis
  proof (cases "fd < 0")
    case True
    then show ?thesis using old [of w1 fd] o by (simp add: tcp_listen_def s opens_def)
  next
    case False
    have "accounted opened (rest \<union> listening_fd tt) (tt\<lparr>tt_listen_socket := -1\<rparr>, os_close os fd w')"
      if "opened w' = opened w1" for w'
      by (rule old) (use o False that tracksD(1) [OF assms(1)] in \<open>simp_all add: opens_def\<close>)
    then show ?thesis using False new
      by (auto simp: tcp_listen_def s case_prod_beta Let_def tracksD [OF assms(1)])
  qed
qed

lemma tcp_ok_next_free:
  assumes "tcp_ok tt"
  shows "tt_connections tt (tt_next_connection_id tt) = None"
  using assms by (cases "tt_connections tt (tt_next_connection_id tt)") (auto simp: tcp_ok_def)

lemma accounted_accept:
  assumes "tracks_fds os opened" and "tcp_ok tt" and "accounted opened rest (tt, w)"
    and "tcp_step os Tev_accept (tt, w) = Some c"
  shows "accounted opened rest c"
proof -
  obtain fd a p w1 where s: "os_accept os (tt_listen_socket tt) w = ((fd, a, p), w1)"
    by (metis prod_cases3 surj_pair)
  have o: "opens opened w fd w1"
    using tracks_accept [OF assms(1), of w "tt_listen_socket tt"] by (simp add: s)
  have "accounted opened rest (tt\<lparr>tt_next_connection_id := n\<rparr>, w)" for n
    using assms(3) by (subst accounted_cong) auto
  then show ?thesis
    using assms(3,4) o tcp_ok_next_free [OF assms(2)]
    by (auto simp: tcp_accept_turn_def s Let_def opens_def intro!: accounted_add
        iff: accounted_cong [of _ tt _ w1] split: if_splits)
qed


lemma accounted_connect_new:
  assumes "tracks_fds os opened" and "tcp_ok tt" and "accounted opened rest (tt, w)"
    and "connect_new os address port tt w = (result, tt', actions, w')"
  shows "accounted opened rest (tt', w')"
proof -
  obtain fd w1 where s: "os_socket os True w = (fd, w1)" by (cases "os_socket os True w")
  have o: "opens opened w fd w1" using tracks_socket [OF assms(1), of w True] by (simp add: s)
  have same: "accounted opened rest (tt, v)" if "opened v = opened w" for v
    using assms(3) that accounted_cong [of tt tt opened v w] by simp
  have closed: "accounted opened rest (tt, os_close os fd v)" if "opened v = opened w1" "\<not> fd < 0" for v
    by (rule same) (use o that tracksD(1) [OF assms(1)] in \<open>simp_all add: opens_def\<close>)
  have new: "accounted opened rest
      ((add_connection (tt_next_connection_id tt) \<lparr>cn_socket_fd = fd, cn_remote_address = address,
           cn_remote_port = port, cn_running = True\<rparr> (tt\<lparr>tt_next_connection_id := n\<rparr>))
         \<lparr>tt_endpoint_to_connection := m\<rparr>, v)" if "opened v = opened w1" "\<not> fd < 0" for n m v
  proof -
    let ?tt = "tt\<lparr>tt_next_connection_id := n\<rparr>"
    let ?conn = "\<lparr>cn_socket_fd = fd, cn_remote_address = address, cn_remote_port = port, cn_running = True\<rparr>"
    have "accounted opened rest (?tt, w)" using assms(3) by (subst accounted_cong) auto
    from accounted_add [OF this, of ?conn w1 "tt_next_connection_id tt" v]
    have "accounted opened rest (add_connection (tt_next_connection_id tt) ?conn ?tt, v)"
      using o that tcp_ok_next_free [OF assms(2)] by simp
    then show ?thesis by (subst accounted_cong) auto
  qed
  show ?thesis
  proof (cases "fd < 0")
    case True
    then show ?thesis using assms(4) o same by (auto simp: connect_new_def s opens_def)
  next
    case False
    show ?thesis
    proof (cases "os_pton os address")
      case None
      then show ?thesis using assms(4) False closed by (auto simp: connect_new_def s)
    next
      case (Some a)
      then show ?thesis using assms(4) False closed new
        by (auto simp: connect_new_def s case_prod_beta Let_def tracksD [OF assms(1)] split: if_splits)
    qed
  qed
qed

lemma accounted_connect:
  assumes "tracks_fds os opened" and "tcp_ok tt" and "accounted opened rest (tt, w)"
    and "tcp_connect os address port tt w = (result, tt', actions, w')"
  shows "accounted opened rest (tt', w')"
proof -
  let ?tt = "tt\<lparr>tt_endpoint_to_connection := om_del (address, port) (tt_endpoint_to_connection tt)\<rparr>"
  have dropped: "accounted opened rest (?tt, w)" using assms(3) by (subst accounted_cong) auto
  consider "connect_new os address port tt w = (result, tt', actions, w')"
    | "tt' = tt" "w' = w" | "connect_new os address port ?tt w = (result, tt', actions, w')"
    using assms(4) unfolding tcp_connect_def
    by (cases "om_get (tt_endpoint_to_connection tt) (address, port)") (simp, simp split: if_splits)
  then show ?thesis
  proof cases
    case 1
    show ?thesis by (rule accounted_connect_new [OF assms(1-3) 1])
  next
    case 2
    then show ?thesis using assms(3) by simp
  next
    case 3
    show ?thesis by (rule accounted_connect_new [OF assms(1) tcp_ok_drop_endpoint [OF assms(2)] dropped 3])
  qed
qed

lemma accounted_close:
  assumes "tracks_fds os opened" and "accounted opened rest (tt, w)"
  shows "accounted opened rest (close_connection os cid tt w)"
proof (cases "tt_connections tt cid")
  case (Some conn)
  have once: "k = cid" if "tt_connections tt k = Some c" "cn_socket_fd c = cn_socket_fd conn" for k c
    using assms(2) Some that unfolding accounted_def by blast
  have fds: "connection_fds (tt\<lparr>tt_connections := hm_del cid (tt_connections tt)\<rparr>) =
      connection_fds tt - {cn_socket_fd conn}"
  proof (intro equalityI subsetI)
    fix fd
    assume "fd \<in> connection_fds tt - {cn_socket_fd conn}"
    then obtain k c where "tt_connections tt k = Some c" "cn_socket_fd c = fd" "fd \<noteq> cn_socket_fd conn"
      by (auto simp: connection_fds_def ran_def)
    moreover from this have "k \<noteq> cid" using Some by auto
    ultimately show "fd \<in> connection_fds (tt\<lparr>tt_connections := hm_del cid (tt_connections tt)\<rparr>)"
      using connection_fds_I [of "tt\<lparr>tt_connections := hm_del cid (tt_connections tt)\<rparr>" k c]
      by (simp add: hm_del_def)
  qed (use once in \<open>auto simp: connection_fds_def hm_del_def ran_def split: if_splits\<close>)
  have "0 \<le> cn_socket_fd conn" "cn_socket_fd conn \<in> connection_fds tt"
    using assms(2) connection_fds_I [OF Some] by (auto simp: accounted_def)
  then show ?thesis using assms(2) fds tracksD(1) [OF assms(1)]
    by (auto simp: close_connection_def Some accounted_def hm_del_def)
qed (use assms(2) in \<open>simp add: close_connection_def\<close>)

lemma shutdown_connections_opened:
  "tracks_fds os opened \<Longrightarrow> opened (shutdown_connections os tt order w) = opened w"
  by (induction order arbitrary: w) (simp_all add: tracksD split: option.split)

lemma stop_opened: "tracks_fds os opened \<Longrightarrow> opened (snd (tcp_stop os order tt w)) = opened w"
  by (simp add: tcp_stop_def shutdown_connections_opened tracksD)

lemma accounted_stop:
  assumes "tracks_fds os opened" and "accounted opened rest (tt, w)" and "tcp_stop_returns tt"
  shows "accounted opened rest (tcp_stop os order tt w)"
proof -
  obtain tt' w' where s: "tcp_stop os order tt w = (tt', w')" by (cases "tcp_stop os order tt w")
  have "opened w' = opened w" using stop_opened [OF assms(1), of order tt w] by (simp add: s)
  moreover have "tt_connections tt' = tt_connections tt" "tt_listen_socket tt' = tt_listen_socket tt"
    using s assms(3) by (auto simp: tcp_stop_def tcp_stop_returns_def)
  ultimately show ?thesis using assms(2) accounted_cong [of tt' tt opened w' w rest] by (simp add: s)
qed

section \<open>Receiving and sending open and close nothing\<close>

lemma read_body_opened:
  assumes "tracks_fds os opened" and "read_body (os_recv os fd) n buf w = Inr (result, w')"
  shows "opened w' = opened w"
  using assms(2)
proof (induction "n - length buf" arbitrary: buf w rule: less_induct)
  case less
  obtain r w1 where r: "os_recv os fd (n - length buf) False w = (r, w1)"
    by (cases "os_recv os fd (n - length buf) False w")
  have o: "opened w1 = opened w"
    using tracksD(9) [OF assms(1), of fd "n - length buf" False w] by (simp add: r)
  show ?case
  proof (cases "length buf < n \<and> (\<exists>chunk. r = Some chunk \<and> chunk \<noteq> [])")
    case True
    then obtain chunk where c: "r = Some chunk" "chunk \<noteq> []" "length buf < n" by blast
    then have "read_body (os_recv os fd) n (buf @ chunk) w1 = Inr (result, w')"
      using less.prems by (subst (asm) read_body.simps) (simp add: r split: if_splits)
    moreover have "n - length (buf @ chunk) < n - length buf" using c by (cases chunk) simp_all
    ultimately show ?thesis using less.hyps [of "buf @ chunk" w1] o by simp
  next
    case False
    then show ?thesis using less.prems o
      by (subst (asm) read_body.simps) (auto simp: r split: if_splits option.splits)
  qed
qed

lemma receive_frame_opened:
  assumes "tracks_fds os opened" and "receive_frame os alive fd callback cid w = Inr (go_on, actions, w')"
  shows "opened w' = opened w"
proof -
  obtain r w1 where r: "os_recv os fd 4 True w = (r, w1)" by (cases "os_recv os fd 4 True w")
  have o: "opened w1 = opened w" using tracksD(9) [OF assms(1), of fd 4 True w] by (simp add: r)
  have b: "opened w2 = opened w" if "read_body (os_recv os fd) n [] w1 = Inr (x, w2)" for n x w2
    using read_body_opened [OF assms(1) that] o by simp
  show ?thesis using assms(2) o b
    by (fastforce simp: receive_frame_def r rbind_Inr_iff split: option.splits if_splits prod.splits)
qed


definition keeps_opened :: "('w \<Rightarrow> int set) \<Rightarrow> 'w os \<Rightarrow> 'w \<Rightarrow> fault + tcp_action list \<times> 'w \<Rightarrow> bool" where
  "keeps_opened opened os w y \<longleftrightarrow> (tracks_fds os opened \<longrightarrow>
     (\<forall>actions w'. y = Inr (actions, w') \<longrightarrow> opened w' = opened w))"

lemma receive_loop_opened:
  assumes "tracks_fds os opened"
  shows "receive_loop os alive serving fd callback cid w = Some (Inr (actions, w')) \<Longrightarrow> opened w' = opened w"
proof -
  assume "receive_loop os alive serving fd callback cid w = Some (Inr (actions, w'))"
  then have "keeps_opened opened os w (Inr (actions, w'))"
  proof (rule receive_loop.raw_induct [where P = "\<lambda>os _ _ _ _ _ w y. keeps_opened opened os w y", rotated])
    fix loop os alive serving fd callback cid w y
    assume hyp: "\<And>os alive serving fd callback cid w y. loop os alive serving fd callback cid w = Some y \<Longrightarrow> keeps_opened opened os w y"
      and y: "(if \<not> (alive w \<and> serving w) then Some (Inr ([], w))
        else case receive_frame os alive fd callback cid w of Inl f \<Rightarrow> Some (Inl f)
          | Inr (go_on, actions, w) \<Rightarrow> if \<not> go_on then Some (Inr (actions, w))
              else Option.bind (loop os alive serving fd callback cid w) (\<lambda>rest.
                Some (rbind rest (\<lambda>(actions', w). Inr (actions @ actions', w))))) = Some y"
    show "keeps_opened opened os w y"
    proof (cases "receive_frame os alive fd callback cid w")
      case (Inl f)
      then show ?thesis using y by (auto simp: keeps_opened_def split: if_splits)
    next
      case (Inr r)
      obtain go_on as w1 where r: "r = (go_on, as, w1)" by (cases r)
      have "tracks_fds os opened \<Longrightarrow> opened w1 = opened w"
        using receive_frame_opened [of os opened] Inr r by simp
      then show ?thesis using hyp [of os alive serving fd callback cid w1] y Inr r
        by (fastforce simp: keeps_opened_def bind_eq_Some_conv rbind_Inr_iff split: if_splits)
    qed
  qed
  then show "opened w' = opened w" using assms by (simp add: keeps_opened_def)
qed

lemma send_opened: "tracks_fds os opened \<Longrightarrow> opened (snd (tcp_send_to os cid m tt w)) = opened w"
  by (simp add: tcp_send_to_def tcp_send_bytes_def case_prod_beta Let_def tracksD split: option.split)

section \<open>Nothing is lost but what is said\<close>

lemma accounted_receiver:
  assumes "tracks_fds os opened" and "accounted opened rest (tt, w)"
    and "connection_receive_thread os alive serving cid tt w = Some (Inr (tt', actions, w'))"
  shows "accounted opened rest (tt', w') \<and> (\<exists>v. tt' = tt \<or> tt' = fst (close_connection os cid tt v))"
proof (cases "tt_connections tt cid")
  case None
  then show ?thesis using assms(2,3) by (simp add: connection_receive_thread_def)
next
  case (Some conn)
  then obtain as w1 where l: "receive_loop os alive serving (cn_socket_fd conn) (tt_message_callback tt) cid w =
      Some (Inr (as, w1))" and c: "close_connection os cid tt w1 = (tt', w')"
    using assms(3) by (auto simp: connection_receive_thread_def rbind_Inr_iff case_prod_beta Let_def prod_eq_iff)
  have "accounted opened rest (tt, w1)"
    using assms(2) receive_loop_opened [OF assms(1) l] by (subst accounted_cong) auto
  then show ?thesis using accounted_close [OF assms(1), of rest tt w1 cid] c by (metis fst_conv)
qed

lemma fd_step_ok:
  assumes "tracks_fds os opened" and "tcp_ok (fst c)" and "0 < ids_left (fst c)"
    and "accounted opened rest c" and "fd_step os alive serving e c = Some c'"
  shows "accounted opened (rest \<union> loses e (fst c)) c' \<and> tcp_ok (fst c') \<and>
    ids_left (fst c) \<le> ids_left (fst c') + 1"
proof -
  obtain tt w where c: "c = (tt, w)" by (cases c)
  show ?thesis
  proof (cases e)
    case (Operation ev)
    have c': "tcp_step os ev (tt, w) = Some c'" using assms(5) by (simp add: Operation c)
    have "accounted opened (rest \<union> loses (Operation ev) tt) c'"
    proof (cases ev)
      case (Tev_connect a p)
      then show ?thesis using accounted_connect [OF assms(1), of tt rest w a p] assms(2,4) c'
        by (auto simp: c split: prod.splits)
    next
      case Tev_start
      have "accounted opened rest (snd (tcp_start tt), w)"
        using assms(4) unfolding c by (subst accounted_cong) (auto simp: tcp_start_def)
      then show ?thesis using c' by (auto simp: Tev_start)
    next
      case Tev_accept
      then show ?thesis using accounted_accept [OF assms(1), of tt rest w c'] assms(2,4) c' by (simp add: c)
    next
      case (Tev_stop order)
      then show ?thesis using accounted_stop [OF assms(1), of rest tt w order] assms(4) c'
        by (auto simp: c split: if_splits)
    qed (use assms(4) c' accounted_listen [OF assms(1)] accounted_close [OF assms(1)] in \<open>auto simp: c\<close>)
    then show ?thesis using tcp_step_ok [OF assms(2,3)] c' by (simp add: Operation c)
  next
    case (Receiver cid)
    then obtain tt' actions w' where r: "connection_receive_thread os alive serving cid tt w = Some (Inr (tt', actions, w'))"
      "c' = (tt', w')"
      using assms(5) by (auto simp: c split: option.splits sum.splits)
    obtain v where "accounted opened rest (tt', w')" "tt' = tt \<or> tt' = fst (close_connection os cid tt v)"
      using accounted_receiver [OF assms(1) _ r(1)] assms(4) c by blast
    moreover have "ids_left (fst (close_connection os cid tt v)) = ids_left tt"
      by (simp add: close_connection_def ids_left_def split: option.split)
    ultimately show ?thesis using close_ok assms(2) by (auto simp: Receiver c r(2))
  next
    case (Sending cid m)
    have "accounted opened rest (tt, snd (tcp_send_to os cid m tt w))"
      using assms(4) send_opened [OF assms(1)] unfolding c by (subst accounted_cong) auto
    then show ?thesis using assms(2,5) by (auto simp: Sending c)
  qed
qed

lemma loses_held:
  "accounted opened rest c \<Longrightarrow> rest \<inter> loses e (fst c) = {}"
  by (cases e; cases c) (rename_tac ev tt w, case_tac ev, auto simp: accounted_def)

lemma fd_run_ok:
  assumes "tracks_fds os opened" and "fd_run os alive serving es c = Some c'"
    and "tcp_ok (fst c)" and "length es \<le> ids_left (fst c)" and "accounted opened rest c"
  shows "accounted opened (rest \<union> lost os alive serving es c) c' \<and> rest \<inter> lost os alive serving es c = {}"
  using assms(2-)
proof (induction es arbitrary: c rest)
  case (Cons e es)
  obtain d where d: "fd_step os alive serving e c = Some d" "fd_run os alive serving es d = Some c'"
    using Cons.prems(1) by (auto simp del: fd_step.simps simp: bind_eq_Some_conv)
  have s: "accounted opened (rest \<union> loses e (fst c)) d" "tcp_ok (fst d)" "length es \<le> ids_left (fst d)"
    using fd_step_ok [OF assms(1) Cons.prems(2) _ Cons.prems(4) d(1)] Cons.prems(3) by auto
  have "lost os alive serving (e # es) c = loses e (fst c) \<union> lost os alive serving es d"
    by (simp del: fd_step.simps add: d(1))
  then show ?case using Cons.IH [OF d(2) s(2,3,1)] loses_held [OF Cons.prems(4), of e]
    by (auto simp: Un_assoc)
qed simp

section \<open>What destruction leaves\<close>

lemma close_sockets_none: "tt_connections tt = Map.empty \<Longrightarrow> close_sockets os tt order w = w"
  by (induction order arbitrary: w) simp_all

lemma destroy_opened:
  assumes "tracks_fds os opened" and "accounted opened rest (tt, w)" and "tcp_destroy os shut order tt w = Some w'"
  shows "connection_fds tt = {}" and "opened w' = rest"
proof -
  have none: "tt_connections tt = Map.empty"
    using assms(3) by (auto simp: tcp_destroy_def tcp_stop_returns_def split: if_splits)
  show empty: "connection_fds tt = {}" by (simp add: connection_fds_def none)
  obtain tt' w1 where s: "tcp_stop os shut tt w = (tt', w1)" by (cases "tcp_stop os shut tt w")
  have "opened w1 = opened w" using stop_opened [OF assms(1), of shut tt w] by (simp add: s)
  moreover have "tt_connections tt' = Map.empty" "tt_listen_socket tt' = tt_listen_socket tt"
    using s by (auto simp: tcp_stop_def)
  ultimately show "opened w' = rest" using assms(2,3) tracksD(1) [OF assms(1)] empty
    by (auto simp: tcp_destroy_def s close_sockets_none accounted_def listening_fd_def split: if_splits)
qed

text \<open> C28: Where the descriptors of the TCP transport go. In any run of at most 2^32 - 2 events, failing
  calls included, a descriptor the transport opened is in exactly one place: it is its listening
  socket, or the socket of exactly one connection in the table, or was lost, or has been closed; the
  only thing that loses one is a second \<open>listen\<close>. The destructor of a transport whose table is empty
  closes what is left, so that only what was lost stays open; with a connection in the table it
  does not return, since \<open>stop\<close> does not. \<close>

theorem descriptors_accounted_for:
  assumes "tracks_fds os opened" and "fd_run os alive serving es (TcpTransport, w0) = Some (tt, w)"
    and "length es \<le> 2 ^ 32 - 2"
  defines "gone \<equiv> lost os alive serving es (TcpTransport, w0)"
  shows "opened w = opened w0 \<union> gone \<union> listening_fd tt \<union> connection_fds tt \<and>
    opened w0 \<inter> (gone \<union> listening_fd tt \<union> connection_fds tt) = {} \<and>
    gone \<inter> (listening_fd tt \<union> connection_fds tt) = {} \<and> listening_fd tt \<inter> connection_fds tt = {} \<and>
    (\<forall>cid cid' conn conn'. tt_connections tt cid = Some conn \<and> tt_connections tt cid' = Some conn' \<and>
       cn_socket_fd conn = cn_socket_fd conn' \<longrightarrow> cid = cid') \<and>
    (case tcp_destroy os shut order tt w of
       None \<Rightarrow> tt_connections tt \<noteq> Map.empty
     | Some w' \<Rightarrow> tt_connections tt = Map.empty \<and> opened w' = opened w0 \<union> gone)"
proof -
  have start: "accounted opened (opened w0) (TcpTransport, w0)" "length es \<le> ids_left (fst (TcpTransport, w0))"
    using assms(3) by (simp_all add: accounted_def TcpTransport_def listening_fd_def connection_fds_def ids_left_def)
  have a: "accounted opened (opened w0 \<union> gone) (tt, w)" "opened w0 \<inter> gone = {}"
    using fd_run_ok [OF assms(1,2) _ start(2,1)] tcp_ok_new unfolding gone_def by simp_all
  have "case tcp_destroy os shut order tt w of
       None \<Rightarrow> tt_connections tt \<noteq> Map.empty
     | Some w' \<Rightarrow> tt_connections tt = Map.empty \<and> opened w' = opened w0 \<union> gone"
    using destroy_opened(2) [OF assms(1) a(1), of shut order]
    by (cases "tcp_stop_returns tt"; cases "tcp_destroy os shut order tt w")
      (auto simp: tcp_destroy_def tcp_stop_returns_def case_prod_beta Let_def)
  moreover have "opened w = opened w0 \<union> gone \<union> listening_fd tt \<union> connection_fds tt"
    "opened w0 \<inter> (gone \<union> listening_fd tt \<union> connection_fds tt) = {}"
    "gone \<inter> (listening_fd tt \<union> connection_fds tt) = {}" "listening_fd tt \<inter> connection_fds tt = {}"
    using a by (auto simp: accounted_def)
  moreover have "cid = cid'" if "tt_connections tt cid = Some conn" "tt_connections tt cid' = Some conn'"
      "cn_socket_fd conn = cn_socket_fd conn'" for cid cid' conn conn'
    using a(1) that unfolding accounted_def by blast
  ultimately show ?thesis by blast
qed

text \<open>A system that numbers descriptors and accepts whenever it is asked.\<close>

definition fresh_fd :: "int list \<Rightarrow> int" where
  "fresh_fd fds = fold max fds 2 + 1"

lemma fold_max_bound: "(m :: int) \<le> fold max fds m \<and> (\<forall>fd \<in> set fds. fd \<le> fold max fds m)"
proof (induction fds arbitrary: m)
  case (Cons fd fds)
  show ?case using Cons.IH [of "max fd m"] by auto
qed simp

lemma fresh_fd: "fresh_fd fds \<notin> set fds" "\<not> fresh_fd fds < 0"
  using fold_max_bound [of 2 fds] by (auto simp: fresh_fd_def)

definition fd_os :: "int list os" where
  "fd_os = \<lparr>os_socket = \<lambda>stream w. (fresh_fd w, fresh_fd w # w), os_reuseaddr = \<lambda>fd w. (0, w),
     os_add_membership = \<lambda>fd g i w. (0, w), os_bind = \<lambda>fd a p w. (0, w),
     os_getsockname = \<lambda>fd w. (None, w), os_listen = \<lambda>fd n w. (0, w),
     os_connect = \<lambda>fd a p w. (-1, w), os_accept = \<lambda>fd w. ((fresh_fd w, [127, 0, 0, 1], 9), fresh_fd w # w),
     os_shutdown = \<lambda>fd w. w, os_close = \<lambda>fd w. filter (\<lambda>fd'. fd' \<noteq> fd) w,
     os_sendto = \<lambda>fd d a p w. (-1, w), os_send = \<lambda>fd d w. (-1, w),
     os_recvfrom = \<lambda>fd n w. (None, w), os_recv = \<lambda>fd n all w. (None, w),
     os_pton = \<lambda>s. Some [127, 0, 0, 1], os_ntop = \<lambda>a. ''127.0.0.1''\<rparr>"

lemma fd_os_tracks: "tracks_fds fd_os set"
  using fresh_fd by (auto simp: tracks_fds_def opens_def fd_os_def)

text \<open>A server that listens twice, accepts a client, closes, fails to connect elsewhere, and stops.\<close>

definition short_service :: "fd_event list" where
  "short_service = map Operation [Tev_listen ''127.0.0.1'' 30501, Tev_listen ''127.0.0.1'' 30503, Tev_start,
     Tev_accept, Tev_close 1, Tev_connect ''10.0.0.1'' 30502, Tev_stop []]"

theorem descriptors_accounted_for_witness:
  "\<exists>tt w'. fd_run fd_os (\<lambda>_. True) (\<lambda>_. True) short_service (TcpTransport, []) = Some (tt, [4, 3]) \<and>
     tcp_destroy fd_os [] [] tt [4, 3] = Some w' \<and> set w' = {3}"
proof -
  note defs = short_service_def fd_os_def TcpTransport_def tcp_listen_def tcp_start_def tcp_accept_turn_def
    fresh_fd_def add_connection_def tcp_connect_def connect_new_def tcp_stop_def om_empty_def om_get_def
    close_connection_def om_del_def hm_put_def hm_del_def tcp_stop_returns_def
  obtain tt where r: "fd_run fd_os (\<lambda>_. True) (\<lambda>_. True) short_service (TcpTransport, []) = Some (tt, [4, 3])"
    "tt_connections tt = Map.empty"
    by (simp add: defs Let_def fun_eq_iff)
  have lost: "lost fd_os (\<lambda>_. True) (\<lambda>_. True) short_service (TcpTransport, []) = {3}"
    by (simp add: defs listening_fd_def Let_def fun_eq_iff)
  obtain w' where w': "tcp_destroy fd_os [] [] tt [4, 3] = Some w'"
    using r(2) by (simp add: tcp_destroy_def tcp_stop_returns_def case_prod_beta Let_def)
  have "length short_service \<le> 2 ^ 32 - 2" by (simp add: short_service_def)
  from descriptors_accounted_for [OF fd_os_tracks r(1) this, of "[]" "[]"]
  have "set w' = {3}" by (simp add: w' lost)
  then show ?thesis using r(1) w' by blast
qed

text \<open>The UDP transport returns its descriptor, whether \<open>init\<close> fails or not.\<close>

lemma udp_descriptor_closed:
  assumes "tracks_fds os opened" and "udp_init os address port UdpTransport w = (ok, ut, w')"
    and "opened v = opened w'"
  shows "opened (udp_destroy os ut v) = opened w"
proof -
  obtain fd w1 where s: "os_socket os False w = (fd, w1)" by (cases "os_socket os False w")
  have "opens opened w fd w1" using tracks_socket [OF assms(1), of w False] by (simp add: s)
  then show ?thesis using assms(2,3) tracksD [OF assms(1)]
    by (auto simp: udp_init_def udp_destroy_def udp_stop_def s opens_def UdpTransport_def case_prod_beta Let_def
        split: if_splits)
qed

end
