(* ===== verification/UnitTests.thy ===== *)
theory UnitTests
  imports Message SdEntry
begin

text \<open>
  The unit tests of the repository (\<open>tests/\<close>), each as what it expects of the code, stated over the
  model: a check that the model computes what the tests say the code computes. A pointer that a
  test expects not to be null is one that no definition lets be null, and the factories of
  messages always return one.
\<close>

section \<open>Expectations\<close>

text \<open>A read that succeeds, with what is expected of the value and the payload after it.\<close>

definition reads :: "fault + 'a option \<times> payload \<Rightarrow> ('a \<Rightarrow> payload \<Rightarrow> bool) \<Rightarrow> bool" where
  "reads r expected = (case r of Inr (Some v, p) \<Rightarrow> expected v p | _ \<Rightarrow> False)"

definition fails :: "fault + 'a option \<times> payload \<Rightarrow> bool" where
  "fails r = (case r of Inr (None, p) \<Rightarrow> True | _ \<Rightarrow> False)"

definition found :: "fault + 'a option \<Rightarrow> ('a \<Rightarrow> bool) \<Rightarrow> bool" where
  "found r expected = (case r of Inr (Some v) \<Rightarrow> expected v | _ \<Rightarrow> False)"

definition not_found :: "fault + 'a option \<Rightarrow> bool" where
  "not_found r = (case r of Inr None \<Rightarrow> True | _ \<Rightarrow> False)"

fun contains :: "string \<Rightarrow> string \<Rightarrow> bool" where
  "contains t [] \<longleftrightarrow> t = []"
| "contains t (c # s) \<longleftrightarrow> take (length t) (c # s) = t \<or> contains t s"

lemmas expectations [simp] = reads_def fails_def found_def not_found_def

section \<open>Messages\<close>

abbreviation test_request :: message where
  "test_request \<equiv> create_request 0x1234 0x0001 0x0001 0x0001 False"

definition test_create_request :: bool where
  "test_create_request \<longleftrightarrow> (let m = test_request in
     m_service_id m = 0x1234 \<and> m_instance_id m = 0x0001 \<and> m_method_id m = 0x0001 \<and>
     m_client_id m = 0x0001 \<and> m_message_type m = REQUEST \<and> is_request m \<and> \<not> is_event m)"

definition test_create_notification :: bool where
  "test_create_notification \<longleftrightarrow> (let m = create_notification 0x1234 0x0001 0x8001 in
     m_service_id m = 0x1234 \<and> m_instance_id m = 0x0001 \<and> m_method_id m = 0x8001 \<and>
     m_message_type m = NOTIFICATION \<and> \<not> is_request m \<and> is_event m)"

definition test_create_response :: bool where
  "test_create_response \<longleftrightarrow> (let m = create_response test_request in
     m_service_id m = 0x1234 \<and> m_method_id m = 0x0001 \<and> m_client_id m = 0x0001 \<and>
     m_message_type m = RESPONSE \<and> is_response_type m)"

definition test_create_error_response :: bool where
  "test_create_error_response \<longleftrightarrow> (let m = create_error_response test_request E_UNKNOWN_SERVICE in
     m_message_type m = ERROR \<and> m_return_code m = E_UNKNOWN_SERVICE)"

definition test_serialize_deserialize :: bool where
  "test_serialize_deserialize \<longleftrightarrow>
     (let original = set_payload [1, 2, 3, 4, 5] (test_request\<lparr>m_session_id := 0x1234, m_interface_version := 1\<rparr>);
          serialized = serialize original
      in length serialized = HEADER_SIZE + 5 \<and>
        found (deserialize serialized (length serialized)) (\<lambda>m.
          m_service_id m = m_service_id original \<and> m_method_id m = m_method_id original \<and>
          m_client_id m = m_client_id original \<and> m_session_id m = m_session_id original \<and>
          m_interface_version m = m_interface_version original \<and>
          m_message_type m = m_message_type original \<and> m_return_code m = m_return_code original \<and>
          map_option payload_size (m_payload m) = Some 5))"

definition test_deserialize_too_short :: bool where
  "test_deserialize_too_short \<longleftrightarrow> not_found (deserialize (replicate 10 0) 10)"

definition test_deserialize_invalid_protocol_version :: bool where
  "test_deserialize_invalid_protocol_version \<longleftrightarrow>
     not_found (deserialize [0x12, 0x34, 0, 1, 0, 0, 0, 0, 0, 1, 0, 1, 0xFF, 1, 0, 0] HEADER_SIZE)"

definition test_set_get_payload :: bool where
  "test_set_get_payload \<longleftrightarrow> (let m = set_payload [0x11, 0x22, 0x33, 0x44] test_request in
     map_option payload_size (m_payload m) = Some 4 \<and> get_length m = 4)"

definition test_message_id_operations :: bool where
  "test_message_id_operations \<longleftrightarrow>
     (let m = create_request 0x1234 0x0001 0x5678 0x0001 False; m' = set_message_id 0xABCD1234 m in
      get_message_id m = 0x12345678 \<and> m_service_id m' = 0xABCD \<and> m_method_id m' = 0x1234)"

definition test_request_id_operations :: bool where
  "test_request_id_operations \<longleftrightarrow>
     (let m = test_request\<lparr>m_session_id := 0x5678\<rparr>; m' = set_request_id 0x1234ABCD m in
      get_request_id m = 0x00015678 \<and> m_client_id m' = 0x1234 \<and> m_session_id m' = 0xABCD)"

definition test_is_valid :: bool where
  "test_is_valid \<longleftrightarrow> is_valid test_request \<and> \<not> is_valid (test_request\<lparr>m_protocol_version := 0xFF\<rparr>)"

definition test_to_string :: bool where
  "test_to_string \<longleftrightarrow> (let s = to_string (test_request\<lparr>m_session_id := 0x1234\<rparr>) in
     contains ''SID=1234'' s \<and> contains ''IID=1'' s \<and> contains ''SSID=1234'' s)"

section \<open>Payloads\<close>

definition test_default_constructor :: bool where
  "test_default_constructor \<longleftrightarrow> payload_size payload_empty = 0 \<and> p_data payload_empty = [] \<and>
     p_position payload_empty = 0"

definition test_constructor_with_data :: bool where
  "test_constructor_with_data \<longleftrightarrow> payload_size (payload_of [1, 2, 3, 4]) = 4 \<and>
     p_data (payload_of [1, 2, 3, 4]) \<noteq> []"

definition test_constructor_with_pointer :: bool where
  "test_constructor_with_pointer \<longleftrightarrow>
     (case payload_from [1, 2, 3, 4] 4 of Inr p \<Rightarrow> payload_size p = 4 | Inl _ \<Rightarrow> False)"

definition test_append_u8 :: bool where
  "test_append_u8 \<longleftrightarrow> (let p = append_u8 0xAB payload_empty in
     payload_size p = 1 \<and> reads (get_u8 p) (\<lambda>v _. v = 0xAB))"

definition test_append_u16_big_endian :: bool where
  "test_append_u16_big_endian \<longleftrightarrow> (let p = append_u16 0x1234 True payload_empty in
     payload_size p = 2 \<and> reads (get_u16 True p) (\<lambda>v _. v = 0x1234))"

definition test_append_u16_little_endian :: bool where
  "test_append_u16_little_endian \<longleftrightarrow>
     reads (get_u16 False (append_u16 0x1234 False payload_empty)) (\<lambda>v _. v = 0x1234)"

definition test_append_u32_big_endian :: bool where
  "test_append_u32_big_endian \<longleftrightarrow> (let p = append_u32 0x12345678 True payload_empty in
     payload_size p = 4 \<and> reads (get_u32 True p) (\<lambda>v _. v = 0x12345678))"

definition test_append_u64_big_endian :: bool where
  "test_append_u64_big_endian \<longleftrightarrow> (let p = append_u64 0x1234567890ABCDEF True payload_empty in
     payload_size p = 8 \<and> reads (get_u64 True p) (\<lambda>v _. v = 0x1234567890ABCDEF))"

definition test_append_bytes :: bool where
  "test_append_bytes \<longleftrightarrow> (let p = append_bytes [1, 2, 3, 4] payload_empty in
     payload_size p = 4 \<and>
     reads (get_bytes 4 (set_position 0 p)) (\<lambda>bs _. length bs = 4 \<and> bs ! 0 = 1 \<and> bs ! 3 = 4))"

definition test_get_out_of_bounds :: bool where
  "test_get_out_of_bounds \<longleftrightarrow> fails (get_u8 payload_empty) \<and>
     fails (get_u16 True (append_u8 1 payload_empty)) \<and> fails (get_u32 True (append_u8 1 payload_empty)) \<and>
     fails (get_u64 True (append_u8 1 payload_empty))"

definition test_set_position :: bool where
  "test_set_position \<longleftrightarrow> (let p = append_u16 0x5678 True (append_u16 0x1234 True payload_empty) in
     p_position p = 0 \<and>
     reads (get_u16 True p) (\<lambda>_ p. p_position p = 2 \<and> p_position (set_position 0 p) = 0 \<and>
       reads (get_u16 True (set_position 0 p)) (\<lambda>v _. v = 0x1234)))"

definition test_set_position_out_of_bounds :: bool where
  "test_set_position_out_of_bounds \<longleftrightarrow>
     reads (get_u16 True (append_u16 0x1234 True payload_empty)) (\<lambda>_ p.
       p_position p = 2 \<and> p_position (set_position 100 p) = 2)"

definition test_clear :: bool where
  "test_clear \<longleftrightarrow> (let p = set_position 1 (append_u16 0x1234 True payload_empty) in
     payload_size p = 2 \<and> p_position p = 1 \<and> payload_size (clear p) = 0 \<and> p_position (clear p) = 0 \<and>
     p_data (clear p) = [])"

definition test_copy :: bool where
  "test_copy \<longleftrightarrow> (let p = copy (append_u16 0x5678 True (append_u16 0x1234 True payload_empty)) in
     payload_size p = 4 \<and> p_position p = 0)"

text \<open>The texts of the tests as bytes: hello and abc.\<close>

definition test_get_string :: bool where
  "test_get_string \<longleftrightarrow>
     reads (get_string (append_bytes [0x68, 0x65, 0x6C, 0x6C, 0x6F] (append_u32 5 True payload_empty)))
       (\<lambda>s _. s = [0x68, 0x65, 0x6C, 0x6C, 0x6F])"

definition test_get_string_too_short :: bool where
  "test_get_string_too_short \<longleftrightarrow>
     fails (get_string (append_bytes [0x61, 0x62, 0x63] (append_u32 10 True payload_empty)))"

definition test_multiple_reads :: bool where
  "test_multiple_reads \<longleftrightarrow>
     reads (get_u8 (append_u8 4 (append_u8 3 (append_u8 2 (append_u8 1 payload_empty))))) (\<lambda>v1 p.
     reads (get_u8 p) (\<lambda>v2 p. reads (get_u8 p) (\<lambda>v3 p. reads (get_u8 p) (\<lambda>v4 p.
       v1 = 1 \<and> v2 = 2 \<and> v3 = 3 \<and> v4 = 4 \<and> fails (get_u8 p)))))"

section \<open>Service discovery entries and options\<close>

definition test_create_find_service :: bool where
  "test_create_find_service \<longleftrightarrow> (let e = create_find_service 0x1234 0x0001 in
     se_type e = FIND_SERVICE \<and> se_service_id e = 0x1234 \<and> se_instance_id e = 0x0001)"

definition test_create_offer_service :: bool where
  "test_create_offer_service \<longleftrightarrow> (let e = create_offer_service 0x1234 0x0001 1 0 0xFFFFFF in
     se_type e = OFFER_SERVICE \<and> se_service_id e = 0x1234 \<and> se_instance_id e = 0x0001 \<and>
     se_major_version e = 1 \<and> se_minor_version e = 0 \<and> se_ttl e = 0xFFFFFF)"

definition test_create_subscribe_eventgroup :: bool where
  "test_create_subscribe_eventgroup \<longleftrightarrow> (let e = create_subscribe_eventgroup 0x1234 0x0001 0x0001 1 0xFFFFFF in
     se_type e = SUBSCRIBE_EVENTGROUP \<and> se_service_id e = 0x1234 \<and> se_instance_id e = 0x0001 \<and>
     get_eventgroup_id e = 0x0001 \<and> se_major_version e = 1 \<and> se_ttl e = 0xFFFFFF)"

definition test_entry_serialize_deserialize :: bool where
  "test_entry_serialize_deserialize \<longleftrightarrow>
     (let original = create_offer_service 0x1234 0x5678 1 5 0xFFFFFF; serialized = entry_serialize original in
      length serialized = ENTRY_SIZE \<and>
      found (entry_deserialize serialized (length serialized)) (\<lambda>e.
        se_type e = se_type original \<and> se_service_id e = se_service_id original \<and>
        se_instance_id e = se_instance_id original \<and> se_major_version e = se_major_version original \<and>
        se_minor_version e = se_minor_version original \<and> se_ttl e = se_ttl original))"

definition test_entry_deserialize_too_short :: bool where
  "test_entry_deserialize_too_short \<longleftrightarrow> not_found (entry_deserialize (replicate 10 0) 10)"

definition test_is_service_entry :: bool where
  "test_is_service_entry \<longleftrightarrow> (let find = create_find_service 0x1234 0xFFFF;
     offer = create_offer_service 0x1234 0x0001 1 0 0xFFFFFF in
     is_service_entry find \<and> \<not> is_eventgroup_entry find \<and> is_service_entry offer \<and> \<not> is_eventgroup_entry offer)"

definition test_is_eventgroup_entry :: bool where
  "test_is_eventgroup_entry \<longleftrightarrow> (let sub = create_subscribe_eventgroup 0x1234 0x0001 0x0001 1 0xFFFFFF;
     ack = create_subscribe_eventgroup_ack 0x1234 0x0001 0x0001 1 0xFFFFFF in
     is_eventgroup_entry sub \<and> \<not> is_service_entry sub \<and> is_eventgroup_entry ack \<and> \<not> is_service_entry ack)"

text \<open>The system's \<open>inet_pton\<close> and \<open>inet_ntop\<close> are arguments, as in the model of the options.\<close>

definition test_endpoint_option :: "(string \<Rightarrow> bytes option) \<Rightarrow> (bytes \<Rightarrow> string) \<Rightarrow> bool" where
  "test_endpoint_option pton ntop \<longleftrightarrow> (let opt = new_endpoint_option pton ''192.168.1.1'' 30509 UDP in
     (case opt of IPv4EndpointOption a port protocol \<Rightarrow> port = 30509 \<and> protocol = UDP | _ \<Rightarrow> False) \<and>
     get_address ntop opt = ''192.168.1.1'' \<and> length (option_serialize opt) = OPTION_SIZE)"

definition test_endpoint_option_tcp :: "(string \<Rightarrow> bytes option) \<Rightarrow> bool" where
  "test_endpoint_option_tcp pton \<longleftrightarrow> (case new_endpoint_option pton ''10.0.0.1'' 30490 TCP of
     IPv4EndpointOption a port protocol \<Rightarrow> protocol = TCP | _ \<Rightarrow> False)"

definition test_multicast_option :: "(string \<Rightarrow> bytes option) \<Rightarrow> (bytes \<Rightarrow> string) \<Rightarrow> bool" where
  "test_multicast_option pton ntop \<longleftrightarrow> (let opt = new_multicast_option pton ''224.0.0.1'' 30490 in
     (case opt of IPv4MulticastOption a port r \<Rightarrow> port = 30490 | _ \<Rightarrow> False) \<and>
     get_address ntop opt = ''224.0.0.1'' \<and> length (option_serialize opt) = OPTION_SIZE)"

section \<open>The tests hold\<close>

lemmas message_model = create_request_def create_notification_def create_response_def
  create_error_response_def new_message_def set_payload_def payload_of_def payload_size_def
  is_request_def is_event_def is_response_type_def get_length_def get_message_id_def set_message_id_def
  get_request_id_def set_request_id_def is_valid_def serialize_def deserialize_def payload_bytes_def
  HEADER_SIZE_def SOMEIP_PROTOCOL_VERSION_def SOMEIP_INTERFACE_VERSION_def rd_def rd_slice_def
  rd16_def rd32_def be16_def be32_def mt_of_byte_def rc_of_byte_def size_add_def size_max_def

lemmas payload_model = payload_empty_def payload_of_def payload_size_def append_bytes_def append_u8_def
  append_u16_def append_u32_def append_u64_def get_u8_def get_u16_def get_u32_def get_u64_def get_bytes_def
  get_string_def set_position_def clear_def copy_def room_def advance_def size_add_def size_max_def rd_def
  rd_slice_def upt_8

lemmas entry_model = create_find_service_def create_offer_service_def create_subscribe_eventgroup_def
  create_subscribe_eventgroup_ack_def new_entry_def get_eventgroup_id_def is_service_entry_def
  is_eventgroup_entry_def entry_serialize_def entry_deserialize_def ENTRY_SIZE_def num_options_def
  rd_def rd_slice_def rd16_def rd32_def be16_def be24_def be32_def se_of_byte_def

lemma create_request_holds: "test_create_request"
  by (simp add: test_create_request_def message_model Let_def)

lemma create_notification_holds: "test_create_notification"
  by (simp add: test_create_notification_def message_model Let_def)

lemma create_response_holds: "test_create_response"
  by (simp add: test_create_response_def message_model Let_def)

lemma create_error_response_holds: "test_create_error_response"
  by (simp add: test_create_error_response_def message_model Let_def)

lemma serialize_deserialize_holds: "test_serialize_deserialize"
  by (simp add: test_serialize_deserialize_def message_model Let_def)

lemma deserialize_too_short_holds: "test_deserialize_too_short"
  by (simp add: test_deserialize_too_short_def message_model Let_def)

lemma deserialize_invalid_protocol_version_holds: "test_deserialize_invalid_protocol_version"
  by (simp add: test_deserialize_invalid_protocol_version_def message_model Let_def)

lemma set_get_payload_holds: "test_set_get_payload"
  by (simp add: test_set_get_payload_def message_model Let_def)

lemma message_id_operations_holds: "test_message_id_operations"
  by (simp add: test_message_id_operations_def message_model Let_def)

lemma request_id_operations_holds: "test_request_id_operations"
  by (simp add: test_request_id_operations_def message_model Let_def)

lemma is_valid_holds: "test_is_valid"
  by (simp add: test_is_valid_def message_model Let_def)

lemma written_numbers:
  "stream_number 16 4660 = ''1234''" "stream_number 16 1 = ''1''" "stream_number 16 (Suc 0) = ''1''"
  "stream_number 16 0 = ''0''" "stream_number 10 0 = ''0''"
  by (simp_all add: stream_number.simps digit_def char_of_def bit_0 bit_iff_odd)

lemma to_string_holds: "test_to_string"
  by (simp add: test_to_string_def to_string_def message_model payload_empty_def written_numbers Let_def)

lemma default_constructor_holds: "test_default_constructor"
  by (simp add: test_default_constructor_def payload_model Let_def)

lemma constructor_with_data_holds: "test_constructor_with_data"
  by (simp add: test_constructor_with_data_def payload_model Let_def)

lemma constructor_with_pointer_holds: "test_constructor_with_pointer"
  by (simp add: test_constructor_with_pointer_def payload_from_def payload_model)

lemma append_u8_holds: "test_append_u8"
  by (simp add: test_append_u8_def payload_model Let_def)

lemma append_u16_big_endian_holds: "test_append_u16_big_endian"
  by (simp add: test_append_u16_big_endian_def payload_model Let_def)

lemma append_u16_little_endian_holds: "test_append_u16_little_endian"
  by (simp add: test_append_u16_little_endian_def payload_model Let_def)

lemma append_u32_big_endian_holds: "test_append_u32_big_endian"
  by (simp add: test_append_u32_big_endian_def payload_model Let_def)

lemma append_u64_big_endian_holds: "test_append_u64_big_endian"
  by (simp add: test_append_u64_big_endian_def payload_model Let_def)

lemma append_bytes_holds: "test_append_bytes"
  by (simp add: test_append_bytes_def payload_model Let_def)

lemma get_out_of_bounds_holds: "test_get_out_of_bounds"
  by (simp add: test_get_out_of_bounds_def payload_model Let_def)

lemma set_position_holds: "test_set_position"
  by (simp add: test_set_position_def payload_model Let_def)

lemma set_position_out_of_bounds_holds: "test_set_position_out_of_bounds"
  by (simp add: test_set_position_out_of_bounds_def payload_model Let_def)

lemma clear_holds: "test_clear"
  by (simp add: test_clear_def payload_model Let_def)

lemma copy_holds: "test_copy"
  by (simp add: test_copy_def payload_model Let_def)

lemma get_string_holds: "test_get_string"
  by (simp add: test_get_string_def payload_model Let_def)

lemma get_string_too_short_holds: "test_get_string_too_short"
  by (simp add: test_get_string_too_short_def payload_model Let_def)

lemma multiple_reads_holds: "test_multiple_reads"
  by (simp add: test_multiple_reads_def payload_model Let_def)

lemma create_find_service_holds: "test_create_find_service"
  by (simp add: test_create_find_service_def entry_model Let_def)

lemma create_offer_service_holds: "test_create_offer_service"
  by (simp add: test_create_offer_service_def entry_model Let_def)

lemma create_subscribe_eventgroup_holds: "test_create_subscribe_eventgroup"
  by (simp add: test_create_subscribe_eventgroup_def entry_model Let_def)

lemma entry_serialize_deserialize_holds: "test_entry_serialize_deserialize"
  by (simp add: test_entry_serialize_deserialize_def entry_model Let_def)

lemma entry_deserialize_too_short_holds: "test_entry_deserialize_too_short"
  by (simp add: test_entry_deserialize_too_short_def entry_model Let_def)

lemma is_service_entry_holds: "test_is_service_entry"
  by (simp add: test_is_service_entry_def entry_model Let_def)

lemma is_eventgroup_entry_holds: "test_is_eventgroup_entry"
  by (simp add: test_is_eventgroup_entry_def entry_model Let_def)

lemma option_tests_hold:
  assumes "pton ''192.168.1.1'' = Some a" "ntop a = ''192.168.1.1''" "length a = 4"
    and "pton ''224.0.0.1'' = Some b" "ntop b = ''224.0.0.1''" "length b = 4"
  shows "test_endpoint_option pton ntop" "test_endpoint_option_tcp pton" "test_multicast_option pton ntop"
  using assms by (simp_all add: test_endpoint_option_def test_endpoint_option_tcp_def test_multicast_option_def
      new_endpoint_option_def new_multicast_option_def pton_or_def get_address_def OPTION_SIZE_def Let_def)

end
