(* ===== verification/Spec2Isabelle.thy ===== *)
theory Spec2Isabelle
  imports ShmRegistry TcpStop TcpRace LockSafety ExampleField ExampleEvent ExampleDiscovery ExampleApps
    ExampleDemos Ownership Shutdown Descriptors UnitTests
begin

text \<open>
  A verification development for msomeip, a SOME/IP stack in C++ (messages and payloads, the
  transport protocol for large messages, service discovery, UDP and TCP transports, the runtime
  that ties them together, the client of a routing daemon over shared memory, and the
  application, skeleton and proxy classes users program against). Paths below are relative to \<open>src/\<close> of the repository.

  Parts and how they interact. A \<open>Runtime\<close> (\<open>src/runtime.cpp\<close>) owns a UDP and a TCP transport
  (\<open>src/transport\<close>), a service discovery object (\<open>src/sd\<close>) and a reassembler (\<open>src/tp\<close>).
  \<open>send_message\<close> cuts a message whose payload is too long into TP segments and gives the
  messages to a transport, which serializes them (\<open>src/message\<close>). A transport decodes what it
  receives and calls back the runtime, which passes TP segments through the reassembler, gives
  service discovery messages to the service discovery object, and routes the rest to the
  handler registered for the service and instance. An \<open>Application\<close> (\<open>src/application.cpp\<close>)
  keeps the pending requests with their promises, the handlers of methods and events, and the
  events it offers; it asks the runtime's service discovery for endpoints and subscribers, sends
  through the runtime, and announces services and subscriptions to the daemon through the
  runtime's \<open>ShmAgent\<close> (\<open>src/shm_agent.cpp\<close>). \<open>ServiceSkeleton\<close> and \<open>ServiceProxy\<close>
  (\<open>src/service_base.cpp\<close>) are the server and the client side of one service over an application.

  Theories, in the order of the imports:

  \<^item> \<open>Prelude\<close>: machine integers as words, \<open>size_t\<close> arithmetic modulo \<open>2 ^ 64\<close>, faults (undefined
    behaviour as values of a sum), checked reads, byte order, and \<open>std::map\<close> as the list of its
    entries in key order (\<open>om_get\<close>, \<open>om_put\<close>, \<open>om_del\<close>).
  \<^item> \<open>Interfaces\<close>: the locales. \<open>table\<close> and \<open>extensional_table\<close> (interpreted on \<open>std::map\<close> and on
    hash tables), \<open>prefix_codec\<close> and \<open>fixed_codec\<close> (interpreted on messages, payload fields, TP
    headers and service discovery entries), the loop over records of one width, and
    \<open>bounded_queue\<close> (interpreted on the rings of the shared memory).
  \<^item> \<open>Types\<close> (\<open>types.h\<close>): constants, enumerations with their bytes, service identifiers with
    order and hash, configuration structs, and durations.
  \<^item> \<open>Payload\<close> (\<open>message/payload.cpp\<close>): a record of the data and the read position; every append
    and get. Round trip of records of mixed fields, memory safety of the typed reads, and the
    exact condition under which \<open>get_bytes\<close> leaves the buffer.
  \<^item> \<open>Message\<close> (\<open>message/message.cpp\<close>): a record of the header fields; factories, ids, \<open>serialize\<close>
    and \<open>deserialize\<close>. Round trips in both directions, memory safety, acceptance.
  \<^item> \<open>TpSegmenter\<close> (\<open>tp/tp_types.h\<close>, \<open>tp/tp_segmenter.cpp\<close>): the bit fields of the TP header and
    the segmentation loop, refined to a list of slices of the payload.
  \<^item> \<open>TpReassembler\<close> (\<open>tp/tp_reassembler.cpp\<close>): the buffers, their invariant over all runs, what
    a completed reassembly contains, that arrival order does not matter, and that segments
    with data never complete one.
  \<^item> \<open>SdEntry\<close> (\<open>sd/service_entry.cpp\<close>): entries and IPv4 options with their codecs.
  \<^item> \<open>ServiceDiscovery\<close> and \<open>SdProcess\<close> (\<open>sd/service_discovery.cpp\<close>): the registries, offering,
    finding, subscribing, the senders and the periodic work; then the handlers, the parsing of
    incoming messages and the runs. Invariant, functional behaviour of offers, finds,
    subscriptions and expiry, parsing of well-formed messages, safety and its limits.
  \<^item> \<open>Udp\<close> and \<open>Tcp\<close> (\<open>transport/udp_transport.cpp\<close>, \<open>transport/tcp_transport.cpp\<close>): the transports
    over a record \<open>os\<close> of system calls, which are parameters. Delivery of what was sent under
    the documented behaviour of datagram and stream sockets, termination of the receive
    thread on any finite stream without a write past its buffer of MAX_MESSAGE_SIZE bytes, consistency of the connection
    tables. \<open>tcp_stop\<close> is what a \<open>stop\<close> leaves that returns, and \<open>tcp_stop_returns\<close> when it does.
  \<^item> \<open>TcpStop\<close>: \<open>TcpTransport::stop\<close> against a receive thread as a step relation of two threads and
    a mutex, for one connection whose thread object is stored or not; mutual exclusion, and the deadlock.
  \<^item> \<open>Runtime\<close> (\<open>runtime.cpp\<close>): sending with segmentation, receiving, routing, the default runtime.
    \<open>RuntimeRuns\<close>: runs of a runtime, and what every message given to a handler satisfies.
  \<^item> \<open>ShmAgent\<close> (\<open>shm_agent.cpp\<close>): the agent over the bytes of the shared memory; commands,
    responses, lookups and the worker thread, and the runs in which other processes change the
    memory at any time. \<open>ShmQueues\<close>: a ring in memory refines a queue of slots
    (\<open>bounded_queue\<close>), so that commands are queued first in, first out, and the loop over the
    responses equals the queued responses handled one by one; where it leaves the memory.
    \<open>ShmRegistry\<close>: looking up a service in a registry of entries, and how far it reads.
  \<^item> \<open>Application\<close> (\<open>application.cpp\<close>): state and operations. \<open>AppRequests\<close>: the invariant of the
    pending requests and their promises over all runs, a call and its answer, stopping, and the
    ways in which a request goes wrong. \<open>AppServer\<close>: notifications, responses, and what reaches
    an application.
  \<^item> \<open>ServiceBase\<close> (\<open>service_base.cpp\<close>): skeleton and proxy over an application. \<open>ServiceProps\<close>:
    offering and withdrawing, which requests a skeleton serves, and the proxy's view.
  \<^item> \<open>Locks\<close>: threads that run skeletons of code (scopes of locks, accesses of members, branches,
    loops, calls of user code, calls that wait for the network or a thread) as a step relation, and the
    locales \<open>lock_order\<close> (locks taken in ascending order never deadlock: whoever waits does so for a
    thread that can go on, or that is in a call that waits) and \<open>lock_guards\<close> (members accessed under their guard are
    never raced for). \<open>Locking\<close>: the lock skeleton of every function of the library that locks,
    accesses a shared member or calls back, from all its source files. \<open>LockSafety\<close>: the order of
    the mutexes, what callbacks may call, the interpretations, and the runs that go wrong: handlers
    that lock what their caller holds, a member without a guard, and a \<open>send\<close> that keeps the receive
    threads from the table. Its threads run any sequence of the public functions that lock (\<open>api\<close>) or one of
    the threads of the library.
  \<^item> \<open>TcpRace\<close>: opening, receiving, disconnecting and stopping on one connection of the TCP
    transport as interleaved steps; how long the connection lives, and the ways to use it too late: after
    \<open>disconnect\<close>, after the peer has closed at once, and after a \<open>stop\<close> during \<open>connect\<close>.
  \<^item> \<open>ExampleMethod\<close>, \<open>ExampleField\<close>, \<open>ExampleEvent\<close>, \<open>ExampleDiscovery\<close>, \<open>ExampleApps\<close> (the programs
    under \<open>examples\<close>): their services and clients over the classes above. What a calculator, a
    configuration, a sensor and a provider of several services compute, keep, show and offer,
    and what of it the library lets through. \<open>ExampleDemos\<close>: what the demo clients call and print,
    and the command lines.
  \<^item> \<open>Ownership\<close> (\<open>application.cpp\<close>, \<open>service_base.cpp\<close>, \<open>runtime.cpp\<close>): several applications,
    skeletons and proxies as users create and drop them, the \<open>shared_ptr\<close> each holds, and the lambdas
    that capture them without owning them; an application lives exactly as long as it is owned, and
    exactly which destructions leave a lambda that uses freed memory. Messages are looked up by service
    and instance, and those from the wire have instance 0xFFFF.
  \<^item> \<open>Shutdown\<close>: the workers of service discovery, of the transports and of the agent against the
    callers of \<open>start\<close> and \<open>stop\<close>, as interleaved steps; making a thread and storing its handle are two,
    and the accept thread is made only with a listening socket. One caller can start and stop at will, a
    stop takes at most one turn of a worker whose waiting ends, and what goes wrong otherwise.
  \<^item> \<open>Descriptors\<close>: the file descriptors of the transports over whole runs, failing calls included, who
    holds each, and what the destructors close.
  \<^item> \<open>UnitTests\<close> (\<open>tests\<close>): every unit test as a proposition about the model, proved.

  Conventions. Stateful objects are records passed and returned; callbacks are tokens whose
  calls come out as a list of actions, in order; \<open>steady_clock::now()\<close> is an argument, in
  nanoseconds. A null pointer is \<open>None\<close>. Undefined behaviour is a fault, a value \<open>Inl f\<close>, so
  memory safety is a theorem. \<open>inet_pton\<close>, \<open>inet_ntop\<close> and the socket calls are parameters, and
  what a theorem assumes of them (\<open>stream_recv\<close>, \<open>stream_send\<close>, \<open>dgram_send\<close>, \<open>dgram_tries\<close>, \<open>queue_recvfrom\<close>,
  \<open>tracks_fds\<close>) is a definition that states what POSIX documents; each is met by a concrete
  system in a witness. The library behind the shared memory is not in the repository either: what attaching
  returns and whether a lock is taken are arguments. A future is an index into the list of
  promises, and waiting for it is a step of its own. An operation is an atomic step, as most hold
  their mutex from beginning to end; the locking itself, with the interleavings it allows, is the subject of \<open>Locking\<close>,
  \<open>LockSafety\<close>, \<open>TcpStop\<close>, \<open>TcpRace\<close> and \<open>Shutdown\<close>, over skeletons without data.

  Bounds and termination. No fuel is used. Loops over data are structural recursions or
  functions with a measure; the receive loop of a TCP connection, which need not end, is a
  partial function, and that it returns is part of what is proved. Sizes are bounded only by
  what the wire format can carry (32-bit lengths, 24-bit offsets and TTLs) or by \<open>size_t\<close>.

  Not modelled: the progress lines that the servers and handlers of the examples print, random
  delays and the random client id (an argument); floating-point arithmetic of the sensor example and
  what happens while a program sleeps (parameters); in the lock skeletons, several applications,
  skeletons or proxies in one process, mutexes of users, and what ends a call that waits for the network or a thread; in \<open>Ownership\<close>, what handlers
  compute and handlers of users that capture objects.
\<close>

end
